(* ===== verification/Prelude.thy ===== *)
theory Prelude
  imports Main "HOL-Library.Word" "HOL-Library.Sublist" "HOL-Library.Multiset"
begin

text \<open>
  The prelude of the development: the machine integers, durations and instants the Go code
  computes with, the theorem collections the component theories fill, and the two interface
  locales every stateful component is an instance of (a machine with an invariant, and a
  machine that refines another one with the same outputs).
\<close>

section \<open>Collections\<close>

text \<open>
  \<open>go_simps\<close> collects the equations that evaluate the model of the Go library on concrete
  values; \<open>frame_simps\<close> the facts that an operation leaves a part of the state alone.
\<close>

named_theorems go_simps
named_theorems frame_simps

section \<open>Integers, durations, instants\<close>

text \<open>
  A Go \<open>int\<close> is 64 bits wide on the supported platforms, and \<open>time.Duration\<close> is an
  \<open>int64\<close> count of nanoseconds. An instant is an unbounded count of nanoseconds since the
  Unix epoch (\<open>time.Time\<close> has a wider range than \<open>int64\<close> nanoseconds). A Go \<open>error\<close>
  is represented by the text its \<open>Error\<close> method returns.
\<close>

type_synonym goerror = string
type_synonym int64 = "64 word"
type_synonym time = int
type_synonym duration = int

definition wrap64 :: "int \<Rightarrow> int" where
  "wrap64 x = sint (word_of_int x :: int64)"

definition max_duration :: duration where
  "max_duration = 9223372036854775807"

definition min_duration :: duration where
  "min_duration = - 9223372036854775808"

lemma wrap64_id [simp]:
  assumes "min_duration \<le> x" "x \<le> max_duration"
  shows "wrap64 x = x"
  using assms unfolding wrap64_def min_duration_def max_duration_def
  by (simp add: sint_sbintrunc' signed_take_bit_int_eq_self)

lemma wrap64_range: "min_duration \<le> wrap64 x \<and> wrap64 x \<le> max_duration"
  unfolding wrap64_def min_duration_def max_duration_def
  using sint_range_size [of "word_of_int x :: int64"] by (simp add: word_size)

definition second :: duration where
  "second = 1000000000"

definition minute :: duration where
  "minute = 60 * second"

definition hour :: duration where
  "hour = 60 * minute"

text \<open>
  \<open>t.Sub(u)\<close> (and \<open>time.Since(u)\<close>, which is \<open>Now().Sub(u)\<close>) saturates at the ends of
  the \<open>Duration\<close> range.
\<close>

definition time_sub :: "time \<Rightarrow> time \<Rightarrow> duration" where
  "time_sub t u = max min_duration (min max_duration (t - u))"

lemma time_sub_mono: "t \<le> t' \<Longrightarrow> time_sub t u \<le> time_sub t' u"
  unfolding time_sub_def by (simp add: max_def min_def)

lemma time_sub_exact [simp]:
  "min_duration \<le> t - u \<Longrightarrow> t - u \<le> max_duration \<Longrightarrow> time_sub t u = t - u"
  unfolding time_sub_def by simp

lemma time_sub_self [simp]: "time_sub t t = 0"
  unfolding time_sub_def min_duration_def max_duration_def by simp

lemma time_sub_gt_iff:
  "min_duration \<le> d \<Longrightarrow> d < max_duration \<Longrightarrow> d < time_sub t u \<longleftrightarrow> d < t - u"
  unfolding time_sub_def by (auto simp: max_def min_def)

text \<open>The zero value of \<open>time.Time\<close>, January 1, year 1, 00:00:00 UTC.\<close>

definition zero_time :: time where
  "zero_time = - 62135596800 * second"

lemmas time_units = second_def minute_def hour_def
lemmas duration_bounds = min_duration_def max_duration_def

section \<open>Maps and lists\<close>

text \<open>Removing a key from a Go map, \<open>delete(m, k)\<close>.\<close>

definition map_delete :: "'k \<Rightarrow> ('k \<rightharpoonup> 'v) \<Rightarrow> ('k \<rightharpoonup> 'v)" where
  "map_delete k m = m(k := None)"

lemma map_delete_same [simp]: "map_delete k m k = None"
  by (simp add: map_delete_def)

lemma map_delete_other [simp]: "k \<noteq> k' \<Longrightarrow> map_delete k m k' = m k'"
  by (simp add: map_delete_def)

lemma dom_map_delete [simp]: "dom (map_delete k m) = dom m - {k}"
  by (simp add: map_delete_def)

lemma map_delete_idle: "m k = None \<Longrightarrow> map_delete k m = m"
  by (auto simp: map_delete_def)

lemma last_filter_snoc: "P x \<Longrightarrow> last (filter P (xs @ [x])) = x"
  by simp

section \<open>Machines\<close>

text \<open>
  A component is a step function that takes an event to an output and a new state. A run
  feeds it a list of events. \<open>valid_run\<close> says that every event of a run meets the
  precondition of its step in the state it is fed to (a monotone clock, a fresh identifier).
\<close>

primrec run :: "('e \<Rightarrow> 's \<Rightarrow> 'o \<times> 's) \<Rightarrow> 'e list \<Rightarrow> 's \<Rightarrow> 'o list \<times> 's" where
  "run step [] s = ([], s)"
| "run step (e # es) s =
     (fst (step e s) # fst (run step es (snd (step e s))), snd (run step es (snd (step e s))))"

primrec valid_run ::
    "('s \<Rightarrow> 'e \<Rightarrow> bool) \<Rightarrow> ('e \<Rightarrow> 's \<Rightarrow> 'o \<times> 's) \<Rightarrow> 'e list \<Rightarrow> 's \<Rightarrow> bool" where
  "valid_run pre step [] s = True"
| "valid_run pre step (e # es) s = (pre s e \<and> valid_run pre step es (snd (step e s)))"

lemma run_append:
  "run step (xs @ ys) s =
     (fst (run step xs s) @ fst (run step ys (snd (run step xs s))),
      snd (run step ys (snd (run step xs s))))"
  by (induction xs arbitrary: s) simp_all

lemma valid_run_append:
  "valid_run pre step (xs @ ys) s \<longleftrightarrow>
     valid_run pre step xs s \<and> valid_run pre step ys (snd (run step xs s))"
  by (induction xs arbitrary: s) simp_all

lemma valid_run_True [simp]: "valid_run (\<lambda>_ _. True) step es s"
  by (induction es arbitrary: s) simp_all

locale machine =
  fixes step :: "'e \<Rightarrow> 's \<Rightarrow> 'o \<times> 's"
    and pre :: "'s \<Rightarrow> 'e \<Rightarrow> bool"
    and inv :: "'s \<Rightarrow> bool"
  assumes step_inv: "inv s \<Longrightarrow> pre s e \<Longrightarrow> inv (snd (step e s))"
begin

lemma run_inv: "inv s \<Longrightarrow> valid_run pre step es s \<Longrightarrow> inv (snd (run step es s))"
  by (induction es arbitrary: s) (simp_all add: step_inv)

lemma run_prefix_inv:
  assumes "inv s" "valid_run pre step (xs @ ys) s"
  shows "inv (snd (run step xs s))"
  using assms run_inv by (auto simp: valid_run_append)

end

text \<open>
  A refinement: the concrete machine and the abstract one are related by \<open>rel\<close>; from
  related states every event that the abstract side expects (\<open>pre\<close>) gives the same output
  and related states. Ghost state, such as the time of the last event, lives on the abstract
  side.
\<close>

locale refinement =
  fixes step :: "'e \<Rightarrow> 's \<Rightarrow> 'o \<times> 's"
    and pre :: "'a \<Rightarrow> 'e \<Rightarrow> bool"
    and astep :: "'e \<Rightarrow> 'a \<Rightarrow> 'o \<times> 'a"
    and rel :: "'s \<Rightarrow> 'a \<Rightarrow> bool"
  assumes step_out: "rel s a \<Longrightarrow> pre a e \<Longrightarrow> fst (step e s) = fst (astep e a)"
    and step_rel: "rel s a \<Longrightarrow> pre a e \<Longrightarrow> rel (snd (step e s)) (snd (astep e a))"
begin

lemma run_out:
  "rel s a \<Longrightarrow> valid_run pre astep es a \<Longrightarrow> fst (run step es s) = fst (run astep es a)"
  by (induction es arbitrary: s a) (simp_all add: step_out step_rel)

lemma run_rel:
  "rel s a \<Longrightarrow> valid_run pre astep es a \<Longrightarrow> rel (snd (run step es s)) (snd (run astep es a))"
  by (induction es arbitrary: s a) (simp_all add: step_rel)

end

end
