(* ===== verification/GoStd.thy ===== *)
theory GoStd
  imports Prelude
begin

text \<open>
  The parts of the Go library the program computes with: byte strings (\<open>strings\<close>,
  \<open>strconv\<close>, \<open>encoding/hex\<close>, \<open>fmt\<close>) and slash-separated paths (\<open>path/filepath\<close> on
  Unix). A Go string is a sequence of bytes and so is an Isabelle \<open>string\<close>; white space is
  recognised on the UTF-8 encoding, as the library does.
\<close>

section \<open>Prefixes and substrings\<close>

definition hasPrefix :: "string \<Rightarrow> string \<Rightarrow> bool" where
  "hasPrefix s p = prefix p s"

definition trimPrefix :: "string \<Rightarrow> string \<Rightarrow> string" where
  "trimPrefix s p = (if prefix p s then drop (length p) s else s)"

lemma hasPrefix_append [simp]: "hasPrefix (p @ s) p"
  by (simp add: hasPrefix_def)

lemma trimPrefix_append [simp]: "trimPrefix (p @ s) p = s"
  by (simp add: trimPrefix_def)

text \<open>\<open>strings.Index\<close>: the first position of a substring; \<open>-1\<close> is \<open>None\<close>.\<close>

fun index_of :: "string \<Rightarrow> string \<Rightarrow> nat option" where
  "index_of pat [] = (if pat = [] then Some 0 else None)"
| "index_of pat (c # s) =
     (if prefix pat (c # s) then Some 0 else map_option Suc (index_of pat s))"

definition newline :: char where
  "newline = CHR 0x0A"

text \<open>\<open>strings.Split\<close> on a separator of one byte.\<close>

fun split_on :: "char \<Rightarrow> string \<Rightarrow> string list" where
  "split_on x [] = [[]]"
| "split_on x (c # s) =
     (if c = x then [] # split_on x s
      else (case split_on x s of [] \<Rightarrow> [[c]] | w # ws \<Rightarrow> (c # w) # ws))"

lemma split_on_nonempty [simp]: "split_on x s \<noteq> []"
  by (induction s) (auto split: list.splits)

lemma split_on_append: "split_on x (a @ x # b) = split_on x a @ split_on x b"
  by (induction a) (auto split: list.splits)

lemma split_on_single: "x \<notin> set a \<Longrightarrow> split_on x a = [a]"
  by (induction a) auto

lemma split_on_no_sep: "w \<in> set (split_on x s) \<Longrightarrow> x \<notin> set w"
proof (induction s arbitrary: w)
  case Nil
  then show ?case by simp
next
  case (Cons c s)
  then show ?case
    by (cases "split_on x s") (auto split: if_splits)
qed

section \<open>White space\<close>

definition ascii_spaces :: "char list" where
  "ascii_spaces = [CHR 0x09, CHR 0x0A, CHR 0x0B, CHR 0x0C, CHR 0x0D, CHR 0x20]"

text \<open>The UTF-8 encodings of the other code points of \<open>unicode.IsSpace\<close>.\<close>

definition wide_spaces :: "string list" where
  "wide_spaces =
     [[CHR 0xC2, CHR 0x85], [CHR 0xC2, CHR 0xA0], [CHR 0xE1, CHR 0x9A, CHR 0x80]]
     @ map (\<lambda>c. [CHR 0xE2, CHR 0x80, c])
         [CHR 0x80, CHR 0x81, CHR 0x82, CHR 0x83, CHR 0x84, CHR 0x85, CHR 0x86, CHR 0x87,
          CHR 0x88, CHR 0x89, CHR 0x8A, CHR 0xA8, CHR 0xA9, CHR 0xAF]
     @ [[CHR 0xE2, CHR 0x81, CHR 0x9F], [CHR 0xE3, CHR 0x80, CHR 0x80]]"

text \<open>
  The number of bytes of the white-space character a string starts with, 0 if it starts with
  another one. \<open>space_len_rev\<close> reads the string from its end.
\<close>

fun space_len_in :: "string list \<Rightarrow> string \<Rightarrow> nat" where
  "space_len_in wide [] = 0"
| "space_len_in wide (c # s) =
     (if c \<in> set ascii_spaces then 1
      else case find (\<lambda>p. p \<noteq> [] \<and> prefix p (c # s)) wide of None \<Rightarrow> 0 | Some p \<Rightarrow> length p)"

definition space_len :: "string \<Rightarrow> nat" where
  "space_len s = space_len_in wide_spaces s"

lemma space_len_in_le: "space_len_in wide s \<le> length s"
  by (cases s) (auto split: option.splits simp: find_Some_iff dest!: prefix_length_le)

lemma space_len_nil [simp]: "space_len [] = 0"
  by (simp add: space_len_def)

lemma space_len_ascii: "c \<in> set ascii_spaces \<Longrightarrow> space_len (c # s) = 1"
  by (simp add: space_len_def)

definition ascii_graphic :: "char \<Rightarrow> bool" where
  "ascii_graphic c \<longleftrightarrow> 0x21 \<le> (of_char c :: nat) \<and> (of_char c :: nat) < 0x80"

lemma find_None_all: "(\<And>p. p \<in> set ps \<Longrightarrow> \<not> P p) \<Longrightarrow> find P ps = None"
  by (induction ps) auto

lemma wide_spaces_hd: "\<forall>p \<in> set wide_spaces. p \<noteq> [] \<and> 0x80 \<le> (of_char (hd p) :: nat)"
  by (simp add: wide_spaces_def)

lemma ascii_spaces_low: "\<forall>c \<in> set ascii_spaces. (of_char c :: nat) \<le> 0x20"
  by (simp add: ascii_spaces_def)

lemma wide_space_not_ascii:
  assumes "(of_char c :: nat) < 0x80" "p \<in> set wide_spaces"
  shows "\<not> prefix p (c # s)"
proof
  assume "prefix p (c # s)"
  moreover from assms(2) wide_spaces_hd have "p \<noteq> []" "0x80 \<le> (of_char (hd p) :: nat)"
    by auto
  ultimately show False
    using assms(1) by (cases p) auto
qed

lemma space_len_graphic:
  assumes "ascii_graphic c"
  shows "space_len (c # s) = 0"
proof -
  have "c \<notin> set ascii_spaces"
    using assms ascii_spaces_low by (force simp: ascii_graphic_def)
  moreover have "find (\<lambda>p. p \<noteq> [] \<and> prefix p (c # s)) wide_spaces = None"
    by (rule find_None_all) (use assms wide_space_not_ascii in \<open>auto simp: ascii_graphic_def\<close>)
  ultimately show ?thesis
    by (simp add: space_len_def)
qed

text \<open>\<open>strings.TrimSpace\<close>.\<close>

function trim_with :: "string list \<Rightarrow> string \<Rightarrow> string" where
  "trim_with wide s =
     (if space_len_in wide s = 0 then s else trim_with wide (drop (space_len_in wide s) s))"
  by pat_completeness auto
termination
  by (relation "measure (\<lambda>(wide, s). length s)")
    (auto simp: le_less_trans [OF _ diff_less] intro!: diff_less intro: ccontr)

declare trim_with.simps [simp del]

definition trim_left :: "string \<Rightarrow> string" where
  "trim_left s = trim_with wide_spaces s"

definition trim_right :: "string \<Rightarrow> string" where
  "trim_right s = rev (trim_with (map rev wide_spaces) (rev s))"

definition trimSpace :: "string \<Rightarrow> string" where
  "trimSpace s = trim_right (trim_left s)"

lemma trim_with_stop: "space_len_in wide s = 0 \<Longrightarrow> trim_with wide s = s"
  by (subst trim_with.simps) simp

lemma trim_with_step:
  "space_len_in wide s \<noteq> 0 \<Longrightarrow> trim_with wide s = trim_with wide (drop (space_len_in wide s) s)"
  by (subst trim_with.simps) simp

lemma trim_with_suffix: "suffix (trim_with wide s) s"
proof (induction wide s rule: trim_with.induct)
  case (1 wide s)
  show ?case
  proof (cases "space_len_in wide s = 0")
    case True
    then show ?thesis by (simp add: trim_with_stop)
  next
    case False
    with "1.IH" show ?thesis
      by (simp add: trim_with_step suffix_order.trans [OF _ suffix_drop])
  qed
qed

text \<open>A string that starts and ends with a visible ASCII character is already trimmed.\<close>

definition graphic_ends :: "string \<Rightarrow> bool" where
  "graphic_ends s \<longleftrightarrow> s \<noteq> [] \<and> ascii_graphic (hd s) \<and> ascii_graphic (last s)"

lemma space_len_in_rev_graphic:
  assumes "ascii_graphic c"
  shows "space_len_in (map rev wide_spaces) (c # s) = 0"
proof -
  have last: "\<forall>p \<in> set wide_spaces. p \<noteq> [] \<and> 0x80 \<le> (of_char (last p) :: nat)"
    by (simp add: wide_spaces_def)
  have "c \<notin> set ascii_spaces"
    using assms ascii_spaces_low by (force simp: ascii_graphic_def)
  moreover have none: "\<not> prefix p (c # s)" if "p \<in> set (map rev wide_spaces)" for p
  proof
    assume "prefix p (c # s)"
    from that obtain q where q: "p = rev q" "q \<in> set wide_spaces" by auto
    with last have "q \<noteq> []" "0x80 \<le> (of_char (last q) :: nat)" by auto
    with q(1) \<open>prefix p (c # s)\<close> assms show False
      by (cases q rule: rev_cases) (auto simp: ascii_graphic_def)
  qed
  moreover from none have "find (\<lambda>p. p \<noteq> [] \<and> prefix p (c # s)) (map rev wide_spaces) = None"
    by (intro find_None_all) blast
  ultimately show ?thesis
    by simp
qed

lemma trimSpace_id: "graphic_ends s \<Longrightarrow> trimSpace s = s"
proof -
  assume g: "graphic_ends s"
  then obtain c t where s: "s = c # t" and c: "ascii_graphic c"
    by (cases s) (auto simp: graphic_ends_def)
  from g obtain d u where r: "rev s = d # u" and d: "ascii_graphic d"
    by (cases s rule: rev_cases) (auto simp: graphic_ends_def)
  have "trim_left s = s"
    unfolding trim_left_def s
    by (rule trim_with_stop) (use space_len_graphic [OF c] in \<open>simp add: space_len_def\<close>)
  moreover have "trim_right s = s"
    unfolding trim_right_def r
    using trim_with_stop [OF space_len_in_rev_graphic [OF d]] r by (metis rev_rev_ident)
  ultimately show ?thesis
    by (simp add: trimSpace_def)
qed

text \<open>\<open>strings.Fields\<close>: the maximal runs of bytes that are not white space.\<close>

fun take_word :: "string \<Rightarrow> string \<times> string" where
  "take_word [] = ([], [])"
| "take_word (c # s) =
     (if space_len (c # s) \<noteq> 0 then ([], c # s)
      else (c # fst (take_word s), snd (take_word s)))"

lemma take_word_le: "length (snd (take_word s)) \<le> length s"
  by (induction s) auto

function fields :: "string \<Rightarrow> string list" where
  "fields [] = []"
| "fields (c # s) =
     (if space_len (c # s) \<noteq> 0 then fields (drop (space_len (c # s)) (c # s))
      else (c # fst (take_word s)) # fields (snd (take_word s)))"
  by pat_completeness auto
termination
  by (relation "measure length") (auto simp: le_imp_less_Suc [OF take_word_le])

declare fields.simps(2) [simp del]

lemma take_word_graphic:
  "\<forall>c \<in> set w. ascii_graphic c \<Longrightarrow> take_word (w @ s) = (w @ fst (take_word s), snd (take_word s))"
  by (induction w) (auto simp: space_len_graphic)

lemma take_word_space: "c \<in> set ascii_spaces \<Longrightarrow> take_word (c # s) = ([], c # s)"
  by (simp add: space_len_ascii)

lemma fields_space: "c \<in> set ascii_spaces \<Longrightarrow> fields (c # s) = fields s"
  by (subst fields.simps(2)) (simp add: space_len_ascii)

lemma fields_word_space:
  assumes "w \<noteq> []" "\<forall>c \<in> set w. ascii_graphic c" "x \<in> set ascii_spaces"
  shows "fields (w @ x # s) = w # fields s"
proof -
  obtain c v where w: "w = c # v" using assms(1) by (cases w) auto
  with assms(2) have c: "ascii_graphic c" and v: "\<forall>c \<in> set v. ascii_graphic c" by auto
  have "take_word (v @ x # s) = (v, x # s)"
    using take_word_graphic [OF v] take_word_space [OF assms(3)] by simp
  then show ?thesis
    unfolding w append_Cons
    by (subst fields.simps(2)) (simp add: space_len_graphic [OF c] fields_space [OF assms(3)])
qed

lemma fields_word:
  assumes "w \<noteq> []" "\<forall>c \<in> set w. ascii_graphic c"
  shows "fields w = [w]"
proof -
  obtain c v where w: "w = c # v" using assms(1) by (cases w) auto
  with assms(2) have c: "ascii_graphic c" and v: "\<forall>c \<in> set v. ascii_graphic c" by auto
  have "take_word v = (v, [])"
    using take_word_graphic [OF v, of "[]"] by simp
  then show ?thesis
    unfolding w by (simp add: fields.simps(2) space_len_graphic [OF c])
qed

lemmas fields_words = fields_space fields_word_space fields_word

section \<open>Numbers\<close>

text \<open>Decimal digits, as \<open>%d\<close> prints them, and zero-padded to a width.\<close>

definition digit_char :: "nat \<Rightarrow> char" where
  "digit_char d = char_of (48 + d)"

fun dec_nat :: "nat \<Rightarrow> string" where
  "dec_nat n = (if n < 10 then [digit_char n] else dec_nat (n div 10) @ [digit_char (n mod 10)])"

declare dec_nat.simps [simp del]

definition dec_int :: "int \<Rightarrow> string" where
  "dec_int i = (if i < 0 then CHR ''-'' # dec_nat (nat (- i)) else dec_nat (nat i))"

fun fixed_digits :: "nat \<Rightarrow> nat \<Rightarrow> string" where
  "fixed_digits 0 n = []"
| "fixed_digits (Suc w) n = fixed_digits w (n div 10) @ [digit_char (n mod 10)]"

definition pad :: "nat \<Rightarrow> nat \<Rightarrow> string" where
  "pad w n = (if n < 10 ^ w then fixed_digits w n else dec_nat n)"

lemma fixed_digits_numeral [go_simps]:
  "fixed_digits (numeral k) n = fixed_digits (pred_numeral k) (n div 10) @ [digit_char (n mod 10)]"
  by (simp only: numeral_eq_Suc [of k] fixed_digits.simps)

lemma length_fixed_digits [simp]: "length (fixed_digits w n) = w"
  by (induction w arbitrary: n) auto

lemma length_pad: "n < 10 ^ w \<Longrightarrow> length (pad w n) = w"
  by (simp add: pad_def)

definition is_digit :: "char \<Rightarrow> bool" where
  "is_digit c \<longleftrightarrow> 48 \<le> (of_char c :: nat) \<and> (of_char c :: nat) \<le> 57"

definition digit_val :: "char \<Rightarrow> nat" where
  "digit_val c = of_char c - 48"

lemma of_digit_char [simp]: "d < 10 \<Longrightarrow> (of_char (digit_char d) :: nat) = 48 + d"
  by (simp add: digit_char_def)

lemma digit_val_char [simp]: "d < 10 \<Longrightarrow> digit_val (digit_char d) = d"
  by (simp add: digit_val_def)

lemma is_digit_char [simp]: "d < 10 \<Longrightarrow> is_digit (digit_char d)"
  by (simp add: is_digit_def)

definition read_digits :: "string \<Rightarrow> nat" where
  "read_digits s = foldl (\<lambda>n c. 10 * n + digit_val c) 0 s"

lemma read_fixed_digits: "n < 10 ^ w \<Longrightarrow> read_digits (fixed_digits w n) = n"
proof (induction w arbitrary: n)
  case 0
  then show ?case by (simp add: read_digits_def)
next
  case (Suc w)
  then have "n div 10 < 10 ^ w" by simp
  then have "read_digits (fixed_digits w (n div 10)) = n div 10" by (rule Suc.IH)
  then show ?case by (simp add: read_digits_def)
qed

lemma read_pad [simp]: "n < 10 ^ w \<Longrightarrow> read_digits (pad w n) = n"
  by (simp add: pad_def read_fixed_digits)

lemma pad_inj: "m < 10 ^ w \<Longrightarrow> n < 10 ^ w \<Longrightarrow> pad w m = pad w n \<longleftrightarrow> m = n"
  by (metis read_pad)

lemma fixed_digits_set: "c \<in> set (fixed_digits w n) \<Longrightarrow> is_digit c"
  by (induction w arbitrary: n) auto

lemma dec_nat_set: "c \<in> set (dec_nat n) \<Longrightarrow> is_digit c"
proof (induction n rule: dec_nat.induct)
  case (1 n)
  then show ?case by (subst (asm) dec_nat.simps) (auto split: if_splits)
qed

lemma pad_set: "c \<in> set (pad w n) \<Longrightarrow> is_digit c"
  by (auto simp: pad_def dest: fixed_digits_set dec_nat_set split: if_splits)

text \<open>
  \<open>strconv.ParseUint(s, 10, 64)\<close>: the returned value, also where it reports an error (0 on
  a syntax error, the largest \<open>uint64\<close> once the digits overflow it).
\<close>

definition max_uint64 :: nat where
  "max_uint64 = 18446744073709551615"

fun parse_uint_loop :: "nat \<Rightarrow> string \<Rightarrow> nat" where
  "parse_uint_loop n [] = n"
| "parse_uint_loop n (c # s) =
     (if \<not> is_digit c then 0
      else if max_uint64 < 10 * n + digit_val c then max_uint64
      else parse_uint_loop (10 * n + digit_val c) s)"

definition parseUint64 :: "string \<Rightarrow> int64" where
  "parseUint64 s = of_nat (if s = [] then 0 else parse_uint_loop 0 s)"

text \<open>\<open>hex.EncodeToString\<close>: two lower-case digits for each byte.\<close>

definition hex_digit :: "nat \<Rightarrow> char" where
  "hex_digit d = (if d < 10 then char_of (48 + d) else char_of (87 + d))"

fun hex_encode :: "string \<Rightarrow> string" where
  "hex_encode [] = []"
| "hex_encode (b # bs) =
     hex_digit (of_char b div 16) # hex_digit (of_char b mod 16) # hex_encode bs"

lemma length_hex_encode [simp]: "length (hex_encode bs) = 2 * length bs"
  by (induction bs) auto

definition is_hex :: "char \<Rightarrow> bool" where
  "is_hex c \<longleftrightarrow> is_digit c \<or> 97 \<le> (of_char c :: nat) \<and> (of_char c :: nat) \<le> 102"

lemma is_hex_digit: "d < 16 \<Longrightarrow> is_hex (hex_digit d)"
  by (auto simp: is_hex_def is_digit_def hex_digit_def)

lemma of_char_lt_256 [simp]: "(of_char c :: nat) < 256"
  by (metis of_char_mod_256 mod_less_divisor zero_less_numeral)

lemma hex_encode_set: "c \<in> set (hex_encode bs) \<Longrightarrow> is_hex c"
proof (induction bs)
  case Nil
  then show ?case by simp
next
  case (Cons b bs)
  have "(of_char b :: nat) div 16 < 16" using of_char_lt_256 [of b] by linarith
  with Cons show ?case by (auto intro: is_hex_digit)
qed

definition hex_val :: "char \<Rightarrow> nat" where
  "hex_val c = (if (of_char c :: nat) < 97 then of_char c - 48 else of_char c - 87)"

lemma hex_val_digit [simp]: "d < 16 \<Longrightarrow> hex_val (hex_digit d) = d"
  by (simp add: hex_val_def hex_digit_def)

lemma hex_digit_inj: "d < 16 \<Longrightarrow> e < 16 \<Longrightarrow> hex_digit d = hex_digit e \<longleftrightarrow> d = e"
  by (metis hex_val_digit)

lemma hex_encode_inj: "hex_encode a = hex_encode b \<longleftrightarrow> a = b"
proof (induction a arbitrary: b)
  case Nil
  then show ?case by (cases b) auto
next
  case (Cons x a)
  show ?case
  proof (cases b)
    case Nil
    then show ?thesis by simp
  next
    case (Cons y b')
    have "(of_char x :: nat) div 16 < 16" "(of_char y :: nat) div 16 < 16"
      using of_char_lt_256 [of x] of_char_lt_256 [of y] by linarith+
    moreover have "x = y" if "(of_char x :: nat) div 16 = of_char y div 16"
      "(of_char x :: nat) mod 16 = of_char y mod 16"
      using that by (metis div_mult_mod_eq of_char_eq_iff)
    ultimately show ?thesis
      using Cons Cons.IH [of b'] by (auto simp: hex_digit_inj)
  qed
qed

section \<open>Paths\<close>

text \<open>
  \<open>filepath.Clean\<close> on Unix: empty and \<open>.\<close> elements are dropped, \<open>..\<close> removes the
  element before it (or is kept at the front of a relative path, or dropped at the root).
  The elements kept are on a stack, the last one first.
\<close>

definition slash :: char where
  "slash = CHR ''/''"

definition rooted :: "string \<Rightarrow> bool" where
  "rooted p \<longleftrightarrow> p \<noteq> [] \<and> hd p = slash"

definition push_elem :: "bool \<Rightarrow> string \<Rightarrow> string list \<Rightarrow> string list" where
  "push_elem root e stk =
     (if e = [] \<or> e = ''.'' then stk
      else if e = ''..'' then
        (case stk of
           [] \<Rightarrow> if root then [] else [''..'']
         | t # ts \<Rightarrow> if t = ''..'' then e # stk else ts)
      else e # stk)"

definition clean_stack :: "string \<Rightarrow> string list" where
  "clean_stack p = fold (push_elem (rooted p)) (split_on slash p) []"

fun join_with :: "string \<Rightarrow> string list \<Rightarrow> string" where
  "join_with sep [] = []"
| "join_with sep [x] = x"
| "join_with sep (x # y # ys) = x @ sep @ join_with sep (y # ys)"

definition render_path :: "bool \<Rightarrow> string list \<Rightarrow> string" where
  "render_path root elems =
     (if root then slash # join_with [slash] elems
      else if elems = [] then ''.'' else join_with [slash] elems)"

definition clean :: "string \<Rightarrow> string" where
  "clean p = render_path (rooted p) (rev (clean_stack p))"

text \<open>\<open>filepath.Join\<close>: empty leading elements are skipped, the rest is cleaned.\<close>

definition path_join :: "string list \<Rightarrow> string" where
  "path_join elems =
     (case dropWhile (\<lambda>e. e = []) elems of [] \<Rightarrow> [] | es \<Rightarrow> clean (join_with [slash] es))"

text \<open>A plain element is a single path element that stands for itself.\<close>

definition plain_elem :: "string \<Rightarrow> bool" where
  "plain_elem e \<longleftrightarrow> e \<noteq> [] \<and> e \<noteq> ''.'' \<and> e \<noteq> ''..'' \<and> slash \<notin> set e"

lemma push_plain [simp]: "plain_elem e \<Longrightarrow> push_elem root e stk = e # stk"
  by (simp add: push_elem_def plain_elem_def)

lemma split_plain: "plain_elem e \<Longrightarrow> split_on slash e = [e]"
  by (simp add: plain_elem_def split_on_single)

lemma rooted_append [simp]: "a \<noteq> [] \<Longrightarrow> rooted (a @ b) = rooted a"
  by (cases a) (auto simp: rooted_def)

lemma clean_stack_append:
  assumes "a \<noteq> []"
  shows "clean_stack (a @ slash # b) =
    fold (push_elem (rooted a)) (split_on slash b) (clean_stack a)"
  using assms by (simp add: clean_stack_def split_on_append)

end
