(* ===== verification/Http.thy ===== *)
theory Http
  imports GoStd
begin

text \<open>
  The parts of \<open>net/http\<close> and \<open>encoding/json\<close> the handlers use: header maps with
  canonical keys, requests, the response writer with its rule that only the first
  \<open>WriteHeader\<close> counts, JSON values and the decoding of a JSON object into a struct; and
  the contract of a middleware as a locale.

  The text of a JSON document is not modelled: a request body is what the decoder finds in it
  (a value or its error), and a response body is a list of chunks, each a text or a JSON value.
\<close>

section \<open>JSON\<close>

datatype json =
    JNull
  | JBool bool
  | JInt int
  | JOtherNum string
  | JStr string
  | JArr "json list"
  | JObj "(string \<times> json) list"

text \<open>
  A key of an object names a struct field when the two agree up to simple case folding (the
  Kelvin sign folds to \<open>k\<close>, the long s to \<open>s\<close>).
\<close>

definition lower :: "char \<Rightarrow> char" where
  "lower c = (if 65 \<le> (of_char c :: nat) \<and> (of_char c :: nat) \<le> 90 then char_of (of_char c + (32::nat)) else c)"

fun fold_name :: "string \<Rightarrow> string" where
  "fold_name (a # b # c # s) =
     (if [a, b, c] = [CHR 0xE2, CHR 0x84, CHR 0xAA] then CHR ''k'' # fold_name s
      else if [a, b] = [CHR 0xC5, CHR 0xBF] then CHR ''s'' # fold_name (c # s)
      else lower a # fold_name (b # c # s))"
| "fold_name [a, b] = (if [a, b] = [CHR 0xC5, CHR 0xBF] then ''s'' else [lower a, lower b])"
| "fold_name [a] = [lower a]"
| "fold_name [] = []"

definition names_field :: "string \<Rightarrow> string \<Rightarrow> bool" where
  "names_field key name \<longleftrightarrow> key = name \<or> fold_name key = fold_name name"

type_synonym obj = "(string \<times> json) list"

text \<open>
  Decoding visits the members in order: each one that names the field is stored, so the last
  one wins; \<open>null\<close> leaves the field as it is; a value of another type is an error.
\<close>

fun decode_field :: "(json \<Rightarrow> 'a option) \<Rightarrow> string \<Rightarrow> obj \<Rightarrow> 'a \<Rightarrow> goerror + 'a" where
  "decode_field d name [] a = Inr a"
| "decode_field d name ((k, j) # ms) a =
     (if \<not> names_field k name \<or> j = JNull then decode_field d name ms a
      else case d j of
          None \<Rightarrow> Inl (''json: cannot unmarshal into Go struct field '' @ name)
        | Some v \<Rightarrow> decode_field d name ms v)"

fun as_string :: "json \<Rightarrow> string option" where
  "as_string (JStr s) = Some s"
| "as_string _ = None"

fun as_bool :: "json \<Rightarrow> bool option" where
  "as_bool (JBool b) = Some b"
| "as_bool _ = None"

fun as_int :: "json \<Rightarrow> int option" where
  "as_int (JInt i) = (if min_duration \<le> i \<and> i \<le> max_duration then Some i else None)"
| "as_int _ = None"

definition str_field :: "string \<Rightarrow> obj \<Rightarrow> goerror + string" where
  "str_field name ms = decode_field as_string name ms []"

definition bool_field :: "string \<Rightarrow> obj \<Rightarrow> goerror + bool" where
  "bool_field name ms = decode_field as_bool name ms False"

definition int_field :: "string \<Rightarrow> obj \<Rightarrow> goerror + int" where
  "int_field name ms = decode_field as_int name ms 0"

text \<open>\<open>json.NewDecoder(r.Body).Decode(&req)\<close> for a struct: the members to decode from.\<close>

fun body_members :: "goerror + json \<Rightarrow> goerror + obj" where
  "body_members (Inl e) = Inl e"
| "body_members (Inr (JObj ms)) = Inr ms"
| "body_members (Inr JNull) = Inr []"
| "body_members (Inr _) = Inl ''json: cannot unmarshal into Go value of type struct''"

definition ebind :: "goerror + 'a \<Rightarrow> ('a \<Rightarrow> goerror + 'b) \<Rightarrow> goerror + 'b" where
  "ebind x f = (case x of Inl e \<Rightarrow> Inl e | Inr a \<Rightarrow> f a)"

lemma ebind_Inr [simp]: "ebind (Inr a) f = f a"
  by (simp add: ebind_def)

lemma ebind_Inl [simp]: "ebind (Inl e) f = Inl e"
  by (simp add: ebind_def)

lemma ebind_eq_Inr: "ebind x f = Inr b \<longleftrightarrow> (\<exists>a. x = Inr a \<and> f a = Inr b)"
  by (cases x) auto

section \<open>Headers and requests\<close>

type_synonym header = "string \<Rightarrow> string list"

text \<open>\<open>http.CanonicalHeaderKey\<close>: the first letter and those after a hyphen in upper case.\<close>

definition upper :: "char \<Rightarrow> char" where
  "upper c = (if 97 \<le> (of_char c :: nat) \<and> (of_char c :: nat) \<le> 122 then char_of (of_char c - (32::nat)) else c)"

fun canon_from :: "bool \<Rightarrow> string \<Rightarrow> string" where
  "canon_from up [] = []"
| "canon_from up (c # s) =
     (if up then upper c else lower c) # canon_from (c = CHR ''-'') s"

definition canonical_key :: "string \<Rightarrow> string" where
  "canonical_key k = canon_from True k"

definition header_get :: "header \<Rightarrow> string \<Rightarrow> string" where
  "header_get h k = (case h (canonical_key k) of [] \<Rightarrow> [] | v # _ \<Rightarrow> v)"

definition header_set :: "string \<Rightarrow> string \<Rightarrow> header \<Rightarrow> header" where
  "header_set k v h = h(canonical_key k := [v])"

definition header_del :: "string \<Rightarrow> header \<Rightarrow> header" where
  "header_del k h = h(canonical_key k := [])"

lemma header_get_set:
  "header_get (header_set k v h) k' = (if canonical_key k' = canonical_key k then v else header_get h k')"
  by (simp add: header_get_def header_set_def)

lemma header_get_set_same [simp]: "header_get (header_set k v h) k = v"
  by (simp add: header_get_set)

record request =
  rq_method :: string
  rq_headers :: header
  rq_query :: "string \<Rightarrow> string list"
  rq_body :: "goerror + json"
  rq_remote :: string

definition query_get :: "request \<Rightarrow> string \<Rightarrow> string" where
  "query_get r k = (case rq_query r k of [] \<Rightarrow> [] | v # _ \<Rightarrow> v)"

abbreviation get_header :: "request \<Rightarrow> string \<Rightarrow> string" where
  "get_header r k \<equiv> header_get (rq_headers r) k"

definition set_req_header :: "string \<Rightarrow> string \<Rightarrow> request \<Rightarrow> request" where
  "set_req_header k v r = r\<lparr>rq_headers := header_set k v (rq_headers r)\<rparr>"

lemma set_req_header_simps [simp]:
  "rq_method (set_req_header k v r) = rq_method r"
  "rq_query (set_req_header k v r) = rq_query r"
  "rq_body (set_req_header k v r) = rq_body r"
  "rq_remote (set_req_header k v r) = rq_remote r"
  "rq_headers (set_req_header k v r) = header_set k v (rq_headers r)"
  by (simp_all add: set_req_header_def)

section \<open>Responses\<close>

datatype chunk = BText string | BJson json

text \<open>
  A response writer: the header map the handler edits, the status once it is written, the
  header map as it was at that moment (the one sent), and the body so far.
\<close>

record response =
  rs_header :: header
  rs_status :: "nat option"
  rs_sent :: header
  rs_body :: "chunk list"

definition fresh_response :: response where
  "fresh_response = \<lparr>rs_header = (\<lambda>_. []), rs_status = None, rs_sent = (\<lambda>_. []), rs_body = []\<rparr>"

definition resp_set :: "string \<Rightarrow> string \<Rightarrow> response \<Rightarrow> response" where
  "resp_set k v w = w\<lparr>rs_header := header_set k v (rs_header w)\<rparr>"

definition write_header :: "nat \<Rightarrow> response \<Rightarrow> response" where
  "write_header code w =
     (case rs_status w of
        None \<Rightarrow> w\<lparr>rs_status := Some code, rs_sent := rs_header w\<rparr>
      | Some _ \<Rightarrow> w)"

definition write_chunk :: "chunk \<Rightarrow> response \<Rightarrow> response" where
  "write_chunk c w =
     (let w' = write_header 200 w in w'\<lparr>rs_body := rs_body w' @ [c]\<rparr>)"

text \<open>What the server does when the handler returns: an unwritten status becomes 200.\<close>

definition finish :: "response \<Rightarrow> response" where
  "finish w = write_header 200 w"

text \<open>\<open>http.Error\<close>\<close>

definition http_Error :: "string \<Rightarrow> nat \<Rightarrow> response \<Rightarrow> response" where
  "http_Error msg code w =
     write_chunk (BText (msg @ [CHR 0x0A])) (write_header code
       (resp_set ''X-Content-Type-Options'' ''nosniff''
         (resp_set ''Content-Type'' ''text/plain; charset=utf-8''
           (w\<lparr>rs_header := header_del ''Content-Length'' (rs_header w)\<rparr>))))"

lemma write_header_status [simp]:
  "rs_status (write_header c w) = Some (case rs_status w of None \<Rightarrow> c | Some d \<Rightarrow> d)"
  by (simp add: write_header_def split: option.splits)

lemma write_header_body [simp]: "rs_body (write_header c w) = rs_body w"
  by (simp add: write_header_def split: option.splits)

lemma write_header_header [simp]: "rs_header (write_header c w) = rs_header w"
  by (simp add: write_header_def split: option.splits)

lemma write_header_sent:
  "rs_sent (write_header c w) = (if rs_status w = None then rs_header w else rs_sent w)"
  by (simp add: write_header_def split: option.splits)

lemma write_header_twice [simp]: "write_header d (write_header c w) = write_header c w"
  by (simp add: write_header_def split: option.splits)

lemma write_chunk_simps [simp]:
  "rs_status (write_chunk c w) = Some (case rs_status w of None \<Rightarrow> 200 | Some d \<Rightarrow> d)"
  "rs_body (write_chunk c w) = rs_body w @ [c]"
  "rs_header (write_chunk c w) = rs_header w"
  by (simp_all add: write_chunk_def Let_def)

lemma write_chunk_sent:
  "rs_sent (write_chunk c w) = (if rs_status w = None then rs_header w else rs_sent w)"
  by (simp add: write_chunk_def Let_def write_header_sent)

lemma resp_set_simps [simp]:
  "rs_status (resp_set k v w) = rs_status w"
  "rs_sent (resp_set k v w) = rs_sent w"
  "rs_body (resp_set k v w) = rs_body w"
  "rs_header (resp_set k v w) = header_set k v (rs_header w)"
  by (simp_all add: resp_set_def)

lemma fresh_response_simps [simp]:
  "rs_status fresh_response = None" "rs_body fresh_response = []"
  "rs_header fresh_response = (\<lambda>_. [])" "rs_sent fresh_response = (\<lambda>_. [])"
  by (simp_all add: fresh_response_def)

lemma http_Error_status [simp]: "rs_status w = None \<Longrightarrow> rs_status (http_Error m c w) = Some c"
  by (simp add: http_Error_def)

section \<open>Handlers and middleware\<close>

type_synonym 's handler = "request \<Rightarrow> 's \<Rightarrow> response \<Rightarrow> 's \<times> response"

text \<open>
  A guard is a middleware that either runs the handler it wraps, on a request and a state it
  has prepared, or answers itself without running it. It decides from the request and the
  state alone.
\<close>

locale guard =
  fixes mw :: "'s handler \<Rightarrow> 's handler"
    and admits :: "request \<Rightarrow> 's \<Rightarrow> bool"
    and pass :: "request \<Rightarrow> 's \<Rightarrow> request"
    and adv :: "request \<Rightarrow> 's \<Rightarrow> 's"
    and refuse :: "request \<Rightarrow> 's \<Rightarrow> response \<Rightarrow> response"
  assumes admitted: "admits r s \<Longrightarrow> mw h r s w = h (pass r s) (adv r s) w"
    and refused: "\<not> admits r s \<Longrightarrow> mw h r s w = (adv r s, refuse r s w)"
begin

lemma handler_irrelevant: "\<not> admits r s \<Longrightarrow> mw h r s w = mw h' r s w"
  by (simp add: refused)

lemma outcome:
  "mw h r s w = (if admits r s then h (pass r s) (adv r s) w else (adv r s, refuse r s w))"
  by (simp add: admitted refused)

lemma keeps:
  assumes "P (adv r s)" "\<And>r' s' w'. P s' \<Longrightarrow> P (fst (h r' s' w'))"
  shows "P (fst (mw h r s w))"
  using assms by (simp add: outcome)

lemma same_handlers:
  assumes "\<And>r' s' w'. h r' s' w' = h' r' s' w'"
  shows "mw h r s w = mw h' r s w"
  using assms by (simp add: outcome)

end

text \<open>Two guards, one inside the other, are a guard.\<close>

locale guard_chain =
  outer: guard mw1 admits1 pass1 adv1 refuse1 + inner: guard mw2 admits2 pass2 adv2 refuse2
  for mw1 :: "'s handler \<Rightarrow> 's handler" and admits1 pass1 adv1 refuse1
    and mw2 :: "'s handler \<Rightarrow> 's handler" and admits2 pass2 adv2 refuse2
begin

sublocale both: guard
  "\<lambda>h. mw1 (mw2 h)"
  "\<lambda>r s. admits1 r s \<and> admits2 (pass1 r s) (adv1 r s)"
  "\<lambda>r s. pass2 (pass1 r s) (adv1 r s)"
  "\<lambda>r s. if admits1 r s then adv2 (pass1 r s) (adv1 r s) else adv1 r s"
  "\<lambda>r s. if admits1 r s then refuse2 (pass1 r s) (adv1 r s) else refuse1 r s"
  by unfold_locales (auto simp: outer.outcome inner.outcome)

end

end
