(* ===== verification/RateLimit.thy ===== *)
theory RateLimit
  imports Http
begin

text \<open>
  \<open>internal/ratelimit\<close>: the per-client request limiter, its cleanup loop and its
  middleware. The specification it is shown to implement counts, for each client, the
  requests since the last pause longer than the window.
\<close>

section \<open>State and operations\<close>

record visitor =
  v_count :: int64
  v_lastSeen :: time

record limiter =
  lm_visitors :: "string \<rightharpoonup> visitor"
  lm_limit :: int64
  lm_window :: duration

definition New :: "int64 \<Rightarrow> duration \<Rightarrow> limiter" where
  "New limit window = \<lparr>lm_visitors = Map.empty, lm_limit = limit, lm_window = window\<rparr>"

text \<open>
  The body of the cleanup loop runs under the lock: one visitor after the other, in the order
  the map iteration yields them, each with its own reading of the clock.
\<close>

definition sweep_visitor :: "string \<times> time \<Rightarrow> limiter \<Rightarrow> limiter" where
  "sweep_visitor x l =
     (case lm_visitors l (fst x) of
        None \<Rightarrow> l
      | Some v \<Rightarrow>
          if lm_window l < time_sub (snd x) (v_lastSeen v)
          then l\<lparr>lm_visitors := map_delete (fst x) (lm_visitors l)\<rparr>
          else l)"

definition sweep :: "(string \<times> time) list \<Rightarrow> limiter \<Rightarrow> limiter" where
  "sweep readings l = fold sweep_visitor readings l"

text \<open>
  \<open>Allow\<close> reads the clock twice: \<open>t1\<close> in \<open>time.Since(v.lastSeen)\<close>, \<open>t2\<close> for the new
  \<open>lastSeen\<close>.
\<close>

definition Allow :: "time \<Rightarrow> time \<Rightarrow> string \<Rightarrow> limiter \<Rightarrow> bool \<times> limiter" where
  "Allow t1 t2 ip l =
     (let reset = (True, l\<lparr>lm_visitors := (lm_visitors l)(ip \<mapsto> \<lparr>v_count = 1, v_lastSeen = t2\<rparr>)\<rparr>)
      in case lm_visitors l ip of
           None \<Rightarrow> reset
         | Some v \<Rightarrow>
             if lm_window l < time_sub t1 (v_lastSeen v) then reset
             else let v' = v\<lparr>v_lastSeen := t2, v_count := v_count v + 1\<rparr>
                  in (sint (v_count v') \<le> sint (lm_limit l),
                      l\<lparr>lm_visitors := (lm_visitors l)(ip \<mapsto> v')\<rparr>))"

definition client_key :: "request \<Rightarrow> string" where
  "client_key r =
     (let fwd = get_header r ''X-Forwarded-For'' in if fwd \<noteq> [] then fwd else rq_remote r)"

definition too_many :: "response \<Rightarrow> response" where
  "too_many w =
     write_chunk (BText ''{\"error\":\"rate limit excedido, intenta en 60 segundos\"}'')
       (write_header 429 (resp_set ''Retry-After'' ''60''
         (resp_set ''Content-Type'' ''application/json'' w)))"

text \<open>
  The middleware of the limiter that lives at \<open>get\<close>/\<open>put\<close> in the state of the handlers.
\<close>

definition Middleware ::
    "('s \<Rightarrow> limiter) \<Rightarrow> (limiter \<Rightarrow> 's \<Rightarrow> 's) \<Rightarrow> time \<Rightarrow> time \<Rightarrow> 's handler \<Rightarrow> 's handler" where
  "Middleware get put t1 t2 next r s w =
     (let (ok, l') = Allow t1 t2 (client_key r) (get s)
      in if \<not> ok then (put l' s, too_many w) else next r (put l' s) w)"

interpretation rl: guard
  "Middleware get put t1 t2"
  "\<lambda>r s. fst (Allow t1 t2 (client_key r) (get s))"
  "\<lambda>r s. r"
  "\<lambda>r s. put (snd (Allow t1 t2 (client_key r) (get s))) s"
  "\<lambda>r s. too_many"
  for get :: "'s \<Rightarrow> limiter" and put :: "limiter \<Rightarrow> 's \<Rightarrow> 's" and t1 t2
  by unfold_locales (simp_all add: Middleware_def case_prod_unfold)

section \<open>Frame facts\<close>

lemma Allow_config [simp, frame_simps]:
  "lm_limit (snd (Allow t1 t2 ip l)) = lm_limit l"
  "lm_window (snd (Allow t1 t2 ip l)) = lm_window l"
  by (simp_all add: Allow_def Let_def split: option.splits)

lemma Allow_other [frame_simps]:
  "ip \<noteq> ip' \<Longrightarrow> lm_visitors (snd (Allow t1 t2 ip l)) ip' = lm_visitors l ip'"
  by (simp add: Allow_def Let_def split: option.splits)

lemma sweep_visitor_config [simp, frame_simps]:
  "lm_limit (sweep_visitor x l) = lm_limit l"
  "lm_window (sweep_visitor x l) = lm_window l"
  by (simp_all add: sweep_visitor_def split: option.splits)

lemma sweep_config [simp, frame_simps]:
  "lm_limit (sweep xs l) = lm_limit l" "lm_window (sweep xs l) = lm_window l"
  unfolding sweep_def by (induction xs arbitrary: l) simp_all

section \<open>Events and the burst specification\<close>

text \<open>The two things that happen to a limiter.\<close>

datatype lm_event = Request string time time | Sweep "(string \<times> time) list"

fun lm_step :: "lm_event \<Rightarrow> limiter \<Rightarrow> bool option \<times> limiter" where
  "lm_step (Request ip t1 t2) l = (Some (fst (Allow t1 t2 ip l)), snd (Allow t1 t2 ip l))"
| "lm_step (Sweep readings) l = (None, sweep readings l)"

text \<open>
  The requests of one client, the latest first: how many of them belong to the burst of the
  latest one. A pause longer than the window starts a new burst.
\<close>

fun burst :: "duration \<Rightarrow> (time \<times> time) list \<Rightarrow> nat" where
  "burst win [] = 0"
| "burst win [x] = 1"
| "burst win (x # y # zs) =
     (if win < time_sub (fst x) (snd y) then 1 else Suc (burst win (y # zs)))"

text \<open>
  The abstract limiter remembers every request of every client and admits one if it is the
  first of its burst or its burst is within the limit; cleaning up does nothing. It also keeps
  the time and the number of requests so far, for the precondition of a step.
\<close>

record burst_spec =
  bs_hist :: "string \<Rightarrow> (time \<times> time) list"
  bs_now :: time
  bs_seen :: nat

definition bs_init :: "time \<Rightarrow> burst_spec" where
  "bs_init t = \<lparr>bs_hist = (\<lambda>_. []), bs_now = t, bs_seen = 0\<rparr>"

definition within :: "int64 \<Rightarrow> nat \<Rightarrow> bool" where
  "within limit b \<longleftrightarrow> b = 1 \<or> int b \<le> sint limit"

fun bs_step :: "int64 \<Rightarrow> duration \<Rightarrow> lm_event \<Rightarrow> burst_spec \<Rightarrow> bool option \<times> burst_spec" where
  "bs_step limit win (Request ip t1 t2) a =
     (let h = (t1, t2) # bs_hist a ip
      in (Some (within limit (burst win h)),
          a\<lparr>bs_hist := (bs_hist a)(ip := h), bs_now := t2, bs_seen := Suc (bs_seen a)\<rparr>))"
| "bs_step limit win (Sweep readings) a =
     (None, a\<lparr>bs_now := last (bs_now a # map snd readings)\<rparr>)"

fun event_ok :: "burst_spec \<Rightarrow> lm_event \<Rightarrow> bool" where
  "event_ok a (Request ip t1 t2) \<longleftrightarrow> bs_now a \<le> t1 \<and> t1 \<le> t2 \<and> Suc (bs_seen a) < 2 ^ 63"
| "event_ok a (Sweep readings) \<longleftrightarrow> sorted (bs_now a # map snd readings)"

text \<open>A trace in the order of a monotone clock.\<close>

fun ordered :: "time \<Rightarrow> lm_event list \<Rightarrow> bool" where
  "ordered t [] = True"
| "ordered t (Request ip t1 t2 # es) = (t \<le> t1 \<and> t1 \<le> t2 \<and> ordered t2 es)"
| "ordered t (Sweep readings # es) =
     (sorted (t # map snd readings) \<and> ordered (last (t # map snd readings)) es)"

lemma ordered_valid:
  "ordered (bs_now a) es \<Longrightarrow> bs_seen a + length es < 2 ^ 63 \<Longrightarrow>
     valid_run event_ok (bs_step limit win) es a"
proof (induction es arbitrary: a)
  case Nil
  then show ?case by simp
next
  case (Cons e es)
  then show ?case by (cases e) (simp_all add: Let_def)
qed

lemma sorted_last_ge: "sorted (t # ts) \<Longrightarrow> (t::time) \<le> last (t # ts)"
  by (cases ts rule: rev_cases) (auto simp: sorted_append)

lemma ordered_earlier: "ordered t es \<Longrightarrow> t' \<le> t \<Longrightarrow> ordered t' es"
proof (induction es arbitrary: t t')
  case Nil
  then show ?case by simp
next
  case (Cons e es)
  show ?case
  proof (cases e)
    case (Request ip t1 t2)
    with Cons.prems show ?thesis by auto
  next
    case (Sweep rs)
    show ?thesis
    proof (cases "rs = []")
      case True
      with Cons.prems Sweep Cons.IH show ?thesis by auto
    next
      case False
      with Cons.prems Sweep show ?thesis by (auto simp: last_map)
    qed
  qed
qed

section \<open>The limiter implements the burst specification\<close>

text \<open>
  A visitor in the map carries the time of its client's latest request and the size of the
  current burst. A client without a visitor has made no request, or its latest one is older
  than the window, so that its next request starts a burst anyway: this is why the cleanup
  loses nothing.
\<close>

fun visitor_rel :: "duration \<Rightarrow> time \<Rightarrow> visitor option \<Rightarrow> (time \<times> time) list \<Rightarrow> bool" where
  "visitor_rel win now None h \<longleftrightarrow> h = [] \<or> win < time_sub now (snd (hd h))"
| "visitor_rel win now (Some v) h \<longleftrightarrow>
     h \<noteq> [] \<and> v_lastSeen v = snd (hd h) \<and> v_count v = of_nat (burst win h)"

definition lm_rel :: "int64 \<Rightarrow> duration \<Rightarrow> limiter \<Rightarrow> burst_spec \<Rightarrow> bool" where
  "lm_rel limit win l a \<longleftrightarrow>
     lm_limit l = limit \<and> lm_window l = win
     \<and> (\<forall>ip. visitor_rel win (bs_now a) (lm_visitors l ip) (bs_hist a ip)
            \<and> length (bs_hist a ip) \<le> bs_seen a)"

lemma burst_le_length: "burst win h \<le> length h"
  by (induction win h rule: burst.induct) auto

lemma burst_Cons:
  "burst win (x # h) = (if h = [] \<or> win < time_sub (fst x) (snd (hd h)) then 1 else Suc (burst win h))"
  by (cases h) auto

lemma burst_pos: "h \<noteq> [] \<Longrightarrow> 1 \<le> burst win h"
  by (cases h) (auto simp: burst_Cons)

lemma sint_of_small_nat: "n < 2 ^ 63 \<Longrightarrow> sint (of_nat n :: int64) = int n"
proof -
  assume "n < 2 ^ 63"
  then have "int n < 2 ^ 63" using of_nat_less_iff [where 'a = int, of n "2 ^ 63"] by simp
  then show ?thesis
    by (simp add: signed_of_nat signed_take_bit_int_eq_self)
qed

lemma visitor_rel_later:
  assumes "visitor_rel win now v h" "now \<le> now'"
  shows "visitor_rel win now' v h"
  using assms time_sub_mono [of now now' "snd (hd h)"] by (cases v) auto

lemma Allow_visitor_rel:
  assumes rel: "visitor_rel (lm_window l) now (lm_visitors l ip) h"
    and t: "now \<le> t1" and len: "Suc (length h) < 2 ^ 63"
  shows "visitor_rel (lm_window l) t2 (lm_visitors (snd (Allow t1 t2 ip l)) ip) ((t1, t2) # h)"
    and "fst (Allow t1 t2 ip l) = within (lm_limit l) (burst (lm_window l) ((t1, t2) # h))"
proof -
  have rel1: "visitor_rel (lm_window l) t1 (lm_visitors l ip) h"
    by (rule visitor_rel_later [OF rel t])
  have "visitor_rel (lm_window l) t2 (lm_visitors (snd (Allow t1 t2 ip l)) ip) ((t1, t2) # h)
    \<and> fst (Allow t1 t2 ip l) = within (lm_limit l) (burst (lm_window l) ((t1, t2) # h))"
  proof (cases "h = [] \<or> lm_window l < time_sub t1 (snd (hd h))")
    case True
    with rel1 show ?thesis
      by (cases "lm_visitors l ip") (auto simp: Allow_def Let_def burst_Cons within_def)
  next
    case False
    with rel1 obtain v where v: "lm_visitors l ip = Some v"
      by (cases "lm_visitors l ip") auto
    have "burst (lm_window l) ((t1, t2) # h) < 2 ^ 63"
      using burst_le_length [of "lm_window l" "(t1, t2) # h"] len by simp
    then have "sint (of_nat (burst (lm_window l) ((t1, t2) # h)) :: int64) =
        int (burst (lm_window l) ((t1, t2) # h))"
      by (rule sint_of_small_nat)
    moreover have "burst (lm_window l) h \<noteq> 0"
      using False burst_pos [of h "lm_window l"] by simp
    ultimately show ?thesis
      using rel1 v False
      by (auto simp: Allow_def Let_def burst_Cons within_def add.commute)
  qed
  then show "visitor_rel (lm_window l) t2 (lm_visitors (snd (Allow t1 t2 ip l)) ip) ((t1, t2) # h)"
    and "fst (Allow t1 t2 ip l) = within (lm_limit l) (burst (lm_window l) ((t1, t2) # h))"
    by simp_all
qed

lemma sweep_visitor_rel:
  assumes "visitor_rel (lm_window l) (snd x) (lm_visitors l ip) h"
  shows "visitor_rel (lm_window l) (snd x) (lm_visitors (sweep_visitor x l) ip) h"
proof (cases "ip = fst x")
  case True
  with assms show ?thesis
    by (cases "lm_visitors l ip") (auto simp: sweep_visitor_def)
next
  case False
  with assms show ?thesis
    by (auto simp: sweep_visitor_def split: option.splits)
qed

lemma sweep_rel:
  assumes "sorted (now # map snd xs)" "visitor_rel (lm_window l) now (lm_visitors l ip) h"
  shows "visitor_rel (lm_window l) (last (now # map snd xs)) (lm_visitors (sweep xs l) ip) h"
  using assms
proof (induction xs arbitrary: now l)
  case Nil
  then show ?case by (simp add: sweep_def)
next
  case (Cons x xs)
  have "now \<le> snd x" and s: "sorted (snd x # map snd xs)"
    using Cons.prems(1) by auto
  then have "visitor_rel (lm_window l) (snd x) (lm_visitors (sweep_visitor x l) ip) h"
    using sweep_visitor_rel visitor_rel_later [OF Cons.prems(2)] by blast
  with Cons.IH [OF s, of "sweep_visitor x l"] show ?case
    by (simp add: sweep_def)
qed

lemma lm_rel_init: "lm_rel limit win (New limit win) (bs_init t)"
  by (simp add: lm_rel_def New_def bs_init_def)

lemma lm_rel_now_le:
  assumes "lm_rel limit win l a" "bs_now a \<le> t"
  shows "lm_rel limit win l (a\<lparr>bs_now := t\<rparr>)"
  using assms visitor_rel_later by (fastforce simp: lm_rel_def)

lemma lm_rel_short:
  assumes "lm_rel limit win l a" "event_ok a (Request ip t1 t2)"
  shows "Suc (length (bs_hist a ip)) < 2 ^ 63"
proof -
  have "length (bs_hist a ip) \<le> bs_seen a" using assms(1) by (simp add: lm_rel_def)
  with assms(2) show ?thesis by simp
qed

interpretation lm: refinement lm_step event_ok "bs_step limit win" "lm_rel limit win"
  for limit win
proof unfold_locales
  fix l a e
  assume rel: "lm_rel limit win l a" and ok: "event_ok a e"
  show "fst (lm_step e l) = fst (bs_step limit win e a)"
  proof (cases e)
    case (Request ip t1 t2)
    moreover have "Suc (length (bs_hist a ip)) < 2 ^ 63"
      using lm_rel_short [OF rel, of ip t1 t2] ok Request by blast
    ultimately show ?thesis
      using rel ok Allow_visitor_rel(2) [of l "bs_now a" ip "bs_hist a ip" t1 t2]
      by (simp add: lm_rel_def Let_def)
  qed simp
  show "lm_rel limit win (snd (lm_step e l)) (snd (bs_step limit win e a))"
  proof (cases e)
    case (Request ip t1 t2)
    have "Suc (length (bs_hist a ip)) < 2 ^ 63"
      using lm_rel_short [OF rel, of ip t1 t2] ok Request by blast
    then have "visitor_rel win t2 (lm_visitors (snd (Allow t1 t2 ip l)) ip) ((t1, t2) # bs_hist a ip)"
      using rel ok Request Allow_visitor_rel(1) [of l "bs_now a" ip "bs_hist a ip" t1 t2]
      by (simp add: lm_rel_def)
    moreover have "visitor_rel win t2 (lm_visitors l k) (bs_hist a k)" for k
      by (rule visitor_rel_later [of _ "bs_now a"]) (use rel ok Request in \<open>simp_all add: lm_rel_def\<close>)
    ultimately show ?thesis
      using rel Request by (auto simp: lm_rel_def Let_def Allow_other le_SucI)
  next
    case (Sweep xs)
    with rel ok show ?thesis
      using sweep_rel [of "bs_now a" xs l] by (simp add: lm_rel_def del: last.simps)
  qed
qed

section \<open>What clients see\<close>

lemma bs_init_simps [simp]: "bs_now (bs_init t) = t" "bs_seen (bs_init t) = 0"
  "bs_hist (bs_init t) ip = []"
  by (simp_all add: bs_init_def)

lemma limiter_run_out:
  assumes "ordered t0 es" "length es < 2 ^ 63"
  shows "fst (run lm_step es (New limit win)) = fst (run (bs_step limit win) es (bs_init t0))"
  using assms by (intro lm.run_out lm_rel_init ordered_valid) simp_all

text \<open>C8: Refinement of the limiter. On every sequence of requests and cleanups in the order
  of a monotone clock, the limiter answers each request as the specification does: admitted if
  it is the first of its burst or its burst is within the limit.\<close>

theorem limiter_implements_bursts:
  assumes "ordered t0 es" "length es < 2 ^ 63"
  shows "fst (run lm_step es (New limit win)) = fst (run (bs_step limit win) es (bs_init t0))"
  using assms by (rule limiter_run_out)

theorem limiter_implements_bursts_witness:
  "let es = [Request ''a'' 1 2, Request ''a'' 3 4, Request ''b'' 4 4, Request ''a'' 5 6,
             Sweep [(''a'', 7), (''b'', 20)], Request ''b'' 21 21, Request ''a'' 22 22]
   in ordered 0 es
      \<and> fst (run lm_step es (New 2 10)) = fst (run (bs_step 2 10) es (bs_init 0))
      \<and> fst (run lm_step es (New 2 10)) =
          [Some True, Some True, Some True, Some False, None, Some True, Some True]"
proof -
  let ?es = "[Request ''a'' 1 2, Request ''a'' 3 4, Request ''b'' 4 4, Request ''a'' 5 6,
             Sweep [(''a'', 7), (''b'', 20)], Request ''b'' 21 21, Request ''a'' 22 22]"
  have o: "ordered 0 ?es" by simp
  have "fst (run lm_step ?es (New 2 10)) = fst (run (bs_step 2 10) ?es (bs_init 0))"
    by (rule limiter_implements_bursts [OF o]) simp
  moreover have "fst (run (bs_step 2 10) ?es (bs_init 0)) =
      [Some True, Some True, Some True, Some False, None, Some True, Some True]"
    by (simp add: within_def Let_def duration_bounds)
  ultimately show ?thesis using o unfolding Let_def by simp
qed

text \<open>The requests of one client.\<close>

fun is_for :: "string \<Rightarrow> lm_event \<Rightarrow> bool" where
  "is_for ip (Request k t1 t2) = (k = ip)"
| "is_for ip (Sweep readings) = False"

lemma bs_run_own:
  "bs_hist a ip = bs_hist b ip \<Longrightarrow>
     map snd (filter (\<lambda>x. is_for ip (fst x)) (zip es (fst (run (bs_step limit win) es a)))) =
     fst (run (bs_step limit win) (filter (is_for ip) es) b)"
proof (induction es arbitrary: a b)
  case Nil
  then show ?case by simp
next
  case (Cons e es)
  show ?case
  proof (cases e)
    case (Request k t1 t2)
    with Cons.prems show ?thesis
      by (cases "k = ip") (simp_all add: Let_def Cons.IH)
  next
    case (Sweep rs)
    with Cons.prems show ?thesis by (simp add: Cons.IH)
  qed
qed

lemma ordered_filter: "ordered t es \<Longrightarrow> ordered t (filter P es)"
proof (induction es arbitrary: t)
  case Nil
  then show ?case by simp
next
  case (Cons e es)
  show ?case
  proof (cases e)
    case (Request ip t1 t2)
    with Cons show ?thesis by (auto intro: ordered_earlier)
  next
    case (Sweep rs)
    with Cons.prems have "t \<le> last (t # map snd rs)" by (intro sorted_last_ge) simp
    with Sweep Cons show ?thesis by (auto intro: ordered_earlier simp del: last.simps)
  qed
qed

text \<open>C9: Isolation of clients. The answers one client gets are those it would get from a
  limiter that sees its requests alone: neither other clients nor the cleanup loop change
  them.\<close>

theorem limiter_isolates_clients:
  assumes "ordered t0 es" "length es < 2 ^ 63"
  shows "map snd (filter (\<lambda>x. is_for ip (fst x)) (zip es (fst (run lm_step es (New limit win))))) =
    fst (run lm_step (filter (is_for ip) es) (New limit win))"
proof -
  have "length (filter (is_for ip) es) < 2 ^ 63"
    using assms(2) length_filter_le [of "is_for ip" es] by linarith
  then show ?thesis
    using limiter_run_out [OF assms] limiter_run_out [OF ordered_filter [OF assms(1)]]
      bs_run_own [of "bs_init t0" ip "bs_init t0"]
    by metis
qed

theorem limiter_isolates_clients_witness:
  "let es = [Request ''a'' 1 2, Request ''b'' 3 4, Sweep [(''b'', 30), (''a'', 31)], Request ''a'' 32 32]
   in ordered 0 es
      \<and> map snd (filter (\<lambda>x. is_for ''a'' (fst x)) (zip es (fst (run lm_step es (New 1 100))))) =
        fst (run lm_step (filter (is_for ''a'') es) (New 1 100))
      \<and> fst (run lm_step (filter (is_for ''a'') es) (New 1 100)) = [Some True, Some False]"
proof -
  let ?es = "[Request ''a'' 1 2, Request ''b'' 3 4, Sweep [(''b'', 30), (''a'', 31)], Request ''a'' 32 32]"
  have o: "ordered 0 ?es" by simp
  have "map snd (filter (\<lambda>x. is_for ''a'' (fst x)) (zip ?es (fst (run lm_step ?es (New 1 100))))) =
      fst (run lm_step (filter (is_for ''a'') ?es) (New 1 100))"
    by (rule limiter_isolates_clients [OF o]) simp
  moreover have "fst (run lm_step (filter (is_for ''a'') ?es) (New 1 100)) = [Some True, Some False]"
    by (simp add: Allow_def New_def Let_def duration_bounds)
  ultimately show ?thesis using o unfolding Let_def by simp
qed

text \<open>A run of requests of one client in which no pause is longer than the window.\<close>

definition requests :: "string \<Rightarrow> (time \<times> time) list \<Rightarrow> lm_event list" where
  "requests ip ts = map (\<lambda>(t1, t2). Request ip t1 t2) ts"

fun chained :: "duration \<Rightarrow> (time \<times> time) list \<Rightarrow> bool" where
  "chained win (x # y # zs) \<longleftrightarrow> time_sub (fst y) (snd x) \<le> win \<and> chained win (y # zs)"
| "chained win _ \<longleftrightarrow> True"

lemma requests_simps [simp]:
  "requests ip [] = []"
  "requests ip (x # ts) = Request ip (fst x) (snd x) # requests ip ts"
  "length (requests ip ts) = length ts"
  by (simp_all add: requests_def case_prod_unfold)

lemma bs_run_chained:
  assumes "chained win (x # ts)" "bs_hist a ip \<noteq> []" "hd (bs_hist a ip) = x"
  shows "fst (run (bs_step limit win) (requests ip ts) a) =
    map (\<lambda>k. Some (within limit (burst win (bs_hist a ip) + k))) [1 ..< Suc (length ts)]"
  using assms
proof (induction ts arbitrary: a x)
  case Nil
  then show ?case by simp
next
  case (Cons y ts)
  let ?b = "snd (bs_step limit win (Request ip (fst y) (snd y)) a)"
  have h: "bs_hist ?b ip = y # bs_hist a ip"
    by (simp add: Let_def)
  have b: "burst win (y # bs_hist a ip) = Suc (burst win (bs_hist a ip))"
    using Cons.prems by (auto simp: burst_Cons)
  have "fst (run (bs_step limit win) (requests ip ts) ?b) =
      map (\<lambda>k. Some (within limit (burst win (y # bs_hist a ip) + k))) [1 ..< Suc (length ts)]"
    using Cons.IH [of y ?b] Cons.prems(1) h by simp
  also have "\<dots> = map (\<lambda>k. Some (within limit (burst win (bs_hist a ip) + k))) [2 ..< Suc (Suc (length ts))]"
    unfolding b map_Suc_upt [symmetric] numeral_2_eq_2 One_nat_def by simp
  finally show ?case
    using b by (simp add: Let_def upt_conv_Cons [of "Suc 0"] numeral_2_eq_2 del: upt_Suc)
qed

lemma count_within:
  "length (filter (\<lambda>o'. o' = Some True) (map (\<lambda>k. Some (within limit k)) [1 ..< Suc n])) =
     min n (max 1 (nat (sint limit)))"
proof (induction n)
  case 0
  then show ?case by simp
next
  case (Suc n)
  have "within limit (Suc n) \<longleftrightarrow> Suc n \<le> max 1 (nat (sint limit))"
    by (auto simp: within_def)
  with Suc show ?case by (auto simp: min_def)
qed

text \<open>Bound on a burst. Of a client's requests that follow one another without a pause
  longer than the window, exactly the first \<open>limit\<close> are admitted (one, if the limit is
  not positive), however long the run lasts: every refused request prolongs the burst.\<close>

theorem burst_admissions:
  assumes "chained win ts" "ordered t0 (requests ip ts)" "length ts < 2 ^ 63"
  shows "length (filter (\<lambda>o'. o' = Some True) (fst (run lm_step (requests ip ts) (New limit win)))) =
    min (length ts) (max 1 (nat (sint limit)))"
proof (cases ts)
  case Nil
  then show ?thesis by simp
next
  case (Cons x xs)
  let ?a = "snd (bs_step limit win (Request ip (fst x) (snd x)) (bs_init t0))"
  have "bs_hist ?a ip = [x]" by (simp add: Let_def)
  then have "fst (run (bs_step limit win) (requests ip xs) ?a) =
      map (\<lambda>k. Some (within limit (1 + k))) [1 ..< Suc (length xs)]"
    using bs_run_chained [of win x xs ?a ip limit] assms(1) Cons by simp
  also have "\<dots> = map (\<lambda>k. Some (within limit k)) [2 ..< Suc (Suc (length xs))]"
    unfolding map_Suc_upt [symmetric] numeral_2_eq_2 One_nat_def by simp
  finally have "fst (run (bs_step limit win) (requests ip ts) (bs_init t0)) =
      map (\<lambda>k. Some (within limit k)) [1 ..< Suc (length ts)]"
    using Cons by (simp add: Let_def upt_conv_Cons [of "Suc 0"] numeral_2_eq_2 del: upt_Suc)
  moreover have "fst (run lm_step (requests ip ts) (New limit win)) =
      fst (run (bs_step limit win) (requests ip ts) (bs_init t0))"
    using assms(2,3) by (intro limiter_run_out) simp_all
  ultimately show ?thesis
    using count_within [of limit "length ts"] by simp
qed

text \<open>
  The login limiter (10 per minute) on a client that sends one request every 50 seconds: two
  of its twelve requests are refused although no minute holds more than two of them.
\<close>

theorem burst_admissions_witness:
  "let ts = map (\<lambda>k. (50 * second * int k, 50 * second * int k)) [0 ..< 12]
   in chained minute ts \<and> ordered 0 (requests ''c'' ts)
      \<and> length (filter (\<lambda>o'. o' = Some True) (fst (run lm_step (requests ''c'' ts) (New 10 minute)))) = 10"
proof -
  let ?ts = "map (\<lambda>k. (50 * second * int k, 50 * second * int k)) [0 ..< 12]"
  have c: "chained minute ?ts"
    by (simp add: upt_rec time_units duration_bounds)
  have o: "ordered 0 (requests ''c'' ?ts)"
    by (simp add: upt_rec time_units)
  have "length (filter (\<lambda>o'. o' = Some True) (fst (run lm_step (requests ''c'' ?ts) (New 10 minute)))) =
      min (length ?ts) (max 1 (nat (sint (10 :: int64))))"
    by (rule burst_admissions [OF c o]) simp
  with c o show ?thesis unfolding Let_def by simp
qed

lemma fresh_key_admitted:
  "lm_visitors l ip = None \<Longrightarrow> fst (Allow t1 t2 ip l)"
  by (simp add: Allow_def Let_def)

lemma fresh_keys_admitted:
  assumes "distinct (map (\<lambda>x. client_key (fst x)) rs)"
    and "\<And>x. x \<in> set rs \<Longrightarrow> lm_visitors l (client_key (fst x)) = None"
  shows "fst (run lm_step (map (\<lambda>(r, t1, t2). Request (client_key r) t1 t2) rs) l) =
    map (\<lambda>_. Some True) rs"
  using assms
proof (induction rs arbitrary: l)
  case Nil
  then show ?case by simp
next
  case (Cons x rs)
  obtain r t1 t2 where x: "x = (r, t1, t2)" by (cases x) auto
  have "lm_visitors (snd (Allow t1 t2 (client_key r) l)) (client_key (fst y)) = None"
    if "y \<in> set rs" for y
    using Cons.prems that x by (subst Allow_other) (auto simp: image_iff)
  moreover have "fst (Allow t1 t2 (client_key r) l)"
    using Cons.prems(2) [of x] x by (simp add: fresh_key_admitted)
  ultimately show ?case
    using Cons x by simp
qed

text \<open>The key is the client's to choose. Requests with pairwise different keys are all
  admitted by a new limiter, whatever its limit: the key is the \<open>X-Forwarded-For\<close> header of
  the request if it has one, and otherwise the peer address with its port.\<close>

theorem distinct_keys_never_limited:
  assumes "distinct (map (\<lambda>x. client_key (fst x)) rs)"
  shows "fst (run lm_step (map (\<lambda>(r, t1, t2). Request (client_key r) t1 t2) rs) (New limit win)) =
    map (\<lambda>_. Some True) rs"
  using assms by (rule fresh_keys_admitted) (simp add: New_def)

definition forwarded_request :: "string \<Rightarrow> request" where
  "forwarded_request fwd =
     \<lparr>rq_method = ''POST'', rq_headers = header_set ''X-Forwarded-For'' fwd (\<lambda>_. []),
      rq_query = (\<lambda>_. []), rq_body = Inr JNull, rq_remote = ''10.0.0.9:41000''\<rparr>"

theorem distinct_keys_never_limited_witness:
  "let rs = map (\<lambda>f. (forwarded_request f, 0, 0)) [''1'', ''2'', ''3'']
   in distinct (map (\<lambda>x. client_key (fst x)) rs)
      \<and> fst (run lm_step (map (\<lambda>(r, t1, t2). Request (client_key r) t1 t2) rs) (New 1 minute)) =
        [Some True, Some True, Some True]"
proof -
  let ?rs = "map (\<lambda>f. (forwarded_request f, 0::time, 0::time)) [''1'', ''2'', ''3'']"
  have d: "distinct (map (\<lambda>x. client_key (fst x)) ?rs)"
    by (simp add: forwarded_request_def client_key_def)
  show ?thesis
    using d distinct_keys_never_limited [OF d, of 1 minute] unfolding Let_def by simp
qed

end
