(* ===== verification/Auth.thy ===== *)
theory Auth
  imports Http
begin

text \<open>
  \<open>internal/auth\<close>: the in-memory user store, the JWT manager and its HTTP middleware. The
  password hash (bcrypt) and the token library are not part of the repository: they are the
  arguments \<open>B\<close> and \<open>J\<close>, and what the code relies on is \<open>bcrypt_ok\<close> and \<open>jwt_ok\<close>.
\<close>

section \<open>Users\<close>

record user =
  u_ID :: string
  u_Username :: string
  u_PasswordHash :: string
  u_Role :: string

type_synonym user_store = "string \<rightharpoonup> user"

text \<open>
  \<open>GenerateFromPassword\<close> draws a salt, here an argument; \<open>CompareHashAndPassword\<close> gives
  an error or none.
\<close>

record bcrypt =
  bc_Generate :: "string \<Rightarrow> string \<Rightarrow> goerror + string"
  bc_Compare :: "string \<Rightarrow> string \<Rightarrow> goerror option"

definition NewUserStore :: user_store where
  "NewUserStore = Map.empty"

definition AddUser ::
    "bcrypt \<Rightarrow> string \<Rightarrow> string \<Rightarrow> string \<Rightarrow> string \<Rightarrow> string \<Rightarrow> user_store \<Rightarrow> goerror option \<times> user_store" where
  "AddUser B salt i username password role us =
     (case bc_Generate B salt password of
        Inl e \<Rightarrow> (Some e, us)
      | Inr h \<Rightarrow>
          (None, us(username \<mapsto>
             \<lparr>u_ID = i, u_Username = username, u_PasswordHash = h, u_Role = role\<rparr>)))"

definition Authenticate :: "bcrypt \<Rightarrow> string \<Rightarrow> string \<Rightarrow> user_store \<Rightarrow> goerror + user" where
  "Authenticate B username password us =
     (case us username of
        None \<Rightarrow> Inl ''usuario no encontrado''
      | Some u \<Rightarrow>
          (case bc_Compare B (u_PasswordHash u) password of
             Some _ \<Rightarrow> Inl (''contrase'' @ [CHR 0xC3, CHR 0xB1] @ ''a incorrecta'')
           | None \<Rightarrow> Inr u))"

definition GetUser :: "string \<Rightarrow> user_store \<Rightarrow> user option" where
  "GetUser username us = us username"

text \<open>
  bcrypt reads at most 72 bytes and repeats a password with a zero byte after it, so it tells
  passwords apart that are no longer than that and have no zero byte: the hash of one is
  accepted for it and for no other.
\<close>

definition bcrypt_pw :: "string \<Rightarrow> bool" where
  "bcrypt_pw pw \<longleftrightarrow> length pw \<le> 72 \<and> CHR 0x00 \<notin> set pw"

definition bcrypt_ok :: "bcrypt \<Rightarrow> bool" where
  "bcrypt_ok B \<longleftrightarrow> (\<forall>salt pw h. bc_Generate B salt pw = Inr h \<longrightarrow> bcrypt_pw pw \<longrightarrow>
     (\<forall>pw'. bcrypt_pw pw' \<longrightarrow> (bc_Compare B h pw' = None \<longleftrightarrow> pw' = pw)))"

section \<open>Tokens\<close>

record claims =
  cl_UserID :: string
  cl_Username :: string
  cl_Role :: string
  cl_ExpiresAt :: "time option"
  cl_IssuedAt :: "time option"
  cl_Issuer :: string

datatype signing_method = HMAC string | OtherMethod string

text \<open>
  \<open>jw_NumericDate\<close> is the precision a date claim keeps, \<open>jw_Method\<close> the method a token
  names in its header, \<open>jw_Sign\<close> makes a token of a signing method and a key, \<open>jw_Parse\<close> verifies one at an instant, with the key that the key
  function of the caller picks for the token's method; it gives the claims and whether the
  token is valid.
\<close>

record jwt =
  jw_NumericDate :: "time \<Rightarrow> time"
  jw_Method :: "string \<Rightarrow> signing_method option"
  jw_Sign :: "signing_method \<Rightarrow> claims \<Rightarrow> string \<Rightarrow> goerror + string"
  jw_Parse :: "time \<Rightarrow> string \<Rightarrow> (signing_method \<Rightarrow> goerror + string) \<Rightarrow> goerror + (claims \<times> bool)"

record auth_manager =
  am_secret :: string
  am_expiryHours :: int

definition NewAuthManager :: "string \<Rightarrow> int \<Rightarrow> auth_manager" where
  "NewAuthManager secret expiryHours = \<lparr>am_secret = secret, am_expiryHours = expiryHours\<rparr>"

text \<open>The clock is read once for the expiry and once for the date of issue.\<close>

definition token_claims ::
    "jwt \<Rightarrow> time \<Rightarrow> time \<Rightarrow> string \<Rightarrow> string \<Rightarrow> string \<Rightarrow> auth_manager \<Rightarrow> claims" where
  "token_claims J t1 t2 userID username role m =
     \<lparr>cl_UserID = userID, cl_Username = username, cl_Role = role,
      cl_ExpiresAt = Some (jw_NumericDate J (t1 + wrap64 (am_expiryHours m * hour))),
      cl_IssuedAt = Some (jw_NumericDate J t2), cl_Issuer = ''snapah-pow''\<rparr>"

definition GenerateToken ::
    "jwt \<Rightarrow> time \<Rightarrow> time \<Rightarrow> string \<Rightarrow> string \<Rightarrow> string \<Rightarrow> auth_manager \<Rightarrow> goerror + string" where
  "GenerateToken J t1 t2 userID username role m =
     jw_Sign J (HMAC ''HS256'') (token_claims J t1 t2 userID username role m) (am_secret m)"

fun keyfunc :: "string \<Rightarrow> signing_method \<Rightarrow> goerror + string" where
  "keyfunc secret (HMAC alg) = Inr secret"
| "keyfunc secret (OtherMethod alg) =
     Inl (''m'' @ [CHR 0xC3, CHR 0xA9] @ ''todo de firma inesperado: '' @ alg)"

definition Validate :: "jwt \<Rightarrow> time \<Rightarrow> string \<Rightarrow> auth_manager \<Rightarrow> goerror + claims" where
  "Validate J now tok m =
     (case jw_Parse J now tok (keyfunc (am_secret m)) of
        Inl e \<Rightarrow> Inl e
      | Inr (c, valid) \<Rightarrow>
          if \<not> valid then Inl (''token inv'' @ [CHR 0xC3, CHR 0xA1] @ ''lido'') else Inr c)"

section \<open>Middleware\<close>

definition extractToken :: "request \<Rightarrow> string" where
  "extractToken r =
     (let bearer = get_header r ''Authorization''
      in if hasPrefix bearer ''Bearer '' then trimPrefix bearer ''Bearer '' else query_get r ''token'')"

definition role_allowed :: "string list \<Rightarrow> string \<Rightarrow> bool" where
  "role_allowed roles role \<longleftrightarrow> roles = [] \<or> List.member roles role"

definition identify :: "string \<Rightarrow> string \<Rightarrow> string \<Rightarrow> request \<Rightarrow> request" where
  "identify userID username role r =
     set_req_header ''X-User-Role'' role
       (set_req_header ''X-Username'' username
         (set_req_header ''X-User-ID'' userID r))"

definition AuthMiddleware :: "jwt \<Rightarrow> time \<Rightarrow> auth_manager \<Rightarrow> string list \<Rightarrow> 's handler \<Rightarrow> 's handler" where
  "AuthMiddleware J now m roles next r s w =
     (let tok = extractToken r
      in if tok = [] then (s, http_Error ''{\"error\":\"token requerido\"}'' 401 w)
         else case Validate J now tok m of
             Inl _ \<Rightarrow>
               (s, http_Error (''{\"error\":\"token inv'' @ [CHR 0xC3, CHR 0xA1] @ ''lido\"}'') 401 w)
           | Inr c \<Rightarrow>
               if \<not> role_allowed roles (cl_Role c)
               then (s, http_Error ''{\"error\":\"permisos insuficientes\"}'' 403 w)
               else next (identify (cl_UserID c) (cl_Username c) (cl_Role c) r) s w)"

section \<open>What the code relies on\<close>

definition ascii :: "string \<Rightarrow> bool" where
  "ascii s \<longleftrightarrow> list_all (\<lambda>c. (of_char c :: nat) < 128) s"

text \<open>
  Dates keep whole seconds. A token made by \<open>jw_Sign\<close> is verified, with its claims, by a
  key function that gives the same key for its method, until it expires, and not after that
  (non-ASCII text need not survive the encoding). A token is verified only if the key function
  accepts the method it names, and only before its expiry.
\<close>

definition date_law :: "jwt \<Rightarrow> bool" where
  "date_law J \<longleftrightarrow> (\<forall>t. jw_NumericDate J t \<le> t \<and> t < jw_NumericDate J t + second)"

definition sign_law :: "jwt \<Rightarrow> bool" where
  "sign_law J \<longleftrightarrow> (\<forall>mt c k tok kf now. jw_Sign J mt c k = Inr tok \<longrightarrow> kf mt = Inr k \<longrightarrow>
     ascii (cl_UserID c) \<longrightarrow> ascii (cl_Username c) \<longrightarrow> ascii (cl_Role c) \<longrightarrow> ascii (cl_Issuer c) \<longrightarrow>
       tok \<noteq> [] \<and>
       (case cl_ExpiresAt c of
          None \<Rightarrow> jw_Parse J now tok kf = Inr (c, True)
        | Some e \<Rightarrow> if now < e then jw_Parse J now tok kf = Inr (c, True)
                    else isl (jw_Parse J now tok kf)))"

definition parse_law :: "jwt \<Rightarrow> bool" where
  "parse_law J \<longleftrightarrow> (\<forall>now tok kf c. jw_Parse J now tok kf = Inr (c, True) \<longrightarrow>
     (\<exists>mt k. jw_Method J tok = Some mt \<and> kf mt = Inr k)
     \<and> (\<forall>e. cl_ExpiresAt c = Some e \<longrightarrow> now < e))"

definition jwt_ok :: "jwt \<Rightarrow> bool" where
  "jwt_ok J \<longleftrightarrow> date_law J \<and> sign_law J \<and> parse_law J"

lemma jwt_okD:
  assumes "jwt_ok J"
  shows "jw_NumericDate J t \<le> t" "t < jw_NumericDate J t + second"
    and "jw_Parse J now tok kf = Inr (c, True) \<Longrightarrow>
      \<exists>mt k. jw_Method J tok = Some mt \<and> kf mt = Inr k"
    and "jw_Parse J now tok kf = Inr (c, True) \<Longrightarrow> cl_ExpiresAt c = Some e \<Longrightarrow> now < e"
  using assms unfolding jwt_ok_def date_law_def parse_law_def by blast+

lemma jwt_ok_parse:
  assumes "jwt_ok J" "jw_Sign J mt c k = Inr tok" "kf mt = Inr k"
    and "ascii (cl_UserID c)" "ascii (cl_Username c)" "ascii (cl_Role c)" "ascii (cl_Issuer c)"
    and "cl_ExpiresAt c = Some e"
  shows "tok \<noteq> []" "now < e \<Longrightarrow> jw_Parse J now tok kf = Inr (c, True)"
    "e \<le> now \<Longrightarrow> isl (jw_Parse J now tok kf)"
proof -
  from assms(1) have "sign_law J" by (simp add: jwt_ok_def)
  note law = this [unfolded sign_law_def, rule_format, of mt c k tok kf now, OF assms(2-7)]
  show "tok \<noteq> []" "now < e \<Longrightarrow> jw_Parse J now tok kf = Inr (c, True)"
    "e \<le> now \<Longrightarrow> isl (jw_Parse J now tok kf)"
    using law assms(8) by (simp_all split: if_splits)
qed

text \<open>Instances for concrete runs: a hash and a signer for one set of claims.\<close>

definition ref_bcrypt :: bcrypt where
  "ref_bcrypt =
     \<lparr>bc_Generate = (\<lambda>salt pw. if 72 < length pw
         then Inl ''bcrypt: password length exceeds 72 bytes'' else Inr (CHR ''$'' # pw)),
      bc_Compare = (\<lambda>h pw. if h = CHR ''$'' # pw then None
         else Some ''crypto/bcrypt: hashedPassword is not the hash of the given password'')\<rparr>"

definition ref_jwt :: "claims \<Rightarrow> string \<Rightarrow> jwt" where
  "ref_jwt c0 k0 =
     \<lparr>jw_NumericDate = (\<lambda>t. t div second * second),
      jw_Method = (\<lambda>tok. if tok = ''h.c.s'' then Some (HMAC ''HS256'')
                         else if tok = ''n.c.'' then Some (OtherMethod ''none'') else None),
      jw_Sign = (\<lambda>mt c k. if mt = HMAC ''HS256'' \<and> c = c0 \<and> k = k0 then Inr ''h.c.s'' else Inl ''key''),
      jw_Parse = (\<lambda>now tok kf. if tok \<noteq> ''h.c.s'' then Inl ''token is malformed''
         else case kf (HMAC ''HS256'') of
             Inl e \<Rightarrow> Inl e
           | Inr k \<Rightarrow> if k \<noteq> k0 then Inl ''signature is invalid''
                     else if (case cl_ExpiresAt c0 of None \<Rightarrow> False | Some e \<Rightarrow> e \<le> now)
                     then Inl ''token is expired'' else Inr (c0, True))\<rparr>"

lemma ref_bcrypt_ok: "bcrypt_ok ref_bcrypt"
  by (auto simp: bcrypt_ok_def ref_bcrypt_def split: if_splits)

lemma ref_jwt_ok: "jwt_ok (ref_jwt c0 k0)"
proof -
  have date: "t div second * second \<le> t \<and> t < t div second * second + second" for t
  proof -
    have "t div second * second + t mod second = t" by (rule div_mult_mod_eq)
    moreover have "0 \<le> t mod second" "t mod second < second" by (simp_all add: second_def)
    ultimately show ?thesis by linarith
  qed
  show ?thesis
    unfolding jwt_ok_def date_law_def sign_law_def parse_law_def ref_jwt_def
    using date by (auto split: if_splits sum.splits option.splits)
qed

section \<open>The middleware is a guard\<close>

text \<open>The decision of the middleware: a status and a message to refuse with, or the claims.\<close>

definition authorize :: "jwt \<Rightarrow> time \<Rightarrow> auth_manager \<Rightarrow> string list \<Rightarrow> request \<Rightarrow> (nat \<times> string) + claims" where
  "authorize J now m roles r =
     (if extractToken r = [] then Inl (401, ''{\"error\":\"token requerido\"}'')
      else case Validate J now (extractToken r) m of
          Inl _ \<Rightarrow> Inl (401, ''{\"error\":\"token inv'' @ [CHR 0xC3, CHR 0xA1] @ ''lido\"}'')
        | Inr c \<Rightarrow>
            if role_allowed roles (cl_Role c) then Inr c
            else Inl (403, ''{\"error\":\"permisos insuficientes\"}''))"

definition identify_as :: "claims \<Rightarrow> request \<Rightarrow> request" where
  "identify_as c r = identify (cl_UserID c) (cl_Username c) (cl_Role c) r"

interpretation am: guard
  "AuthMiddleware J now m roles"
  "\<lambda>r s. \<not> isl (authorize J now m roles r)"
  "\<lambda>r s. identify_as (projr (authorize J now m roles r)) r"
  "\<lambda>r s. s"
  "\<lambda>r s. http_Error (snd (projl (authorize J now m roles r))) (fst (projl (authorize J now m roles r)))"
  for J now m roles
  by unfold_locales
    (auto simp: AuthMiddleware_def authorize_def identify_as_def Let_def split: sum.splits if_splits)

lemma identify_headers [simp]:
  "get_header (identify u n ro r) ''X-User-Role'' = ro"
  "get_header (identify u n ro r) ''X-User-ID'' = u"
  "get_header (identify u n ro r) ''X-Username'' = n"
  by (simp_all add: identify_def header_get_set canonical_key_def upper_def lower_def)

lemma identify_frame [simp]:
  "rq_method (identify u n ro r) = rq_method r"
  "rq_query (identify u n ro r) = rq_query r"
  "rq_body (identify u n ro r) = rq_body r"
  "rq_remote (identify u n ro r) = rq_remote r"
  by (simp_all add: identify_def)

lemma extract_bearer: "get_header r ''Authorization'' = ''Bearer '' @ tok \<Longrightarrow> extractToken r = tok"
  by (simp only: extractToken_def Let_def hasPrefix_append trimPrefix_append if_True)

section \<open>What the middleware guarantees\<close>

lemma role_key_canon:
  "canonical_key ''X-User-ID'' = ''X-User-Id''"
  "canonical_key ''X-Username'' = ''X-Username''"
  "canonical_key ''X-User-Role'' = ''X-User-Role''"
  "canonical_key ''Authorization'' = ''Authorization''"
  "canonical_key ''X-API-Key'' = ''X-Api-Key''"
  by (simp_all add: canonical_key_def upper_def lower_def char_of_eq_iff)

definition identity_header :: "string \<Rightarrow> bool" where
  "identity_header k \<longleftrightarrow> k = ''X-User-ID'' \<or> k = ''X-Username'' \<or> k = ''X-User-Role''"

lemma identify_overrides:
  "identity_header k \<Longrightarrow> identify u n ro (set_req_header k v r) = identify u n ro r"
  by (auto simp: identity_header_def identify_def set_req_header_def header_set_def role_key_canon
      fun_upd_twist)

lemma extractToken_ignores:
  "identity_header k \<Longrightarrow> extractToken (set_req_header k v r) = extractToken r"
  by (auto simp: identity_header_def extractToken_def header_get_set role_key_canon query_get_def Let_def)

lemma authorize_ignores:
  "identity_header k \<Longrightarrow> authorize J now m roles (set_req_header k v r) = authorize J now m roles r"
  by (simp add: authorize_def extractToken_ignores)

text \<open>Identity cannot be forged. Whatever a client writes into the headers that carry the
  caller's id, name and role, the middleware and the handler behind it behave as if it had
  not: the handler sees the identity of the token only.\<close>

theorem identity_headers_not_forgeable:
  assumes "identity_header k"
  shows "AuthMiddleware J now m roles next (set_req_header k v r) s w =
    AuthMiddleware J now m roles next r s w"
  using assms
  by (simp add: am.outcome authorize_ignores identify_as_def identify_overrides)

definition plain_request :: "string \<Rightarrow> header \<Rightarrow> request" where
  "plain_request meth h =
     \<lparr>rq_method = meth, rq_headers = h, rq_query = (\<lambda>_. []), rq_body = Inr (JObj []),
      rq_remote = ''10.0.0.5:50000''\<rparr>"

definition role_echo :: "unit handler" where
  "role_echo r s w = (s, write_chunk (BText (get_header r ''X-User-Role'')) w)"

definition viewer_claims :: claims where
  "viewer_claims = \<lparr>cl_UserID = ''u7'', cl_Username = ''eve'', cl_Role = ''viewer'',
     cl_ExpiresAt = Some (100 * second), cl_IssuedAt = Some 0, cl_Issuer = ''snapah-pow''\<rparr>"

definition bearer_request :: request where
  "bearer_request =
     plain_request ''GET'' (header_set ''Authorization'' ''Bearer h.c.s'' (\<lambda>_. []))"

theorem identity_headers_not_forgeable_witness:
  "rs_body (snd (AuthMiddleware (ref_jwt viewer_claims ''k'') 0 (NewAuthManager ''k'' 24) [] role_echo
       (set_req_header ''X-User-Role'' ''admin'' bearer_request) () fresh_response)) =
     [BText ''viewer'']"
proof -
  have "identity_header ''X-User-Role''" by (simp add: identity_header_def)
  note forged = identity_headers_not_forgeable [OF this,
      of "ref_jwt viewer_claims ''k''" 0 "NewAuthManager ''k'' 24" "[]" role_echo "''admin''" bearer_request]
  have "extractToken bearer_request = ''h.c.s''"
    by (simp add: extractToken_def bearer_request_def plain_request_def hasPrefix_def trimPrefix_def)
  then have "AuthMiddleware (ref_jwt viewer_claims ''k'') 0 (NewAuthManager ''k'' 24) [] role_echo
      bearer_request () fresh_response =
      role_echo (identify ''u7'' ''eve'' ''viewer'' bearer_request) () fresh_response"
    by (simp add: AuthMiddleware_def Validate_def ref_jwt_def NewAuthManager_def viewer_claims_def
        role_allowed_def second_def)
  then show ?thesis
    unfolding forged by (simp add: role_echo_def)
qed

text \<open>No token, no handler. A request without a token, or with one that does not
  validate, is answered with status 401; the handler does not run and no state changes.\<close>

theorem no_valid_token_no_handler:
  assumes "extractToken r = [] \<or> isl (Validate J now (extractToken r) m)"
    and "rs_status w = None"
  shows "\<exists>w'. AuthMiddleware J now m roles next r s w = (s, w') \<and> rs_status w' = Some 401
      \<and> (\<forall>next'. AuthMiddleware J now m roles next' r s w = (s, w'))"
proof -
  have "isl (authorize J now m roles r)" "fst (projl (authorize J now m roles r)) = 401"
    using assms(1) by (auto simp: authorize_def split: sum.splits)
  then show ?thesis
    using assms(2) by (simp add: am.refused)
qed

theorem no_valid_token_no_handler_witness:
  "\<exists>w'. AuthMiddleware (ref_jwt viewer_claims ''k'') 0 (NewAuthManager ''other'' 24) [] role_echo
      bearer_request () fresh_response = ((), w') \<and> rs_status w' = Some 401"
proof -
  have "extractToken bearer_request = ''h.c.s''"
    by (simp add: extractToken_def bearer_request_def plain_request_def hasPrefix_def trimPrefix_def)
  then have "isl (Validate (ref_jwt viewer_claims ''k'') 0 (extractToken bearer_request)
      (NewAuthManager ''other'' 24))"
    by (simp add: Validate_def ref_jwt_def NewAuthManager_def)
  then show ?thesis
    using no_valid_token_no_handler [of bearer_request "ref_jwt viewer_claims ''k''" 0
        "NewAuthManager ''other'' 24" fresh_response "[]" role_echo "()"]
    by auto
qed

text \<open>The signing method is pinned. A token that names any method outside the HMAC
  family (such as \<open>none\<close>) never validates, whatever its signature part is.\<close>

theorem foreign_method_rejected:
  assumes "jwt_ok J" "jw_Method J tok = Some (OtherMethod alg)"
  shows "isl (Validate J now tok m)"
proof (cases "jw_Parse J now tok (keyfunc (am_secret m))")
  case (Inl e)
  then show ?thesis by (simp add: Validate_def)
next
  case (Inr cv)
  obtain c v where cv: "cv = (c, v)" by (cases cv) auto
  have "\<not> v"
    using jwt_okD(3) [OF assms(1), of now tok "keyfunc (am_secret m)" c] assms(2) Inr cv by auto
  with Inr cv show ?thesis by (simp add: Validate_def)
qed

theorem foreign_method_rejected_witness:
  "jwt_ok (ref_jwt viewer_claims ''k'')
     \<and> isl (Validate (ref_jwt viewer_claims ''k'') 0 ''n.c.'' (NewAuthManager ''k'' 24))"
  using ref_jwt_ok foreign_method_rejected [OF ref_jwt_ok, of viewer_claims "''k''" "''n.c.''" "''none''"]
  by (simp add: ref_jwt_def)

section \<open>Users and sessions\<close>

text \<open>Passwords. After a user has been added, of the passwords of at most 72 bytes and
  without a zero byte exactly the one it was added with authenticates it, with the stored identity and role, and every other user authenticates as
  before.\<close>

theorem authenticate_after_add:
  assumes "bcrypt_ok B" "AddUser B salt i name pw role us = (None, us')"
    and "bcrypt_pw pw" "bcrypt_pw pw'"
  shows "(Authenticate B name pw' us' = Inr u \<longleftrightarrow>
      pw' = pw \<and> u_ID u = i \<and> u_Username u = name \<and> u_Role u = role \<and> us' name = Some u)
    \<and> (other \<noteq> name \<longrightarrow> Authenticate B other pw' us' = Authenticate B other pw' us)"
proof -
  obtain h where h: "bc_Generate B salt pw = Inr h"
    and us': "us' = us(name \<mapsto> \<lparr>u_ID = i, u_Username = name, u_PasswordHash = h, u_Role = role\<rparr>)"
    using assms(2) by (auto simp: AddUser_def split: sum.splits)
  have "bc_Compare B h pw' = None \<longleftrightarrow> pw' = pw"
    using assms(1,3,4) h by (auto simp: bcrypt_ok_def)
  then show ?thesis
    unfolding us' by (auto simp: Authenticate_def split: option.splits)
qed

theorem authenticate_after_add_witness:
  "\<exists>us' u. AddUser ref_bcrypt ''salt'' ''u1'' ''admin'' ''admin123'' ''admin'' NewUserStore = (None, us')
     \<and> Authenticate ref_bcrypt ''admin'' ''admin123'' us' = Inr u \<and> u_Role u = ''admin''
     \<and> isl (Authenticate ref_bcrypt ''admin'' ''wrong'' us')"
proof -
  define us' where "us' = snd (AddUser ref_bcrypt ''salt'' ''u1'' ''admin'' ''admin123'' ''admin'' NewUserStore)"
  have add: "AddUser ref_bcrypt ''salt'' ''u1'' ''admin'' ''admin123'' ''admin'' NewUserStore = (None, us')"
    by (simp add: us'_def AddUser_def ref_bcrypt_def)
  obtain u where u: "us' ''admin'' = Some u" "u_ID u = ''u1''" "u_Username u = ''admin''" "u_Role u = ''admin''"
    by (simp add: us'_def AddUser_def ref_bcrypt_def)
  have pw: "bcrypt_pw ''admin123''" "bcrypt_pw ''wrong''" by (simp_all add: bcrypt_pw_def)
  note iff = authenticate_after_add [OF ref_bcrypt_ok add pw(1), THEN conjunct1]
  have "Authenticate ref_bcrypt ''admin'' ''admin123'' us' = Inr u"
    using u by (subst iff [OF pw(1)]) simp
  moreover have "Authenticate ref_bcrypt ''admin'' ''wrong'' us' \<noteq> Inr v" for v
    by (subst iff [OF pw(2)]) simp
  then have "isl (Authenticate ref_bcrypt ''admin'' ''wrong'' us')"
    by (cases "Authenticate ref_bcrypt ''admin'' ''wrong'' us'") auto
  ultimately show ?thesis using add u by blast
qed

lemma expiry_exact:
  "0 \<le> h \<Longrightarrow> h \<le> 2562047 \<Longrightarrow> wrap64 (h * hour) = h * hour"
  by (rule wrap64_id) (simp_all add: duration_bounds time_units)

lemma token_validity:
  assumes "jwt_ok J" "GenerateToken J t1 t2 uid name role m = Inr tok"
    and "ascii uid" "ascii name" "ascii role"
    and e: "e = jw_NumericDate J (t1 + wrap64 (am_expiryHours m * hour))"
  shows "tok \<noteq> []" "now < e \<Longrightarrow> Validate J now tok m = Inr (token_claims J t1 t2 uid name role m)"
    "e \<le> now \<Longrightarrow> isl (Validate J now tok m)"
proof -
  let ?c = "token_claims J t1 t2 uid name role m"
  have s: "jw_Sign J (HMAC ''HS256'') ?c (am_secret m) = Inr tok"
    using assms(2) by (simp add: GenerateToken_def)
  have exp: "cl_ExpiresAt ?c = Some e" by (simp add: token_claims_def e)
  note p = jwt_ok_parse [OF assms(1) s, of "keyfunc (am_secret m)", OF _ _ _ _ _ exp]
  have a: "ascii (cl_UserID ?c)" "ascii (cl_Username ?c)" "ascii (cl_Role ?c)" "ascii (cl_Issuer ?c)"
    using assms(3,4,5) by (simp_all add: token_claims_def ascii_def)
  show "tok \<noteq> []" using p(1) a by simp
  show "now < e \<Longrightarrow> Validate J now tok m = Inr ?c"
    using p(2) a by (simp add: Validate_def)
  show "e \<le> now \<Longrightarrow> isl (Validate J now tok m)"
    using p(3) [of now] a by (auto simp: Validate_def split: sum.splits)
qed

text \<open>C36: Lifetime of a token. A manager with an expiry of \<open>h\<close> hours issues tokens that
  validate until \<open>h\<close> hours after their issue, give or take the second that dates are
  truncated to, and never after that; \<open>h\<close> up to 2562047 is within the range of a
  \<open>time.Duration\<close>.\<close>

theorem token_lifetime:
  assumes "jwt_ok J" "GenerateToken J t1 t2 uid name role m = Inr tok"
    and "ascii uid" "ascii name" "ascii role" "0 \<le> am_expiryHours m" "am_expiryHours m \<le> 2562047"
  shows "(now \<le> t1 + am_expiryHours m * hour - second \<longrightarrow>
      Validate J now tok m = Inr (token_claims J t1 t2 uid name role m))
    \<and> (t1 + am_expiryHours m * hour \<le> now \<longrightarrow> isl (Validate J now tok m))"
proof -
  note w = expiry_exact [OF assms(6,7)]
  note v = token_validity [OF assms(1-5) refl]
  have "jw_NumericDate J (t1 + am_expiryHours m * hour) \<le> t1 + am_expiryHours m * hour"
    "t1 + am_expiryHours m * hour < jw_NumericDate J (t1 + am_expiryHours m * hour) + second"
    using jwt_okD(1,2) [OF assms(1)] by blast+
  then show ?thesis using v(2,3) unfolding w by auto
qed

definition admin_claims :: claims where
  "admin_claims = \<lparr>cl_UserID = ''u1'', cl_Username = ''admin'', cl_Role = ''admin'',
     cl_ExpiresAt = Some (24 * hour), cl_IssuedAt = Some 0, cl_Issuer = ''snapah-pow''\<rparr>"

lemma admin_token:
  "GenerateToken (ref_jwt admin_claims ''k'') 0 0 ''u1'' ''admin'' ''admin'' (NewAuthManager ''k'' 24) =
     Inr ''h.c.s''"
  "token_claims (ref_jwt admin_claims ''k'') 0 0 ''u1'' ''admin'' ''admin'' (NewAuthManager ''k'' 24) =
     admin_claims"
  by (simp_all add: GenerateToken_def token_claims_def ref_jwt_def admin_claims_def NewAuthManager_def
      duration_bounds time_units)

theorem token_lifetime_witness:
  "Validate (ref_jwt admin_claims ''k'') (23 * hour) ''h.c.s'' (NewAuthManager ''k'' 24) = Inr admin_claims
   \<and> isl (Validate (ref_jwt admin_claims ''k'') (24 * hour) ''h.c.s'' (NewAuthManager ''k'' 24))"
proof -
  have a: "ascii ''u1''" "ascii ''admin''" by (simp_all add: ascii_def)
  have e: "0 \<le> am_expiryHours (NewAuthManager ''k'' 24)" "am_expiryHours (NewAuthManager ''k'' 24) \<le> 2562047"
    by (simp_all add: NewAuthManager_def)
  note l = token_lifetime [OF ref_jwt_ok admin_token(1) a(1) a(2) a(2) e, unfolded admin_token(2)]
  show ?thesis
    using l [of "23 * hour"] l [of "24 * hour"] by (simp add: NewAuthManager_def time_units)
qed

text \<open>Login round trip. A user added with a role logs in with its password; the token it
  gets, sent as a bearer token before it expires, runs the handler behind the middleware with
  the id, name and role the user was added with.\<close>

theorem session_roundtrip:
  assumes "jwt_ok J" "AddUser B salt i name pw role us = (None, us')"
    and "Authenticate B name pw us' = Inr u"
    and "GenerateToken J t1 t2 (u_ID u) (u_Username u) (u_Role u) m = Inr tok"
    and "ascii i" "ascii name" "ascii role"
    and "now < jw_NumericDate J (t1 + wrap64 (am_expiryHours m * hour))"
    and "get_header r ''Authorization'' = ''Bearer '' @ tok" "role_allowed roles role"
  shows "AuthMiddleware J now m roles next r s w = next (identify i name role r) s w"
proof -
  obtain h where "us' name = Some \<lparr>u_ID = i, u_Username = name, u_PasswordHash = h, u_Role = role\<rparr>"
    using assms(2) by (auto simp: AddUser_def split: sum.splits)
  then have u: "u_ID u = i" "u_Username u = name" "u_Role u = role"
    using assms(3) by (auto simp: Authenticate_def split: option.splits)
  note tok = extract_bearer [OF assms(9)]
  have "Validate J now tok m = Inr (token_claims J t1 t2 i name role m)" "tok \<noteq> []"
    using token_validity(1,2) [OF assms(1) assms(4) [unfolded u] assms(5-7) refl] assms(8) by auto
  then have "authorize J now m roles r = Inr (token_claims J t1 t2 i name role m)"
    using assms(10) by (simp add: authorize_def tok token_claims_def)
  then show ?thesis
    by (simp add: am.admitted identify_as_def token_claims_def)
qed

theorem session_roundtrip_witness:
  "\<exists>us' u. AddUser ref_bcrypt ''salt'' ''u1'' ''admin'' ''pw'' ''admin'' NewUserStore = (None, us')
     \<and> Authenticate ref_bcrypt ''admin'' ''pw'' us' = Inr u
     \<and> AuthMiddleware (ref_jwt admin_claims ''k'') 0 (NewAuthManager ''k'' 24) [] role_echo
         bearer_request () fresh_response = role_echo (identify ''u1'' ''admin'' ''admin'' bearer_request)
           () fresh_response"
proof -
  let ?u = "\<lparr>u_ID = ''u1'', u_Username = ''admin'', u_PasswordHash = ''$pw'', u_Role = ''admin''\<rparr>"
  let ?us = "NewUserStore(''admin'' \<mapsto> ?u)"
  have add: "AddUser ref_bcrypt ''salt'' ''u1'' ''admin'' ''pw'' ''admin'' NewUserStore = (None, ?us)"
    by (simp add: AddUser_def ref_bcrypt_def)
  have auth: "Authenticate ref_bcrypt ''admin'' ''pw'' ?us = Inr ?u"
    by (simp add: Authenticate_def ref_bcrypt_def)
  have tok: "GenerateToken (ref_jwt admin_claims ''k'') 0 0 (u_ID ?u) (u_Username ?u) (u_Role ?u)
      (NewAuthManager ''k'' 24) = Inr ''h.c.s''"
    using admin_token(1) by simp
  have "AuthMiddleware (ref_jwt admin_claims ''k'') 0 (NewAuthManager ''k'' 24) [] role_echo
         bearer_request () fresh_response = role_echo (identify ''u1'' ''admin'' ''admin'' bearer_request)
           () fresh_response"
    by (rule session_roundtrip [OF ref_jwt_ok add auth tok])
      (simp_all add: ascii_def NewAuthManager_def ref_jwt_def duration_bounds time_units
        bearer_request_def plain_request_def role_allowed_def)
  with add auth show ?thesis by blast
qed

end
