(* ===== verification/Storage.thy ===== *)
theory Storage
  imports GoStd
begin

text \<open>
  \<open>internal/storage\<close>: the persisted rows and the operations of the database layer. The
  object-relational mapper (gorm) and the database behind it are not part of the repository:
  they are the argument \<open>g\<close> of every operation, one record of functions per table, and what
  the code relies on is the predicate \<open>gorm_ok\<close>. A \<open>WHERE\<close> clause of the source is a
  predicate on rows, an update a function on rows, \<open>Order("c desc")\<close> the column to sort by.
  \<open>return x, f(&x)\<close> reads \<open>x\<close> after the call, as the gc compiler orders it.
\<close>

section \<open>Rows\<close>

record node =
  n_ID :: string
  n_Hostname :: string
  n_Address :: string
  n_Status :: string
  n_LastSeen :: time
  n_CreatedAt :: time
  n_UpdatedAt :: time
  n_DeletedAt :: "time option"

record snapshot =
  s_ID :: string
  s_NodeID :: string
  s_SubvolumePath :: string
  s_SnapshotPath :: string
  s_UUID :: string
  s_ParentUUID :: string
  s_IsReadOnly :: bool
  s_SizeBytes :: int
  s_Status :: string
  s_ErrorMessage :: string
  s_CreatedAt :: time
  s_ExpiresAt :: "time option"
  s_DeletedAt :: "time option"

record policy_row =
  p_ID :: string
  p_Name :: string
  p_NodeID :: string
  p_SubvolumePath :: string
  p_Schedule :: string
  p_RetentionHourly :: int
  p_RetentionDaily :: int
  p_RetentionWeekly :: int
  p_RetentionMonthly :: int
  p_ReadOnly :: bool
  p_Replicate :: bool
  p_ReplicateTarget :: string
  p_Enabled :: bool
  p_CreatedAt :: time
  p_UpdatedAt :: time
  p_DeletedAt :: "time option"

record event =
  e_ID :: string
  e_Type :: string
  e_NodeID :: string
  e_SnapshotID :: string
  e_Message :: string
  e_Severity :: string
  e_Metadata :: string
  e_CreatedAt :: time
  e_DeletedAt :: "time option"

record api_key =
  k_ID :: string
  k_Name :: string
  k_KeyHash :: string
  k_Prefix :: string
  k_Role :: string
  k_Active :: bool
  k_CreatedAt :: time
  k_ExpiresAt :: "time option"
  k_LastUsedAt :: "time option"

section \<open>The database\<close>

text \<open>
  The operations of the mapper on one table: \<open>Create\<close> and \<open>Save\<close> give back the row with
  the columns they fill in; an operation that changes the table gives its error, if any, and
  the table afterwards.
\<close>

record 'r gorm_table =
  g_Create :: "'r \<Rightarrow> 'r list \<Rightarrow> goerror option \<times> 'r \<times> 'r list"
  g_Save :: "'r \<Rightarrow> 'r list \<Rightarrow> goerror option \<times> 'r \<times> 'r list"
  g_First :: "('r \<Rightarrow> bool) \<Rightarrow> 'r list \<Rightarrow> goerror + 'r"
  g_Find :: "('r \<Rightarrow> bool) \<Rightarrow> ('r \<Rightarrow> time) \<Rightarrow> nat option \<Rightarrow> 'r list \<Rightarrow> goerror + 'r list"
  g_Update :: "('r \<Rightarrow> bool) \<Rightarrow> ('r \<Rightarrow> 'r) \<Rightarrow> 'r list \<Rightarrow> goerror option \<times> 'r list"
  g_Delete :: "('r \<Rightarrow> bool) \<Rightarrow> 'r list \<Rightarrow> goerror option \<times> 'r list"

record gorm =
  g_nodes :: "node gorm_table"
  g_snaps :: "snapshot gorm_table"
  g_policies :: "policy_row gorm_table"
  g_events :: "event gorm_table"
  g_keys :: "api_key gorm_table"

record db =
  db_nodes :: "node list"
  db_snaps :: "snapshot list"
  db_policies :: "policy_row list"
  db_events :: "event list"
  db_keys :: "api_key list"

definition empty_db :: db where
  "empty_db = \<lparr>db_nodes = [], db_snaps = [], db_policies = [], db_events = [], db_keys = []\<rparr>"

datatype dialect = Postgres string | Sqlite string

text \<open>\<open>NewDB\<close> picks the driver from the data source name.\<close>

definition choose_dialect :: "string \<Rightarrow> dialect" where
  "choose_dialect dsn =
     (if hasPrefix dsn ''postgres://'' \<or> hasPrefix dsn ''postgresql://''
      then Postgres dsn else Sqlite dsn)"

definition NewDB ::
    "(dialect \<Rightarrow> goerror + db) \<Rightarrow> (db \<Rightarrow> goerror + db) \<Rightarrow> string \<Rightarrow> goerror + db" where
  "NewDB gorm_open auto_migrate dsn =
     (case gorm_open (choose_dialect dsn) of
        Inl e \<Rightarrow> Inl (''conectar DB: '' @ e)
      | Inr d \<Rightarrow>
          (case auto_migrate d of
             Inl e \<Rightarrow> Inl (''migrar schema: '' @ e)
           | Inr d' \<Rightarrow> Inr d'))"

definition DBFromEnv :: "(string \<Rightarrow> string) \<Rightarrow> string \<Rightarrow> string" where
  "DBFromEnv getenv fallback =
     (let v = getenv ''DATABASE_URL'' in if v \<noteq> [] then v else fallback)"

definition CreateNode :: "gorm \<Rightarrow> node \<Rightarrow> db \<Rightarrow> goerror option \<times> node \<times> db" where
  "CreateNode g n d =
     (let (e, n', rows) = g_Create (g_nodes g) n (db_nodes d) in (e, n', d\<lparr>db_nodes := rows\<rparr>))"

definition GetNode :: "gorm \<Rightarrow> string \<Rightarrow> db \<Rightarrow> goerror + node" where
  "GetNode g i d = g_First (g_nodes g) (\<lambda>n. n_ID n = i) (db_nodes d)"

definition ListNodes :: "gorm \<Rightarrow> db \<Rightarrow> goerror + node list" where
  "ListNodes g d = g_Find (g_nodes g) (\<lambda>_. True) n_LastSeen None (db_nodes d)"

definition UpdateNodeStatus ::
    "gorm \<Rightarrow> time \<Rightarrow> string \<Rightarrow> string \<Rightarrow> db \<Rightarrow> goerror option \<times> db" where
  "UpdateNodeStatus g now i status d =
     (let (e, rows) = g_Update (g_nodes g) (\<lambda>n. n_ID n = i)
                        (\<lambda>n. n\<lparr>n_Status := status, n_LastSeen := now\<rparr>) (db_nodes d)
      in (e, d\<lparr>db_nodes := rows\<rparr>))"

definition CreateSnapshotRow :: "gorm \<Rightarrow> snapshot \<Rightarrow> db \<Rightarrow> goerror option \<times> snapshot \<times> db" where
  "CreateSnapshotRow g s d =
     (let (e, s', rows) = g_Create (g_snaps g) s (db_snaps d) in (e, s', d\<lparr>db_snaps := rows\<rparr>))"

definition GetSnapshot :: "gorm \<Rightarrow> string \<Rightarrow> db \<Rightarrow> goerror + snapshot" where
  "GetSnapshot g i d = g_First (g_snaps g) (\<lambda>s. s_ID s = i) (db_snaps d)"

definition ListSnapshotRows :: "gorm \<Rightarrow> string \<Rightarrow> db \<Rightarrow> goerror + snapshot list" where
  "ListSnapshotRows g nodeID d =
     g_Find (g_snaps g) (\<lambda>s. nodeID \<noteq> [] \<longrightarrow> s_NodeID s = nodeID) s_CreatedAt None (db_snaps d)"

definition DeleteSnapshotRow :: "gorm \<Rightarrow> string \<Rightarrow> db \<Rightarrow> goerror option \<times> db" where
  "DeleteSnapshotRow g i d =
     (let (e, rows) = g_Delete (g_snaps g) (\<lambda>s. s_ID s = i) (db_snaps d)
      in (e, d\<lparr>db_snaps := rows\<rparr>))"

definition CreatePolicy :: "gorm \<Rightarrow> policy_row \<Rightarrow> db \<Rightarrow> goerror option \<times> policy_row \<times> db" where
  "CreatePolicy g p d =
     (let (e, p', rows) = g_Create (g_policies g) p (db_policies d)
      in (e, p', d\<lparr>db_policies := rows\<rparr>))"

definition ListPolicyRows :: "gorm \<Rightarrow> string \<Rightarrow> db \<Rightarrow> goerror + policy_row list" where
  "ListPolicyRows g nodeID d =
     g_Find (g_policies g) (\<lambda>p. nodeID \<noteq> [] \<longrightarrow> p_NodeID p = nodeID) p_CreatedAt None (db_policies d)"

definition CreateEvent :: "gorm \<Rightarrow> event \<Rightarrow> db \<Rightarrow> goerror option \<times> db" where
  "CreateEvent g ev d =
     (let (e, _, rows) = g_Create (g_events g) ev (db_events d) in (e, d\<lparr>db_events := rows\<rparr>))"

definition ListEvents :: "gorm \<Rightarrow> nat \<Rightarrow> db \<Rightarrow> goerror + event list" where
  "ListEvents g limit d =
     g_Find (g_events g) (\<lambda>_. True) e_CreatedAt (Some limit) (db_events d)"

definition SaveAPIKey :: "gorm \<Rightarrow> api_key \<Rightarrow> db \<Rightarrow> goerror option \<times> api_key \<times> db" where
  "SaveAPIKey g k d =
     (let (e, k', rows) = g_Save (g_keys g) k (db_keys d) in (e, k', d\<lparr>db_keys := rows\<rparr>))"

definition ListAPIKeys :: "gorm \<Rightarrow> db \<Rightarrow> goerror + api_key list" where
  "ListAPIKeys g d = g_Find (g_keys g) (\<lambda>_. True) k_CreatedAt None (db_keys d)"

definition GetAPIKeyByHash :: "gorm \<Rightarrow> string \<Rightarrow> db \<Rightarrow> goerror + api_key" where
  "GetAPIKeyByHash g hash d =
     g_First (g_keys g) (\<lambda>k. k_KeyHash k = hash \<and> k_Active k) (db_keys d)"

definition RevokeAPIKey :: "gorm \<Rightarrow> string \<Rightarrow> db \<Rightarrow> goerror option \<times> db" where
  "RevokeAPIKey g i d =
     (let (e, rows) = g_Update (g_keys g) (\<lambda>k. k_ID k = i) (\<lambda>k. k\<lparr>k_Active := False\<rparr>) (db_keys d)
      in (e, d\<lparr>db_keys := rows\<rparr>))"

definition UpdateAPIKeyLastUsed :: "gorm \<Rightarrow> string \<Rightarrow> time \<Rightarrow> db \<Rightarrow> goerror option \<times> db" where
  "UpdateAPIKeyLastUsed g i t d =
     (let (e, rows) = g_Update (g_keys g) (\<lambda>k. k_ID k = i) (\<lambda>k. k\<lparr>k_LastUsedAt := Some t\<rparr>) (db_keys d)
      in (e, d\<lparr>db_keys := rows\<rparr>))"

section \<open>What the code relies on\<close>

text \<open>
  The documented behaviour of the mapper on one table. \<open>key\<close> is the primary key, \<open>live\<close>
  says that a row is not soft-deleted, and \<open>norm\<close> blanks the columns the mapper fills in by
  itself (\<open>CreatedAt\<close>, \<open>UpdatedAt\<close>). Any call may fail; one that fails changes nothing.
\<close>

definition create_law :: "('r \<Rightarrow> string) \<Rightarrow> ('r \<Rightarrow> 'r) \<Rightarrow> 'r gorm_table \<Rightarrow> bool" where
  "create_law key norm T \<longleftrightarrow> (\<forall>r rows e r' rows'. g_Create T r rows = (e, r', rows') \<longrightarrow>
     (case e of Some _ \<Rightarrow> rows' = rows
      | None \<Rightarrow> rows' = rows @ [r'] \<and> norm r' = norm r \<and> key r \<notin> key ` set rows))"

definition save_law :: "('r \<Rightarrow> string) \<Rightarrow> ('r \<Rightarrow> 'r) \<Rightarrow> 'r gorm_table \<Rightarrow> bool" where
  "save_law key norm T \<longleftrightarrow> (\<forall>r rows e r' rows'. g_Save T r rows = (e, r', rows') \<longrightarrow>
     (case e of Some _ \<Rightarrow> rows' = rows
      | None \<Rightarrow> norm r' = norm r \<and>
          rows' = (if key r \<in> key ` set rows then map (\<lambda>x. if key x = key r then r' else x) rows
                   else rows @ [r'])))"

definition first_law :: "('r \<Rightarrow> bool) \<Rightarrow> 'r gorm_table \<Rightarrow> bool" where
  "first_law live T \<longleftrightarrow>
     (\<forall>q rows r. g_First T q rows = Inr r \<longrightarrow> r \<in> set rows \<and> live r \<and> q r)"

definition find_law :: "('r \<Rightarrow> bool) \<Rightarrow> 'r gorm_table \<Rightarrow> bool" where
  "find_law live T \<longleftrightarrow> (\<forall>q f lim rows rs. g_Find T q f lim rows = Inr rs \<longrightarrow>
     (\<exists>all. mset all = mset (filter (\<lambda>r. live r \<and> q r) rows)
        \<and> sorted_wrt (\<lambda>a b. f b \<le> f a) all
        \<and> rs = (case lim of None \<Rightarrow> all | Some n \<Rightarrow> take n all)))"

definition update_law :: "('r \<Rightarrow> bool) \<Rightarrow> ('r \<Rightarrow> 'r) \<Rightarrow> 'r gorm_table \<Rightarrow> bool" where
  "update_law live norm T \<longleftrightarrow> (\<forall>q u rows e rows'. g_Update T q u rows = (e, rows') \<longrightarrow>
     (case e of Some _ \<Rightarrow> rows' = rows
      | None \<Rightarrow> list_all2 (\<lambda>r r'. if live r \<and> q r then norm r' = norm (u r) else r' = r) rows rows'))"

definition delete_law :: "('r \<Rightarrow> bool) \<Rightarrow> 'r gorm_table \<Rightarrow> bool" where
  "delete_law live T \<longleftrightarrow> (\<forall>q rows e rows'. g_Delete T q rows = (e, rows') \<longrightarrow>
     (case e of Some _ \<Rightarrow> rows' = rows
      | None \<Rightarrow> filter live rows' = filter (\<lambda>r. \<not> q r) (filter live rows)))"

definition table_ok ::
    "('r \<Rightarrow> string) \<Rightarrow> ('r \<Rightarrow> bool) \<Rightarrow> ('r \<Rightarrow> 'r) \<Rightarrow> 'r gorm_table \<Rightarrow> bool" where
  "table_ok key live norm T \<longleftrightarrow>
     create_law key norm T \<and> save_law key norm T \<and> first_law live T \<and> find_law live T
     \<and> update_law live norm T \<and> delete_law live T"

text \<open>A database that is up: every call that can succeed does.\<close>

definition table_up :: "('r \<Rightarrow> bool) \<Rightarrow> 'r gorm_table \<Rightarrow> bool" where
  "table_up live T \<longleftrightarrow>
     (\<forall>q rows. (\<exists>r \<in> set rows. live r \<and> q r) \<longrightarrow> (\<exists>r. g_First T q rows = Inr r))
     \<and> (\<forall>r rows. fst (g_Save T r rows) = None)
     \<and> (\<forall>q u rows. fst (g_Update T q u rows) = None)
     \<and> (\<forall>q f lim rows. \<exists>rs. g_Find T q f lim rows = Inr rs)
     \<and> (\<forall>q rows. fst (g_Delete T q rows) = None)"

definition node_norm :: "node \<Rightarrow> node" where
  "node_norm n = n\<lparr>n_CreatedAt := 0, n_UpdatedAt := 0\<rparr>"

definition snap_norm :: "snapshot \<Rightarrow> snapshot" where
  "snap_norm s = s\<lparr>s_CreatedAt := 0\<rparr>"

definition policy_norm :: "policy_row \<Rightarrow> policy_row" where
  "policy_norm p = p\<lparr>p_CreatedAt := 0, p_UpdatedAt := 0\<rparr>"

definition event_norm :: "event \<Rightarrow> event" where
  "event_norm e = e\<lparr>e_CreatedAt := 0\<rparr>"

definition gorm_ok :: "gorm \<Rightarrow> bool" where
  "gorm_ok g \<longleftrightarrow>
     table_ok n_ID (\<lambda>n. n_DeletedAt n = None) node_norm (g_nodes g)
     \<and> table_ok s_ID (\<lambda>s. s_DeletedAt s = None) snap_norm (g_snaps g)
     \<and> table_ok p_ID (\<lambda>p. p_DeletedAt p = None) policy_norm (g_policies g)
     \<and> table_ok e_ID (\<lambda>e. e_DeletedAt e = None) event_norm (g_events g)
     \<and> table_ok k_ID (\<lambda>_. True) (\<lambda>k. k) (g_keys g)"

text \<open>A list of rows is a mapper with this behaviour, so the hypotheses can hold.\<close>

definition ref_table :: "('r \<Rightarrow> string) \<Rightarrow> ('r \<Rightarrow> bool) \<Rightarrow> 'r gorm_table" where
  "ref_table key live =
     \<lparr>g_Create = (\<lambda>r rows. if key r \<in> key ` set rows
                   then (Some ''UNIQUE constraint failed'', r, rows) else (None, r, rows @ [r])),
      g_Save = (\<lambda>r rows. (None, r, if key r \<in> key ` set rows
                   then map (\<lambda>x. if key x = key r then r else x) rows else rows @ [r])),
      g_First = (\<lambda>q rows. case find (\<lambda>r. live r \<and> q r) rows of
                   None \<Rightarrow> Inl ''record not found'' | Some r \<Rightarrow> Inr r),
      g_Find = (\<lambda>q f lim rows.
                   let all = sort_key (\<lambda>r. - f r) (filter (\<lambda>r. live r \<and> q r) rows)
                   in Inr (case lim of None \<Rightarrow> all | Some n \<Rightarrow> take n all)),
      g_Update = (\<lambda>q u rows. (None, map (\<lambda>r. if live r \<and> q r then u r else r) rows)),
      g_Delete = (\<lambda>q rows. (None, filter (\<lambda>r. \<not> (live r \<and> q r)) rows))\<rparr>"

definition ref_gorm :: gorm where
  "ref_gorm =
     \<lparr>g_nodes = ref_table n_ID (\<lambda>n. n_DeletedAt n = None),
      g_snaps = ref_table s_ID (\<lambda>s. s_DeletedAt s = None),
      g_policies = ref_table p_ID (\<lambda>p. p_DeletedAt p = None),
      g_events = ref_table e_ID (\<lambda>e. e_DeletedAt e = None),
      g_keys = ref_table k_ID (\<lambda>_. True)\<rparr>"

lemma sort_key_desc: "sorted_wrt (\<lambda>a b. f b \<le> f a) (sort_key (\<lambda>r. - f r :: int) xs)"
proof -
  have "sorted (map (\<lambda>r. - f r) (sort_key (\<lambda>r. - f r) xs))" by (rule sorted_sort_key)
  then show ?thesis by (simp add: sorted_wrt_map)
qed

lemma ref_table_ok: "table_ok key live norm (ref_table key live)"
  unfolding table_ok_def
proof (intro conjI)
  show "create_law key norm (ref_table key live)"
    by (auto simp: create_law_def ref_table_def)
  show "save_law key norm (ref_table key live)"
    by (auto simp: save_law_def ref_table_def)
  show "first_law live (ref_table key live)"
    by (auto simp: first_law_def ref_table_def find_Some_iff split: option.splits)
  show "find_law live (ref_table key live)"
    unfolding find_law_def ref_table_def
    by (auto simp: Let_def mset_filter intro!: exI [of _ "sort_key _ _"] sort_key_desc)
  show "update_law live norm (ref_table key live)"
    by (auto simp: update_law_def ref_table_def list_all2_conv_all_nth)
  show "delete_law live (ref_table key live)"
    by (auto simp: delete_law_def ref_table_def intro!: filter_cong)
qed

lemma ref_table_up: "table_up live (ref_table key live)"
  unfolding table_up_def ref_table_def
  by (auto simp: Let_def find_None_iff split: option.splits)

lemma ref_gorm_ok: "gorm_ok ref_gorm"
  by (simp add: gorm_ok_def ref_gorm_def ref_table_ok)

section \<open>Consequences for the operations\<close>

lemma gorm_okD:
  assumes "gorm_ok g"
  shows "table_ok n_ID (\<lambda>n. n_DeletedAt n = None) node_norm (g_nodes g)"
    "table_ok s_ID (\<lambda>s. s_DeletedAt s = None) snap_norm (g_snaps g)"
    "table_ok p_ID (\<lambda>p. p_DeletedAt p = None) policy_norm (g_policies g)"
    "table_ok e_ID (\<lambda>e. e_DeletedAt e = None) event_norm (g_events g)"
    "table_ok k_ID (\<lambda>_. True) (\<lambda>k. k) (g_keys g)"
  using assms by (simp_all add: gorm_ok_def)

lemma table_first:
  "table_ok key live norm T \<Longrightarrow> g_First T q rows = Inr r \<Longrightarrow> r \<in> set rows \<and> live r \<and> q r"
  unfolding table_ok_def first_law_def by blast

lemma table_find:
  assumes "table_ok key live norm T" "g_Find T q f None rows = Inr rs"
  shows "mset rs = mset (filter (\<lambda>r. live r \<and> q r) rows)" "sorted_wrt (\<lambda>a b. f b \<le> f a) rs"
  using assms unfolding table_ok_def find_law_def by fastforce+

lemma table_find_set:
  assumes "table_ok key live norm T" "g_Find T q f None rows = Inr rs"
  shows "set rs = {r \<in> set rows. live r \<and> q r}"
  using arg_cong [OF table_find(1) [OF assms], of set_mset] by auto

lemma table_update:
  "table_ok key live norm T \<Longrightarrow> g_Update T q u rows = (None, rows') \<Longrightarrow>
     list_all2 (\<lambda>r r'. if live r \<and> q r then norm r' = norm (u r) else r' = r) rows rows'"
  unfolding table_ok_def update_law_def by fastforce

lemma table_create:
  "table_ok key live norm T \<Longrightarrow> g_Create T r rows = (None, r', rows') \<Longrightarrow>
     rows' = rows @ [r'] \<and> norm r' = norm r \<and> key r \<notin> key ` set rows"
  unfolding table_ok_def create_law_def by fastforce

lemma table_delete:
  "table_ok key live norm T \<Longrightarrow> g_Delete T q rows = (None, rows') \<Longrightarrow>
     filter live rows' = filter (\<lambda>r. \<not> q r) (filter live rows)"
  unfolding table_ok_def delete_law_def by fastforce

lemma table_failed:
  assumes "table_ok key live norm T"
  shows "g_Create T r rows = (Some e, r', rows') \<Longrightarrow> rows' = rows"
    "g_Save T r rows = (Some e, r', rows') \<Longrightarrow> rows' = rows"
    "g_Update T q u rows = (Some e, rows') \<Longrightarrow> rows' = rows"
    "g_Delete T q rows = (Some e, rows') \<Longrightarrow> rows' = rows"
  using assms
  unfolding table_ok_def create_law_def save_law_def update_law_def delete_law_def
  by fastforce+

lemmas db_op_defs =
  CreateNode_def GetNode_def ListNodes_def UpdateNodeStatus_def
  CreateSnapshotRow_def GetSnapshot_def ListSnapshotRows_def DeleteSnapshotRow_def
  CreatePolicy_def ListPolicyRows_def CreateEvent_def ListEvents_def
  SaveAPIKey_def ListAPIKeys_def GetAPIKeyByHash_def RevokeAPIKey_def UpdateAPIKeyLastUsed_def

lemma table_up_first:
  "table_up live T \<Longrightarrow> r \<in> set rows \<Longrightarrow> live r \<Longrightarrow> q r \<Longrightarrow> \<exists>r'. g_First T q rows = Inr r'"
  unfolding table_up_def by blast

lemma table_up_calls:
  "table_up live T \<Longrightarrow> fst (g_Save T r rows) = None"
  "table_up live T \<Longrightarrow> fst (g_Update T q u rows) = None"
  "table_up live T \<Longrightarrow> fst (g_Delete T q rows) = None"
  "table_up live T \<Longrightarrow> \<exists>rs. g_Find T q f lim rows = Inr rs"
  unfolding table_up_def by blast+

text \<open>Each operation writes its own table only.\<close>

lemma node_ops_frame [simp, frame_simps]:
  "db_snaps (snd (UpdateNodeStatus g now i st d)) = db_snaps d"
  "db_policies (snd (UpdateNodeStatus g now i st d)) = db_policies d"
  "db_events (snd (UpdateNodeStatus g now i st d)) = db_events d"
  "db_keys (snd (UpdateNodeStatus g now i st d)) = db_keys d"
  "db_snaps (snd (snd (CreateNode g n d))) = db_snaps d"
  "db_policies (snd (snd (CreateNode g n d))) = db_policies d"
  "db_events (snd (snd (CreateNode g n d))) = db_events d"
  "db_keys (snd (snd (CreateNode g n d))) = db_keys d"
  by (simp_all add: UpdateNodeStatus_def CreateNode_def case_prod_unfold Let_def)

lemma snap_ops_frame [simp, frame_simps]:
  "db_nodes (snd (DeleteSnapshotRow g i d)) = db_nodes d"
  "db_policies (snd (DeleteSnapshotRow g i d)) = db_policies d"
  "db_events (snd (DeleteSnapshotRow g i d)) = db_events d"
  "db_keys (snd (DeleteSnapshotRow g i d)) = db_keys d"
  "db_nodes (snd (snd (CreateSnapshotRow g s d))) = db_nodes d"
  "db_policies (snd (snd (CreateSnapshotRow g s d))) = db_policies d"
  "db_events (snd (snd (CreateSnapshotRow g s d))) = db_events d"
  "db_keys (snd (snd (CreateSnapshotRow g s d))) = db_keys d"
  by (simp_all add: DeleteSnapshotRow_def CreateSnapshotRow_def case_prod_unfold Let_def)

lemma event_ops_frame [simp, frame_simps]:
  "db_nodes (snd (CreateEvent g e d)) = db_nodes d"
  "db_snaps (snd (CreateEvent g e d)) = db_snaps d"
  "db_policies (snd (CreateEvent g e d)) = db_policies d"
  "db_keys (snd (CreateEvent g e d)) = db_keys d"
  by (simp_all add: CreateEvent_def case_prod_unfold Let_def)

lemma key_ops_frame [simp, frame_simps]:
  "db_nodes (snd (RevokeAPIKey g i d)) = db_nodes d"
  "db_snaps (snd (RevokeAPIKey g i d)) = db_snaps d"
  "db_policies (snd (RevokeAPIKey g i d)) = db_policies d"
  "db_events (snd (RevokeAPIKey g i d)) = db_events d"
  "db_nodes (snd (UpdateAPIKeyLastUsed g i t d)) = db_nodes d"
  "db_snaps (snd (UpdateAPIKeyLastUsed g i t d)) = db_snaps d"
  "db_policies (snd (UpdateAPIKeyLastUsed g i t d)) = db_policies d"
  "db_events (snd (UpdateAPIKeyLastUsed g i t d)) = db_events d"
  "db_nodes (snd (snd (SaveAPIKey g k d))) = db_nodes d"
  "db_snaps (snd (snd (SaveAPIKey g k d))) = db_snaps d"
  "db_policies (snd (snd (SaveAPIKey g k d))) = db_policies d"
  "db_events (snd (snd (SaveAPIKey g k d))) = db_events d"
  by (simp_all add: RevokeAPIKey_def UpdateAPIKeyLastUsed_def SaveAPIKey_def case_prod_unfold Let_def)

lemma policy_ops_frame [simp, frame_simps]:
  "db_nodes (snd (snd (CreatePolicy g p d))) = db_nodes d"
  "db_snaps (snd (snd (CreatePolicy g p d))) = db_snaps d"
  "db_events (snd (snd (CreatePolicy g p d))) = db_events d"
  "db_keys (snd (snd (CreatePolicy g p d))) = db_keys d"
  by (simp_all add: CreatePolicy_def case_prod_unfold Let_def)

lemma GetSnapshot_row:
  "gorm_ok g \<Longrightarrow> GetSnapshot g i d = Inr s \<Longrightarrow>
     s \<in> set (db_snaps d) \<and> s_DeletedAt s = None \<and> s_ID s = i"
  unfolding GetSnapshot_def by (rule table_first [OF gorm_okD(2)])

lemma ListNodes_set:
  "gorm_ok g \<Longrightarrow> ListNodes g d = Inr ns \<Longrightarrow> set ns = {n \<in> set (db_nodes d). n_DeletedAt n = None}"
  unfolding ListNodes_def using table_find_set [OF gorm_okD(1)] by fastforce

lemma DeleteSnapshotRow_live:
  assumes "gorm_ok g" "DeleteSnapshotRow g i d = (None, d')"
  shows "filter (\<lambda>s. s_DeletedAt s = None) (db_snaps d') =
    filter (\<lambda>s. s_ID s \<noteq> i) (filter (\<lambda>s. s_DeletedAt s = None) (db_snaps d))"
proof -
  obtain rows where r: "g_Delete (g_snaps g) (\<lambda>s. s_ID s = i) (db_snaps d) = (None, rows)"
    and d': "d' = d\<lparr>db_snaps := rows\<rparr>"
    using assms(2) by (auto simp: DeleteSnapshotRow_def split: prod.splits)
  show ?thesis using table_delete [OF gorm_okD(2) [OF assms(1)] r] d' by simp
qed

lemma DeleteSnapshotRow_failed:
  "gorm_ok g \<Longrightarrow> DeleteSnapshotRow g i d = (Some e, d') \<Longrightarrow> d' = d"
  by (auto simp: DeleteSnapshotRow_def split: prod.splits
      dest: table_failed(4) [OF gorm_okD(2)])

text \<open>A deleted snapshot is gone. Once \<open>DeleteSnapshot\<close> has succeeded for an id, a
  lookup of that id fails, and every other live snapshot is still stored.\<close>

theorem deleted_snapshot_gone:
  assumes "gorm_ok g" "DeleteSnapshotRow g i d = (None, d')"
  shows "(\<exists>e. GetSnapshot g i d' = Inl e) \<and>
    (\<forall>s \<in> set (db_snaps d). s_DeletedAt s = None \<and> s_ID s \<noteq> i \<longrightarrow> s \<in> set (db_snaps d'))"
proof
  have live: "set (filter (\<lambda>s. s_DeletedAt s = None) (db_snaps d')) =
      {s \<in> set (db_snaps d). s_DeletedAt s = None \<and> s_ID s \<noteq> i}"
    using DeleteSnapshotRow_live [OF assms] by auto
  show "\<exists>e. GetSnapshot g i d' = Inl e"
  proof (cases "GetSnapshot g i d'")
    case (Inr s)
    with GetSnapshot_row [OF assms(1) Inr] live show ?thesis by auto
  qed simp
  show "\<forall>s \<in> set (db_snaps d). s_DeletedAt s = None \<and> s_ID s \<noteq> i \<longrightarrow> s \<in> set (db_snaps d')"
    using live by auto
qed

definition new_snapshot :: "string \<Rightarrow> string \<Rightarrow> string \<Rightarrow> string \<Rightarrow> bool \<Rightarrow> snapshot" where
  "new_snapshot i nodeID subvol path ro =
     \<lparr>s_ID = i, s_NodeID = nodeID, s_SubvolumePath = subvol, s_SnapshotPath = path,
      s_UUID = [], s_ParentUUID = [], s_IsReadOnly = ro, s_SizeBytes = 0, s_Status = ''active'',
      s_ErrorMessage = [], s_CreatedAt = zero_time, s_ExpiresAt = None, s_DeletedAt = None\<rparr>"

definition two_snapshots :: db where
  "two_snapshots = empty_db\<lparr>db_snaps :=
     [new_snapshot ''s1'' ''n1'' ''/data'' ''/data/.snapshots/a'' True,
      new_snapshot ''s2'' ''n1'' ''/data'' ''/data/.snapshots/b'' True]\<rparr>"

theorem deleted_snapshot_gone_witness:
  "\<exists>d'. DeleteSnapshotRow ref_gorm ''s1'' two_snapshots = (None, d')
      \<and> length (db_snaps d') = 1 \<and> (\<exists>e. GetSnapshot ref_gorm ''s1'' d' = Inl e)"
proof -
  define d' where "d' = snd (DeleteSnapshotRow ref_gorm ''s1'' two_snapshots)"
  have del: "DeleteSnapshotRow ref_gorm ''s1'' two_snapshots = (None, d')"
    by (simp add: d'_def DeleteSnapshotRow_def ref_gorm_def ref_table_def)
  moreover have "length (db_snaps d') = 1"
    by (simp add: d'_def DeleteSnapshotRow_def ref_gorm_def ref_table_def two_snapshots_def
        new_snapshot_def)
  ultimately show ?thesis
    using deleted_snapshot_gone [OF ref_gorm_ok del] by blast
qed

end
