(* ===== verification/ApiKeys.thy ===== *)
theory ApiKeys
  imports Auth Storage
begin

text \<open>
  \<open>internal/apikeys\<close>: API keys, stored by their hash, and the middleware that accepts either
  an API key or a JWT. The hash function is the argument \<open>H\<close>; what matters of SHA-256 here is
  that a digest has 32 bytes. The random bytes, or the error of the generator, are \<open>raw\<close>.
\<close>

section \<open>Operations\<close>

definition sha_ok :: "(string \<Rightarrow> string) \<Rightarrow> bool" where
  "sha_ok H \<longleftrightarrow> (\<forall>s. length (H s) = 32)"

text \<open>
  \<open>t.AddDate(0, 0, n)\<close>: the calendar date of \<open>t\<close> on the local clock is taken apart, \<open>n\<close> is added to the
  day, and \<open>Date\<close> puts it together again. A date is a day number (\<open>civil_of_days_inverse\<close>), so this
  adds to the number; the arithmetic on seconds is that of 64 bits, first since 1970 and, in the
  \<open>Time\<close> that results, since the year 1. \<open>zone\<close> gives the offset of the local zone at a second since
  1970; \<open>Date\<close> looks it up twice, to be right near a change of the offset.
\<close>

definition unix_to_internal :: int where
  "unix_to_internal = 62135596800"

definition add_days :: "(int \<Rightarrow> int) \<Rightarrow> time \<Rightarrow> int \<Rightarrow> time" where
  "add_days zone t n =
     (let local = t div second + zone (t div second);
          local' = wrap64 ((local div 86400 + n) * 86400 + local mod 86400);
          offset = zone local';
          unix = (if offset = 0 then local' else wrap64 (local' - zone (wrap64 (local' - offset))))
      in (wrap64 (unix + unix_to_internal) - unix_to_internal) * second + t mod second)"

text \<open>With a fixed offset and a date that is not too far away these are days of 24 hours.\<close>

lemma add_days_fixed:
  assumes "0 \<le> t" "t \<le> max_duration" "\<bar>off\<bar> \<le> 86400" "0 \<le> n" "n \<le> 10 ^ 12"
  shows "add_days (\<lambda>_. off) t n = t + n * (24 * hour)"
proof -
  define u where "u = t div second"
  have u: "0 \<le> u" "u \<le> 9223372036"
    using assms(1,2) zdiv_mono1 [of t 9223372036854775807 1000000000]
    by (simp_all add: u_def second_def max_duration_def)
  have split: "((u + off) div 86400 + n) * 86400 + (u + off) mod 86400 = u + off + n * 86400"
    using div_mult_mod_eq [of "u + off" 86400] by (simp add: algebra_simps)
  have n: "0 \<le> n * 86400" "n * 86400 \<le> 86400000000000000" using assms(4,5) by simp_all
  have w: "wrap64 (u + off + n * 86400) = u + off + n * 86400" "wrap64 (u + n * 86400) = u + n * 86400"
    "wrap64 (u + n * 86400 + unix_to_internal) = u + n * 86400 + unix_to_internal"
    "wrap64 (u + off + n * 86400 - off) = u + n * 86400"
    using u n assms(3) by (simp_all add: min_duration_def max_duration_def unix_to_internal_def abs_le_iff)
  have "add_days (\<lambda>_. off) t n = (u + n * 86400) * second + t mod second"
    unfolding add_days_def Let_def u_def [symmetric] split using w by (simp add: algebra_simps)
  also have "\<dots> = t + n * (24 * hour)"
    using div_mult_mod_eq [of t second] by (simp add: u_def time_units second_def algebra_simps)
  finally show ?thesis .
qed

definition key_text :: "string \<Rightarrow> string" where
  "key_text raw = ''spow_'' @ hex_encode raw"

definition key_record ::
    "(string \<Rightarrow> string) \<Rightarrow> (int \<Rightarrow> int) \<Rightarrow> time \<Rightarrow> time \<Rightarrow> string \<Rightarrow> string \<Rightarrow> int \<Rightarrow> string \<Rightarrow> api_key" where
  "key_record H zone t1 t2 name role expiresDays plaintext =
     (let hash = H plaintext
      in \<lparr>k_ID = hex_encode (take 8 hash), k_Name = name, k_KeyHash = hex_encode hash,
          k_Prefix = take 12 plaintext, k_Role = role, k_Active = True, k_CreatedAt = t1,
          k_ExpiresAt = (if 0 < expiresDays then Some (add_days zone t2 expiresDays) else None),
          k_LastUsedAt = None\<rparr>)"

definition GenerateKey ::
    "gorm \<Rightarrow> (string \<Rightarrow> string) \<Rightarrow> (int \<Rightarrow> int) \<Rightarrow> goerror + string \<Rightarrow> time \<Rightarrow> time \<Rightarrow> string \<Rightarrow> string \<Rightarrow> int \<Rightarrow> db
      \<Rightarrow> (goerror + string \<times> api_key) \<times> db" where
  "GenerateKey g H zone raw t1 t2 name role expiresDays d =
     (case raw of
        Inl e \<Rightarrow> (Inl (''generar bytes: '' @ e), d)
      | Inr bytes \<Rightarrow>
          (let plaintext = key_text bytes;
               (err, k, d') = SaveAPIKey g (key_record H zone t1 t2 name role expiresDays plaintext) d
           in case err of
                Some e \<Rightarrow> (Inl (''guardar key: '' @ e), d')
              | None \<Rightarrow> (Inr (plaintext, k), d')))"

text \<open>\<open>t1\<close> is the clock of the expiry check, \<open>t2\<close> the one stored as the last use.\<close>

definition ValidateKey ::
    "gorm \<Rightarrow> (string \<Rightarrow> string) \<Rightarrow> time \<Rightarrow> time \<Rightarrow> string \<Rightarrow> db \<Rightarrow> api_key option \<times> db" where
  "ValidateKey g H t1 t2 plaintext d =
     (case GetAPIKeyByHash g (hex_encode (H plaintext)) d of
        Inl _ \<Rightarrow> (None, d)
      | Inr k \<Rightarrow>
          if (case k_ExpiresAt k of None \<Rightarrow> False | Some e \<Rightarrow> e < t1) then (None, d)
          else (Some k, snd (UpdateAPIKeyLastUsed g (k_ID k) t2 d)))"

definition ListKeys :: "gorm \<Rightarrow> db \<Rightarrow> goerror + api_key list" where
  "ListKeys g d = ListAPIKeys g d"

definition RevokeKey :: "gorm \<Rightarrow> string \<Rightarrow> db \<Rightarrow> bool \<times> db" where
  "RevokeKey g i d = (let (err, d') = RevokeAPIKey g i d in (err = None, d'))"

section \<open>Middleware\<close>

definition raw_key :: "request \<Rightarrow> string" where
  "raw_key r =
     (let bearer = get_header r ''Authorization''; apiKeyHeader = get_header r ''X-API-Key''
      in if apiKeyHeader = [] \<and> hasPrefix bearer ''Bearer spow_'' then trimPrefix bearer ''Bearer ''
         else apiKeyHeader)"

definition bad_key :: "response \<Rightarrow> response" where
  "bad_key w =
     write_chunk (BText ''{\"error\":\"API key invalida o expirada\"}'')
       (write_header 401 (resp_set ''Content-Type'' ''application/json'' w))"

definition CombinedMiddleware ::
    "('s \<Rightarrow> db) \<Rightarrow> (db \<Rightarrow> 's \<Rightarrow> 's) \<Rightarrow> jwt \<Rightarrow> gorm \<Rightarrow> (string \<Rightarrow> string) \<Rightarrow> time \<Rightarrow> time \<Rightarrow> auth_manager
      \<Rightarrow> 's handler \<Rightarrow> 's handler" where
  "CombinedMiddleware get put J g H t1 t2 m next r s w =
     (if raw_key r \<noteq> [] then
        (let (found, d') = ValidateKey g H t1 t2 (raw_key r) (get s)
         in case found of
              None \<Rightarrow> (put d' s, bad_key w)
            | Some k \<Rightarrow> next (identify (k_ID k) (k_Name k) (k_Role k) r) (put d' s) w)
      else AuthMiddleware J t1 m [] next r s w)"

text \<open>The key the middleware accepts, if the request carries one.\<close>

abbreviation found_key ::
    "('s \<Rightarrow> db) \<Rightarrow> gorm \<Rightarrow> (string \<Rightarrow> string) \<Rightarrow> time \<Rightarrow> time \<Rightarrow> request \<Rightarrow> 's \<Rightarrow> api_key option" where
  "found_key get g H t1 t2 r s \<equiv> fst (ValidateKey g H t1 t2 (raw_key r) (get s))"

interpretation cm: guard
  "CombinedMiddleware get put J g H t1 t2 m"
  "\<lambda>r s. if raw_key r \<noteq> [] then found_key get g H t1 t2 r s \<noteq> None
         else \<not> isl (authorize J t1 m [] r)"
  "\<lambda>r s. if raw_key r \<noteq> []
         then (let k = the (found_key get g H t1 t2 r s) in identify (k_ID k) (k_Name k) (k_Role k) r)
         else identify_as (projr (authorize J t1 m [] r)) r"
  "\<lambda>r s. if raw_key r \<noteq> [] then put (snd (ValidateKey g H t1 t2 (raw_key r) (get s))) s else s"
  "\<lambda>r s. if raw_key r \<noteq> [] then bad_key
         else http_Error (snd (projl (authorize J t1 m [] r))) (fst (projl (authorize J t1 m [] r)))"
  for get :: "'s \<Rightarrow> db" and put :: "db \<Rightarrow> 's \<Rightarrow> 's" and J g H t1 t2 m
  by unfold_locales
    (auto simp: CombinedMiddleware_def am.outcome case_prod_unfold Let_def split: option.splits)

section \<open>Facts about the stored rows\<close>

lemma GetAPIKeyByHash_row:
  "gorm_ok g \<Longrightarrow> GetAPIKeyByHash g h d = Inr k \<Longrightarrow> k \<in> set (db_keys d) \<and> k_KeyHash k = h \<and> k_Active k"
  unfolding GetAPIKeyByHash_def using table_first [OF gorm_okD(5)] by fastforce

lemma UpdateAPIKeyLastUsed_rows:
  assumes "gorm_ok g" "k \<in> set (db_keys (snd (UpdateAPIKeyLastUsed g i t d)))"
  shows "\<exists>k0 \<in> set (db_keys d). k = k0 \<or> k = k0\<lparr>k_LastUsedAt := Some t\<rparr>"
proof -
  obtain e rows where u: "g_Update (g_keys g) (\<lambda>k. k_ID k = i) (\<lambda>k. k\<lparr>k_LastUsedAt := Some t\<rparr>)
      (db_keys d) = (e, rows)" by fastforce
  with assms(2) have k: "k \<in> set rows" by (simp add: UpdateAPIKeyLastUsed_def)
  show ?thesis
  proof (cases e)
    case (Some x)
    with u k table_failed(3) [OF gorm_okD(5) [OF assms(1)]] show ?thesis by blast
  next
    case None
    note all = table_update [OF gorm_okD(5) [OF assms(1)] u [unfolded None]]
    from k obtain j where "j < length rows" "rows ! j = k" by (auto simp: in_set_conv_nth)
    with all show ?thesis
      by (intro bexI [of _ "db_keys d ! j"]) (auto simp: list_all2_conv_all_nth split: if_splits)
  qed
qed

lemma RevokeAPIKey_rows:
  assumes "gorm_ok g" "k \<in> set (db_keys (snd (RevokeAPIKey g i d)))"
  shows "\<exists>k0 \<in> set (db_keys d). k = k0 \<or> k = k0\<lparr>k_Active := False\<rparr>"
    and "fst (RevokeAPIKey g i d) = None \<Longrightarrow> k_ID k = i \<Longrightarrow> \<not> k_Active k"
proof -
  obtain e rows where u: "g_Update (g_keys g) (\<lambda>k. k_ID k = i) (\<lambda>k. k\<lparr>k_Active := False\<rparr>)
      (db_keys d) = (e, rows)" by fastforce
  with assms(2) have k: "k \<in> set rows" by (simp add: RevokeAPIKey_def)
  then obtain j where j: "j < length rows" "rows ! j = k" by (auto simp: in_set_conv_nth)
  note failed = table_failed(3) [OF gorm_okD(5) [OF assms(1)]]
  note ok = table_update [OF gorm_okD(5) [OF assms(1)]]
  show "\<exists>k0 \<in> set (db_keys d). k = k0 \<or> k = k0\<lparr>k_Active := False\<rparr>"
  proof (cases e)
    case (Some x)
    with u k failed show ?thesis by blast
  next
    case None
    from ok [OF u [unfolded None]] j show ?thesis
      by (intro bexI [of _ "db_keys d ! j"]) (auto simp: list_all2_conv_all_nth split: if_splits)
  qed
  assume "fst (RevokeAPIKey g i d) = None" and i: "k_ID k = i"
  with u have "e = None" by (simp add: RevokeAPIKey_def)
  from ok [OF u [unfolded this]] j have
    "if k_ID (db_keys d ! j) = i then k = (db_keys d ! j)\<lparr>k_Active := False\<rparr> else k = db_keys d ! j"
    by (force simp: list_all2_conv_all_nth)
  with i show "\<not> k_Active k" by (simp split: if_splits)
qed

lemma SaveAPIKey_rows:
  assumes "gorm_ok g" "k \<in> set (db_keys (snd (snd (SaveAPIKey g r d))))"
  shows "k \<in> set (db_keys d) \<or> k = r"
proof -
  obtain e k' rows where s: "g_Save (g_keys g) r (db_keys d) = (e, k', rows)"
    by (cases "g_Save (g_keys g) r (db_keys d)") auto
  with assms(2) have k: "k \<in> set rows" by (simp add: SaveAPIKey_def)
  show ?thesis
    using s k gorm_okD(5) [OF assms(1)] unfolding table_ok_def save_law_def
    by (cases e) (fastforce split: if_splits)+
qed

section \<open>Revoked keys stay revoked\<close>

text \<open>The operations on the keys, each against a database that may behave differently.\<close>

datatype key_event =
    KGenerate gorm "int \<Rightarrow> int" "goerror + string" time time string string int
  | KValidate gorm time time string
  | KRevoke gorm string

fun key_step :: "(string \<Rightarrow> string) \<Rightarrow> key_event \<Rightarrow> db \<Rightarrow> api_key option \<times> db" where
  "key_step H (KGenerate g zone raw t1 t2 name role days) d =
     (None, snd (GenerateKey g H zone raw t1 t2 name role days d))"
| "key_step H (KValidate g t1 t2 plaintext) d = ValidateKey g H t1 t2 plaintext d"
| "key_step H (KRevoke g i) d = (None, snd (RevokeKey g i d))"

definition no_active :: "string \<Rightarrow> db \<Rightarrow> bool" where
  "no_active i d \<longleftrightarrow> (\<forall>k \<in> set (db_keys d). k_ID k = i \<longrightarrow> \<not> k_Active k)"

text \<open>
  New keys get other ids: an id is the beginning of the digest of a new random key.
\<close>

fun other_id :: "(string \<Rightarrow> string) \<Rightarrow> string \<Rightarrow> key_event \<Rightarrow> bool" where
  "other_id H i (KGenerate g zone raw t1 t2 name role days) \<longleftrightarrow>
     gorm_ok g \<and> (\<forall>bytes. raw = Inr bytes \<longrightarrow> hex_encode (take 8 (H (key_text bytes))) \<noteq> i)"
| "other_id H i (KValidate g t1 t2 plaintext) \<longleftrightarrow> gorm_ok g"
| "other_id H i (KRevoke g j) \<longleftrightarrow> gorm_ok g"

lemma no_active_Generate:
  assumes "gorm_ok g" "no_active i d"
    and "\<And>bytes. raw = Inr bytes \<Longrightarrow> hex_encode (take 8 (H (key_text bytes))) \<noteq> i"
  shows "no_active i (snd (GenerateKey g H zone raw t1 t2 name role days d))"
proof (cases raw)
  case (Inl e)
  with assms(2) show ?thesis by (simp add: GenerateKey_def)
next
  case (Inr bytes)
  let ?r = "key_record H zone t1 t2 name role days (key_text bytes)"
  have "k_ID ?r \<noteq> i" using assms(3) [OF Inr] by (simp add: key_record_def Let_def)
  moreover have "snd (GenerateKey g H zone raw t1 t2 name role days d) = snd (snd (SaveAPIKey g ?r d))"
    using Inr by (simp add: GenerateKey_def Let_def case_prod_unfold split: option.splits)
  ultimately show ?thesis
    using SaveAPIKey_rows [OF assms(1), of _ ?r d] assms(2) unfolding no_active_def by metis
qed

lemma no_active_Validate:
  assumes "gorm_ok g" "no_active i d"
  shows "no_active i (snd (ValidateKey g H t1 t2 plaintext d))"
proof -
  have "no_active i (snd (UpdateAPIKeyLastUsed g j t2 d))" for j
    using UpdateAPIKeyLastUsed_rows [OF assms(1), of _ j t2 d] assms(2)
    unfolding no_active_def by fastforce
  with assms(2) show ?thesis by (auto simp: ValidateKey_def split: sum.splits)
qed

lemma no_active_Revoke:
  assumes "gorm_ok g" "no_active i d"
  shows "no_active i (snd (RevokeKey g j d))"
  using RevokeAPIKey_rows(1) [OF assms(1), of _ j d] assms(2)
  unfolding no_active_def by (fastforce simp: RevokeKey_def case_prod_unfold Let_def)

interpretation keys: machine "key_step H" "\<lambda>_. other_id H i" "no_active i"
  for H i
proof unfold_locales
  fix d e
  assume "no_active i d" "other_id H i e"
  then show "no_active i (snd (key_step H e d))"
    by (cases e) (auto intro: no_active_Generate no_active_Validate no_active_Revoke)
qed

lemma revoked_no_active:
  assumes "gorm_ok g" "RevokeKey g i d = (True, d')"
  shows "no_active i d'"
  using assms RevokeAPIKey_rows(2) [OF assms(1), of _ i d]
  unfolding no_active_def by (auto simp: RevokeKey_def case_prod_unfold Let_def)

lemma no_active_not_validated:
  assumes "gorm_ok g" "no_active i d" "fst (ValidateKey g H t1 t2 plaintext d) = Some k"
  shows "k_ID k \<noteq> i"
  using assms GetAPIKeyByHash_row [OF assms(1), of "hex_encode (H plaintext)" d k]
  by (auto simp: ValidateKey_def no_active_def split: sum.splits if_splits)

text \<open>C34: Revocation is final. After a successful revocation of an id, no sequence of
  generations (of keys with other ids), validations and revocations, with a database that may
  fail at any point, makes a validation return a key with that id again.\<close>

theorem revoked_key_never_validates:
  assumes "gorm_ok g" "RevokeKey g i d = (True, d')"
    and "valid_run (\<lambda>_. other_id H i) (key_step H) es d'"
    and "gorm_ok g'" "ValidateKey g' H t1 t2 plaintext (snd (run (key_step H) es d')) = (Some k, d'')"
  shows "k_ID k \<noteq> i"
proof -
  have "no_active i (snd (run (key_step H) es d'))"
    using keys.run_inv [OF revoked_no_active [OF assms(1,2)] assms(3)] .
  from no_active_not_validated [OF assms(4) this, of H t1 t2 plaintext k] assms(5)
  show ?thesis by simp
qed

text \<open>Concrete keys: a digest that keeps the first 32 bytes of a padded text.\<close>

definition ref_hash :: "string \<Rightarrow> string" where
  "ref_hash s = take 32 (s @ replicate 32 (CHR ''.''))"

lemma ref_hash_ok: "sha_ok ref_hash"
  unfolding sha_ok_def ref_hash_def length_take length_append length_replicate by auto

definition stored_key :: "string \<Rightarrow> string \<Rightarrow> api_key" where
  "stored_key i h = \<lparr>k_ID = i, k_Name = ''ci'', k_KeyHash = h, k_Prefix = ''spow_00'', k_Role = ''operator'',
     k_Active = True, k_CreatedAt = 0, k_ExpiresAt = None, k_LastUsedAt = None\<rparr>"

definition two_keys :: db where
  "two_keys = empty_db\<lparr>db_keys := [stored_key ''k1'' (hex_encode (ref_hash ''a'')),
                                  stored_key ''k2'' (hex_encode (ref_hash ''b''))]\<rparr>"

lemma ref_keys: "g_keys ref_gorm = ref_table k_ID (\<lambda>_. True)"
  by (simp add: ref_gorm_def)

theorem revoked_key_never_validates_witness:
  "\<exists>d' k d''. RevokeKey ref_gorm ''k1'' two_keys = (True, d')
     \<and> ValidateKey ref_gorm ref_hash 1 1 ''b'' (snd (run (key_step ref_hash) [KValidate ref_gorm 0 0 ''a''] d'))
        = (Some k, d'')
     \<and> k_ID k \<noteq> ''k1''"
proof -
  define d' where "d' = snd (RevokeKey ref_gorm ''k1'' two_keys)"
  let ?s = "snd (run (key_step ref_hash) [KValidate ref_gorm 0 0 ''a''] d')"
  let ?k = "stored_key ''k2'' (hex_encode (ref_hash ''b''))"
  have rev: "RevokeKey ref_gorm ''k1'' two_keys = (True, d')"
    by (simp add: d'_def RevokeKey_def RevokeAPIKey_def ref_keys ref_table_def)
  have d': "db_keys d' = [(stored_key ''k1'' (hex_encode (ref_hash ''a'')))\<lparr>k_Active := False\<rparr>, ?k]"
    by (simp add: d'_def RevokeKey_def RevokeAPIKey_def ref_keys ref_table_def two_keys_def stored_key_def)
  have neq: "hex_encode (ref_hash ''a'') \<noteq> hex_encode (ref_hash ''b'')"
    unfolding hex_encode_inj by (simp add: ref_hash_def)
  have s: "?s = d'"
    using neq by (simp add: ValidateKey_def GetAPIKeyByHash_def ref_keys ref_table_def d' stored_key_def)
  have val: "ValidateKey ref_gorm ref_hash 1 1 ''b'' ?s =
      (Some ?k, snd (UpdateAPIKeyLastUsed ref_gorm ''k2'' 1 d'))"
    unfolding s by (simp add: ValidateKey_def GetAPIKeyByHash_def ref_keys ref_table_def d' stored_key_def)
  have vr: "valid_run (\<lambda>_. other_id ref_hash ''k1'') (key_step ref_hash) [KValidate ref_gorm 0 0 ''a''] d'"
    by (simp add: ref_gorm_ok)
  from revoked_key_never_validates [OF ref_gorm_ok rev vr ref_gorm_ok val] rev val
  show ?thesis by blast
qed

section \<open>New keys\<close>

lemma SaveAPIKey_stored:
  assumes "gorm_ok g" "SaveAPIKey g r d = (None, k, d')"
  shows "k = r \<and> r \<in> set (db_keys d')"
proof -
  obtain rows where s: "g_Save (g_keys g) r (db_keys d) = (None, k, rows)" and d': "db_keys d' = rows"
    using assms(2) by (auto simp: SaveAPIKey_def split: prod.splits)
  have "k = r \<and> rows = (if k_ID r \<in> k_ID ` set (db_keys d)
      then map (\<lambda>x. if k_ID x = k_ID r then k else x) (db_keys d) else db_keys d @ [k])"
    using s gorm_okD(5) [OF assms(1)] unfolding table_ok_def save_law_def by fastforce
  then show ?thesis using d' by (auto split: if_splits intro: rev_image_eqI)
qed

lemma GenerateKey_result:
  assumes "gorm_ok g" "GenerateKey g H zone (Inr bytes) t1 t2 name role days d = (Inr (pt, k), d')"
  shows "pt = key_text bytes" "k = key_record H zone t1 t2 name role days pt" "k \<in> set (db_keys d')"
    "k' \<in> set (db_keys d') \<Longrightarrow> k' \<in> set (db_keys d) \<or> k' = k"
proof -
  let ?r = "key_record H zone t1 t2 name role days (key_text bytes)"
  have save: "SaveAPIKey g ?r d = (None, k, d')" and pt: "pt = key_text bytes"
    using assms(2) by (auto simp: GenerateKey_def Let_def split: prod.splits option.splits)
  from SaveAPIKey_stored [OF assms(1) save] pt
  show "pt = key_text bytes" "k = key_record H zone t1 t2 name role days pt" "k \<in> set (db_keys d')"
    by simp_all
  show "k' \<in> set (db_keys d') \<Longrightarrow> k' \<in> set (db_keys d) \<or> k' = k"
    using SaveAPIKey_rows [OF assms(1), of k' ?r d] save SaveAPIKey_stored [OF assms(1) save] by simp
qed

text \<open>C35: A new key works until it expires. With a database that is up and holds no key with the digest
  of the new one, the plaintext that \<open>Generate\<close> returns validates as the record it stored, with the
  requested name and role, up to the date \<open>AddDate\<close> computed, and is refused after it; a lifetime
  that is not positive never ends. In a zone of fixed offset, and for at most a trillion days
  from a time between 1970 and 2262, that date is so many times 24 hours after the creation.\<close>

theorem generated_key_validates:
  assumes "gorm_ok g" "table_up (\<lambda>_. True) (g_keys g)"
    and "GenerateKey g H zone (Inr bytes) t1 t2 name role days d = (Inr (pt, k), d')"
    and "\<forall>k0 \<in> set (db_keys d). k_KeyHash k0 \<noteq> hex_encode (H (key_text bytes))"
  shows "k_Name k = name \<and> k_Role k = role \<and>
    fst (ValidateKey g H t3 t4 pt d') =
      (if 0 < days \<and> add_days zone t2 days < t3 then None else Some k) \<and>
    (zone = (\<lambda>_. off) \<and> \<bar>off\<bar> \<le> 86400 \<and> 0 \<le> t2 \<and> t2 \<le> max_duration \<and> 0 \<le> days \<and> days \<le> 10 ^ 12
       \<longrightarrow> add_days zone t2 days = t2 + days * (24 * hour))"
proof -
  note r = GenerateKey_result [OF assms(1,3)]
  have k: "k_Name k = name" "k_Role k = role" "k_KeyHash k = hex_encode (H pt)" "k_Active k"
    "k_ExpiresAt k = (if 0 < days then Some (add_days zone t2 days) else None)"
    unfolding r(2) by (simp_all add: key_record_def Let_def)
  obtain k1 where k1: "GetAPIKeyByHash g (hex_encode (H pt)) d' = Inr k1"
    using table_up_first [OF assms(2) r(3)] k(3,4) unfolding GetAPIKeyByHash_def by force
  from GetAPIKeyByHash_row [OF assms(1) k1] r(1,4) assms(4) have "k1 = k" by blast
  with k1 k have "fst (ValidateKey g H t3 t4 pt d') = (if 0 < days \<and> add_days zone t2 days < t3 then None else Some k)"
    by (auto simp: ValidateKey_def)
  with k(1,2) add_days_fixed show ?thesis by blast
qed

theorem generated_key_validates_witness:
  "\<exists>pt k d'. GenerateKey ref_gorm ref_hash (\<lambda>_. 7200) (Inr (replicate 32 (CHR 0x00))) 5 6 ''ci'' ''operator'' 30 two_keys
       = (Inr (pt, k), d')
     \<and> fst (ValidateKey ref_gorm ref_hash 7 8 pt d') = Some k
     \<and> fst (ValidateKey ref_gorm ref_hash (40 * (24 * hour)) 8 pt d') = None"
proof -
  let ?raw = "replicate 32 (CHR 0x00)"
  have up: "table_up (\<lambda>_. True) (g_keys ref_gorm)" unfolding ref_keys by (rule ref_table_up)
  obtain pt k d' where g: "GenerateKey ref_gorm ref_hash (\<lambda>_. 7200) (Inr ?raw) 5 6 ''ci'' ''operator'' 30 two_keys
      = (Inr (pt, k), d')"
    by (simp add: GenerateKey_def SaveAPIKey_def ref_keys ref_table_def Let_def)
  have "ref_hash (key_text ?raw) \<noteq> ref_hash ''a''" "ref_hash (key_text ?raw) \<noteq> ref_hash ''b''"
    by (simp_all add: ref_hash_def key_text_def)
  then have fresh: "\<forall>k0 \<in> set (db_keys two_keys). k_KeyHash k0 \<noteq> hex_encode (ref_hash (key_text ?raw))"
    by (auto simp: two_keys_def stored_key_def hex_encode_inj)
  note v = generated_key_validates [OF ref_gorm_ok up g fresh]
  have e: "add_days (\<lambda>_. 7200) 6 30 = 6 + 30 * (24 * hour)"
    using v [of 7 8 7200] by (simp add: max_duration_def)
  show ?thesis
    using g v [of 7 8 0] v [of "40 * (24 * hour)" 8 0] unfolding e by (auto simp: time_units)
qed

text \<open>Nothing checks the number of days a request asks for: a lifetime of more than 292 billion years
  wraps around, and the key has expired before it is stored.\<close>

lemma huge_lifetime_expired: "add_days (\<lambda>_. 0) 0 106751991167301 < 0"
  by (simp add: add_days_def wrap64_def second_def unix_to_internal_def)

text \<open>Revoking an id that no key has. With a database that is up, the revocation of an
  unknown id is reported as a success although it changes no key.\<close>

theorem revoking_unknown_id_succeeds:
  assumes "gorm_ok g" "table_up (\<lambda>_. True) (g_keys g)" "i \<notin> k_ID ` set (db_keys d)"
  shows "RevokeKey g i d = (True, d)"
proof -
  obtain e rows where u: "g_Update (g_keys g) (\<lambda>k. k_ID k = i) (\<lambda>k. k\<lparr>k_Active := False\<rparr>)
      (db_keys d) = (e, rows)" by fastforce
  have e: "e = None" using assms(2) u unfolding table_up_def by (metis fst_conv)
  from table_update [OF gorm_okD(5) [OF assms(1)] u [unfolded e]]
  have all: "list_all2 (\<lambda>r r'. if True \<and> k_ID r = i then r' = r\<lparr>k_Active := False\<rparr> else r' = r)
      (db_keys d) rows" .
  have "rows = db_keys d"
  proof (rule nth_equalityI)
    show "length rows = length (db_keys d)" using all by (simp add: list_all2_lengthD)
    fix j assume "j < length rows"
    with all have "if True \<and> k_ID (db_keys d ! j) = i then rows ! j = (db_keys d ! j)\<lparr>k_Active := False\<rparr>
        else rows ! j = db_keys d ! j" and "db_keys d ! j \<in> set (db_keys d)"
      by (auto simp: list_all2_conv_all_nth)
    with assms(3) show "rows ! j = db_keys d ! j" by (auto split: if_splits)
  qed
  with u e show ?thesis by (simp add: RevokeKey_def RevokeAPIKey_def)
qed

theorem revoking_unknown_id_succeeds_witness:
  "''nope'' \<notin> k_ID ` set (db_keys two_keys) \<and> RevokeKey ref_gorm ''nope'' two_keys = (True, two_keys)"
proof -
  have n: "''nope'' \<notin> k_ID ` set (db_keys two_keys)" by (simp add: two_keys_def stored_key_def)
  have up: "table_up (\<lambda>_. True) (g_keys ref_gorm)" unfolding ref_keys by (rule ref_table_up)
  from n revoking_unknown_id_succeeds [OF ref_gorm_ok up n] show ?thesis by blast
qed

end
