(* ===== verification/GoTime.thy ===== *)
theory GoTime
  imports GoStd
begin

text \<open>
  Calendar dates of instants and the layouts the program formats them with
  (\<open>time.Format\<close>). An instant is broken down in a zone given by its offset from UTC in
  seconds; the calendar is the proleptic Gregorian one, from January 1 of the year 1 on.
\<close>

section \<open>Calendar\<close>

definition leap :: "nat \<Rightarrow> bool" where
  "leap y \<longleftrightarrow> y mod 4 = 0 \<and> (y mod 100 \<noteq> 0 \<or> y mod 400 = 0)"

definition year_len :: "nat \<Rightarrow> nat" where
  "year_len y = (if leap y then 366 else 365)"

definition month_lens :: "nat \<Rightarrow> nat list" where
  "month_lens y = [31, if leap y then 29 else 28, 31, 30, 31, 30, 31, 31, 30, 31, 30, 31]"

text \<open>The days before January 1 of a year, counted from January 1 of the year 1.\<close>

definition days_before :: "nat \<Rightarrow> nat" where
  "days_before y = 365 * (y - 1) + (y - 1) div 4 - (y - 1) div 100 + (y - 1) div 400"

function year_of :: "nat \<Rightarrow> nat \<Rightarrow> nat \<times> nat" where
  "year_of y d = (if d < year_len y then (y, d) else year_of (Suc y) (d - year_len y))"
  by pat_completeness auto
termination
  by (relation "measure snd") (auto simp: year_len_def)

declare year_of.simps [simp del]

fun month_of :: "nat list \<Rightarrow> nat \<Rightarrow> nat \<Rightarrow> nat \<times> nat" where
  "month_of [] m d = (m, d)"
| "month_of (l # ls) m d = (if d < l then (m, d) else month_of ls (Suc m) (d - l))"

record civil =
  c_year :: nat
  c_month :: nat
  c_day :: nat
  c_hour :: nat
  c_min :: nat
  c_sec :: nat

definition civil_of_days :: "nat \<Rightarrow> nat \<times> nat \<times> nat" where
  "civil_of_days d =
     (let (y, yd) = year_of (1 + 400 * (d div 146097)) (d mod 146097);
          (m, md) = month_of (month_lens y) 1 yd
      in (y, m, md + 1))"

definition civil_of_secs :: "nat \<Rightarrow> civil" where
  "civil_of_secs s =
     (let (y, m, d) = civil_of_days (s div 86400); r = s mod 86400
      in \<lparr>c_year = y, c_month = m, c_day = d,
          c_hour = r div 3600, c_min = r div 60 mod 60, c_sec = r mod 60\<rparr>)"

text \<open>
  \<open>local_secs off t\<close> is the number of whole seconds from the zero time to the instant
  \<open>t\<close> on the clock of a zone \<open>off\<close> seconds east of UTC.
\<close>

definition local_secs :: "int \<Rightarrow> time \<Rightarrow> nat" where
  "local_secs off t = nat (t div second + 62135596800 + off)"

definition civil_of :: "int \<Rightarrow> time \<Rightarrow> civil" where
  "civil_of off t = civil_of_secs (local_secs off t)"

section \<open>Layouts\<close>

text \<open>\<open>"20060102_150405"\<close>\<close>

definition fmt_stamp :: "civil \<Rightarrow> string" where
  "fmt_stamp c = pad 4 (c_year c) @ pad 2 (c_month c) @ pad 2 (c_day c) @ ''_''
     @ pad 2 (c_hour c) @ pad 2 (c_min c) @ pad 2 (c_sec c)"

text \<open>\<open>"02/01 15:04:05"\<close> and \<open>"02/01/2006 15:04:05"\<close>\<close>

definition fmt_clock :: "civil \<Rightarrow> string" where
  "fmt_clock c = pad 2 (c_hour c) @ '':'' @ pad 2 (c_min c) @ '':'' @ pad 2 (c_sec c)"

definition fmt_short :: "civil \<Rightarrow> string" where
  "fmt_short c = pad 2 (c_day c) @ ''/'' @ pad 2 (c_month c) @ '' '' @ fmt_clock c"

definition fmt_long :: "civil \<Rightarrow> string" where
  "fmt_long c = pad 2 (c_day c) @ ''/'' @ pad 2 (c_month c) @ ''/'' @ pad 4 (c_year c)
     @ '' '' @ fmt_clock c"

text \<open>\<open>time.RFC3339\<close>\<close>

definition fmt_zone :: "int \<Rightarrow> string" where
  "fmt_zone off =
     (let mins = nat \<bar>off\<bar> div 60
      in if off = 0 then ''Z''
         else (if off < 0 then ''-'' else ''+'') @ pad 2 (mins div 60) @ '':'' @ pad 2 (mins mod 60))"

definition fmt_rfc3339 :: "int \<Rightarrow> time \<Rightarrow> string" where
  "fmt_rfc3339 off t =
     (let c = civil_of off t
      in pad 4 (c_year c) @ ''-'' @ pad 2 (c_month c) @ ''-'' @ pad 2 (c_day c) @ ''T''
         @ fmt_clock c @ fmt_zone off)"

text \<open>\<open>time.RFC3339Nano\<close>, the form of a time in a JSON document: the fraction of the second
  without its trailing zeros.\<close>

definition fmt_fraction :: "nat \<Rightarrow> string" where
  "fmt_fraction ns =
     (if ns = 0 then [] else CHR ''.'' # rev (dropWhile (\<lambda>c. c = CHR ''0'') (rev (pad 9 ns))))"

definition fmt_rfc3339_nano :: "int \<Rightarrow> time \<Rightarrow> string" where
  "fmt_rfc3339_nano off t =
     (let c = civil_of off t
      in pad 4 (c_year c) @ ''-'' @ pad 2 (c_month c) @ ''-'' @ pad 2 (c_day c) @ ''T''
         @ fmt_clock c @ fmt_fraction (nat (t mod second)) @ fmt_zone off)"

section \<open>The calendar is exact\<close>

text \<open>One more year adds a leap day exactly when the three counts of leap days say so.\<close>

lemma leap_count_step:
  fixes a b c n :: nat
  assumes "p100 \<Longrightarrow> p4" "p400 \<Longrightarrow> p100" "b \<le> n + a"
  shows "n + a - b + c + (if p4 \<and> (\<not> p100 \<or> p400) then 366 else 365) =
    365 + n + (if p4 then Suc a else a) - (if p100 then Suc b else b) + (if p400 then Suc c else c)"
  using assms by (cases p4; cases p100; cases p400) simp_all

lemma days_before_Suc: "days_before (Suc (Suc y)) = days_before (Suc y) + year_len (Suc y)"
proof -
  have d: "Suc y div k = (if Suc y mod k = 0 then Suc (y div k) else y div k)" for k
    by (simp add: div_Suc)
  have i1: "Suc y mod 100 = 0 \<Longrightarrow> Suc y mod 4 = 0" by presburger
  have i2: "Suc y mod 400 = 0 \<Longrightarrow> Suc y mod 100 = 0" by presburger
  have le: "y div 100 \<le> 365 * y + y div 4"
    using div_le_dividend [of y 100] by linarith
  have "days_before (Suc (Suc y)) =
      365 + 365 * y + (if Suc y mod 4 = 0 then Suc (y div 4) else y div 4)
        - (if Suc y mod 100 = 0 then Suc (y div 100) else y div 100)
        + (if Suc y mod 400 = 0 then Suc (y div 400) else y div 400)"
    by (simp only: days_before_def d diff_Suc_1 mult_Suc_right)
  also have "\<dots> = 365 * y + y div 4 - y div 100 + y div 400
      + (if Suc y mod 4 = 0 \<and> (\<not> Suc y mod 100 = 0 \<or> Suc y mod 400 = 0) then 366 else 365)"
    by (rule leap_count_step [OF i1 i2 le, symmetric])
  also have "\<dots> = days_before (Suc y) + year_len (Suc y)"
    by (simp only: days_before_def year_len_def leap_def diff_Suc_1 not_not)
  finally show ?thesis .
qed

lemma days_before_era: "days_before (1 + 400 * q) = 146097 * q"
proof -
  have "(400 * q) div 4 = 100 * q" "(400 * q) div 100 = 4 * q" by presburger+
  then show ?thesis by (simp add: days_before_def)
qed

lemma year_of_days:
  "1 \<le> y \<Longrightarrow> days_before (fst (year_of y d)) + snd (year_of y d) = days_before y + d"
proof (induction y d rule: year_of.induct)
  case (1 y d)
  show ?case
  proof (cases "d < year_len y")
    case True
    then show ?thesis by (simp add: year_of.simps [of y d])
  next
    case False
    obtain z where "y = Suc z" using 1(2) by (cases y) auto
    with False 1 show ?thesis by (simp add: year_of.simps [of "Suc z" d] days_before_Suc)
  qed
qed

lemma year_of_bounds:
  "y \<le> fst (year_of y d) \<and> snd (year_of y d) < year_len (fst (year_of y d))"
proof (induction y d rule: year_of.induct)
  case (1 y d)
  show ?case
  proof (cases "d < year_len y")
    case True
    then show ?thesis by (simp add: year_of.simps [of y d])
  next
    case False
    with 1 show ?thesis by (simp add: year_of.simps [of y d])
  qed
qed


lemma month_of_days:
  "d < sum_list ls \<Longrightarrow>
     m \<le> fst (month_of ls m d) \<and> fst (month_of ls m d) - m < length ls \<and>
     sum_list (take (fst (month_of ls m d) - m) ls) + snd (month_of ls m d) = d \<and>
     snd (month_of ls m d) < ls ! (fst (month_of ls m d) - m)"
proof (induction ls arbitrary: m d)
  case Nil
  then show ?case by simp
next
  case (Cons l ls)
  show ?case
  proof (cases "d < l")
    case True
    then show ?thesis by simp
  next
    case False
    define m' where "m' = fst (month_of ls (Suc m) (d - l))"
    from False Cons.prems have "d - l < sum_list ls" by simp
    then have IH: "Suc m \<le> m'" "m' - Suc m < length ls"
      "sum_list (take (m' - Suc m) ls) + snd (month_of ls (Suc m) (d - l)) = d - l"
      "snd (month_of ls (Suc m) (d - l)) < ls ! (m' - Suc m)"
      unfolding m'_def using Cons.IH by blast+
    then have "m' - m = Suc (m' - Suc m)" by simp
    moreover have "l + (d - l) = d" using False by simp
    ultimately show ?thesis using IH False by (simp add: m'_def add.assoc)
  qed
qed

definition days_of_civil :: "nat \<Rightarrow> nat \<Rightarrow> nat \<Rightarrow> nat" where
  "days_of_civil y m d = days_before y + sum_list (take (m - 1) (month_lens y)) + (d - 1)"

lemma sum_month_lens: "sum_list (month_lens y) = year_len y"
  by (simp add: month_lens_def year_len_def)

lemma length_month_lens [simp]: "length (month_lens y) = 12"
  by (simp add: month_lens_def)

lemma month_lens_le: "i < 12 \<Longrightarrow> month_lens y ! i \<le> 31"
proof -
  assume "i < 12"
  then have "month_lens y ! i \<in> set (month_lens y)" by simp
  then show ?thesis by (auto simp: month_lens_def)
qed

lemma civil_of_days_inverse:
  assumes "civil_of_days n = (y, m, d)"
  shows "days_of_civil y m d = n" "1 \<le> m" "m \<le> 12" "1 \<le> d" "d \<le> 31"
proof -
  define y0 where "y0 = 1 + 400 * (n div 146097)"
  define yd where "yd = year_of y0 (n mod 146097)"
  define md where "md = month_of (month_lens (fst yd)) 1 (snd yd)"
  have eq: "y = fst yd" "m = fst md" "d = snd md + 1"
    using assms by (auto simp: civil_of_days_def Let_def y0_def yd_def md_def split: prod.splits)
  have "days_before (fst yd) + snd yd = days_before y0 + n mod 146097"
    unfolding yd_def by (rule year_of_days) (simp add: y0_def)
  also have "\<dots> = n"
    unfolding y0_def days_before_era by simp
  finally have n: "days_before (fst yd) + snd yd = n" .
  have "snd yd < sum_list (month_lens (fst yd))"
    unfolding sum_month_lens yd_def using year_of_bounds by blast
  then have md: "1 \<le> fst md" "fst md - 1 < 12"
    "sum_list (take (fst md - 1) (month_lens (fst yd))) + snd md = snd yd"
    "snd md < month_lens (fst yd) ! (fst md - 1)"
    unfolding md_def using month_of_days [of "snd yd" "month_lens (fst yd)" 1] by simp_all
  show "days_of_civil y m d = n"
    using n md by (simp add: days_of_civil_def eq)
  show "1 \<le> m" "m \<le> 12" "1 \<le> d" "d \<le> 31"
    using md month_lens_le [OF md(2), of "fst yd"] by (simp_all add: eq)
qed

text \<open>The second count a broken-down date stands for; the breakdown loses nothing.\<close>

definition secs_of_civil :: "civil \<Rightarrow> nat" where
  "secs_of_civil c =
     86400 * days_of_civil (c_year c) (c_month c) (c_day c)
     + 3600 * c_hour c + 60 * c_min c + c_sec c"

lemma secs_split: "3600 * (r div 3600) + 60 * (r div 60 mod 60) + r mod 60 = (r::nat)"
proof -
  have h: "r div 3600 = r div 60 div 60" by (simp add: div_mult2_eq [symmetric])
  have "60 * a + b = q \<Longrightarrow> 60 * q + c = r \<Longrightarrow> 3600 * a + 60 * b + c = r" for a b c q :: nat
    by linarith
  from this [OF mult_div_mod_eq [of 60 "r div 60"] mult_div_mod_eq [of 60 r]]
  show ?thesis unfolding h .
qed

lemma civil_of_secs_inverse: "secs_of_civil (civil_of_secs s) = s"
proof -
  obtain y m d where c: "civil_of_days (s div 86400) = (y, m, d)"
    by (cases "civil_of_days (s div 86400)") auto
  have "secs_of_civil (civil_of_secs s) =
      86400 * (s div 86400) + (3600 * (s mod 86400 div 3600)
        + 60 * (s mod 86400 div 60 mod 60) + s mod 86400 mod 60)"
    using civil_of_days_inverse(1) [OF c]
    by (simp add: civil_of_secs_def c Let_def secs_of_civil_def)
  then show ?thesis
    unfolding secs_split by simp
qed

definition civil_ok :: "civil \<Rightarrow> bool" where
  "civil_ok c \<longleftrightarrow> 1 \<le> c_month c \<and> c_month c \<le> 12 \<and> 1 \<le> c_day c \<and> c_day c \<le> 31
     \<and> c_hour c < 24 \<and> c_min c < 60 \<and> c_sec c < 60"

lemma civil_of_secs_ok: "civil_ok (civil_of_secs s)"
proof -
  obtain y m d where c: "civil_of_days (s div 86400) = (y, m, d)"
    by (cases "civil_of_days (s div 86400)") auto
  have "s mod 86400 div 3600 < 24"
    by (simp add: less_mult_imp_div_less)
  then show ?thesis
    using civil_of_days_inverse [OF c]
    by (simp add: civil_ok_def civil_of_secs_def c Let_def)
qed

section \<open>The stamp of a snapshot name can be read back\<close>

definition parse_stamp :: "string \<Rightarrow> civil" where
  "parse_stamp s =
     \<lparr>c_year = read_digits (take 4 s), c_month = read_digits (take 2 (drop 4 s)),
      c_day = read_digits (take 2 (drop 6 s)), c_hour = read_digits (take 2 (drop 9 s)),
      c_min = read_digits (take 2 (drop 11 s)), c_sec = read_digits (take 2 (drop 13 s))\<rparr>"

lemma length_fmt_stamp: "civil_ok c \<Longrightarrow> c_year c < 10000 \<Longrightarrow> length (fmt_stamp c) = 15"
  by (simp add: fmt_stamp_def length_pad civil_ok_def)

lemma parse_fmt_stamp:
  assumes "civil_ok c" "c_year c < 10000"
  shows "parse_stamp (fmt_stamp c) = c"
proof -
  have b: "c_year c < 10 ^ 4" "c_month c < 10 ^ 2" "c_day c < 10 ^ 2"
    "c_hour c < 10 ^ 2" "c_min c < 10 ^ 2" "c_sec c < 10 ^ 2"
    using assms by (simp_all add: civil_ok_def)
  note l = b [THEN length_pad] and r = b [THEN read_pad]
  show ?thesis
    by (simp add: parse_stamp_def fmt_stamp_def l r)
qed

lemma fmt_stamp_inj:
  assumes "fmt_stamp (civil_of_secs s) = fmt_stamp (civil_of_secs t)"
    and "c_year (civil_of_secs s) < 10000" "c_year (civil_of_secs t) < 10000"
  shows "s = t"
proof -
  have "civil_of_secs s = civil_of_secs t"
    using assms parse_fmt_stamp civil_of_secs_ok by metis
  then show ?thesis
    using civil_of_secs_inverse by metis
qed

lemma fmt_stamp_set: "c \<in> set (fmt_stamp x) \<Longrightarrow> is_digit c \<or> c = CHR ''_''"
  by (auto simp: fmt_stamp_def dest: pad_set)

section \<open>Reading a time back\<close>

text \<open>
  What \<open>time.Time\<close> accepts in a JSON string: RFC 3339 with an optional fraction of at least one
  digit after a period or a comma (digits after the ninth are dropped) and a zone; Go also takes
  an hour of one digit and zones of up to 24 hours and 60 minutes. The result is the instant and
  the offset it was written with. The year is shifted by one era, so that the year 0 has its
  place before January 1 of the year 1.
\<close>

definition digits_at :: "nat \<Rightarrow> nat \<Rightarrow> string \<Rightarrow> nat option" where
  "digits_at i n s =
     (let ds = take n (drop i s)
      in if length ds = n \<and> list_all is_digit ds then Some (read_digits ds) else None)"

definition char_at :: "nat \<Rightarrow> char \<Rightarrow> string \<Rightarrow> bool" where
  "char_at i c s \<longleftrightarrow> i < length s \<and> s ! i = c"

definition parse_fraction :: "string \<Rightarrow> (nat \<times> string) option" where
  "parse_fraction s =
     (case s of
        [] \<Rightarrow> Some (0, s)
      | c # r \<Rightarrow>
          if c \<noteq> CHR ''.'' \<and> c \<noteq> CHR '','' then Some (0, s)
          else let ds = takeWhile is_digit r; ns = take 9 ds
               in if ds = [] then None
                  else Some (read_digits (ns @ replicate (9 - length ns) (CHR ''0'')), dropWhile is_digit r))"

definition parse_zone :: "string \<Rightarrow> int option" where
  "parse_zone s =
     (if s = ''Z'' then Some 0
      else if length s = 6 \<and> (char_at 0 (CHR ''+'') s \<or> char_at 0 (CHR ''-'') s) \<and> char_at 3 (CHR '':'') s
      then (case (digits_at 1 2 s, digits_at 4 2 s) of
              (Some h, Some m) \<Rightarrow>
                if h \<le> 24 \<and> m \<le> 60
                then Some ((if char_at 0 (CHR ''-'') s then -1 else 1) * int (3600 * h + 60 * m)) else None
            | _ \<Rightarrow> None)
      else None)"

definition widen_hour :: "string \<Rightarrow> string" where
  "widen_hour s = (if char_at 12 (CHR '':'') s then take 11 s @ CHR ''0'' # drop 11 s else s)"

definition parse_rfc3339_in :: "string \<Rightarrow> (time \<times> int) option" where
  "parse_rfc3339_in text =
     (let s = widen_hour text in
      case (digits_at 0 4 s, digits_at 5 2 s, digits_at 8 2 s, digits_at 11 2 s, digits_at 14 2 s, digits_at 17 2 s) of
        (Some y, Some mo, Some d, Some h, Some mi, Some sec) \<Rightarrow>
          if char_at 4 (CHR ''-'') s \<and> char_at 7 (CHR ''-'') s \<and> char_at 10 (CHR ''T'') s
             \<and> char_at 13 (CHR '':'') s \<and> char_at 16 (CHR '':'') s
             \<and> 1 \<le> mo \<and> mo \<le> 12 \<and> 1 \<le> d \<and> d \<le> month_lens (y + 400) ! (mo - 1) \<and> h < 24 \<and> mi < 60 \<and> sec < 60
          then (case parse_fraction (drop 19 s) of
                  None \<Rightarrow> None
                | Some (ns, rest) \<Rightarrow>
                    (case parse_zone rest of
                       None \<Rightarrow> None
                     | Some z \<Rightarrow>
                         let days = int (days_of_civil (y + 400) mo d) - 146097
                         in Some ((86400 * days + int (3600 * h + 60 * mi + sec) - 62135596800 - z) * second
                                  + int ns, z)))
          else None
      | _ \<Rightarrow> None)"

definition parse_rfc3339 :: "string \<Rightarrow> time option" where
  "parse_rfc3339 s = map_option fst (parse_rfc3339_in s)"

section \<open>A time in a JSON document can be read back\<close>

lemma civil_of_days_month:
  assumes "civil_of_days n = (y, m, d)"
  shows "1 \<le> y" "d \<le> month_lens y ! (m - 1)"
proof -
  define yd where "yd = year_of (1 + 400 * (n div 146097)) (n mod 146097)"
  define md where "md = month_of (month_lens (fst yd)) 1 (snd yd)"
  have eq: "y = fst yd" "m = fst md" "d = snd md + 1"
    using assms by (auto simp: civil_of_days_def Let_def yd_def md_def split: prod.splits)
  have "snd yd < sum_list (month_lens (fst yd))" "1 \<le> fst yd"
    unfolding sum_month_lens yd_def using year_of_bounds [of "1 + 400 * (n div 146097)" "n mod 146097"]
    by (auto intro: order_trans [rotated])
  then show "1 \<le> y" "d \<le> month_lens y ! (m - 1)"
    using month_of_days [of "snd yd" "month_lens (fst yd)" 1] by (simp_all add: eq md_def Suc_le_eq)
qed

lemma drop_trailing:
  "xs = rev (dropWhile (\<lambda>x. x = c) (rev xs)) @ replicate (length xs - length (dropWhile (\<lambda>x. x = c) (rev xs))) c"
proof (induction xs rule: rev_induct)
  case Nil
  then show ?case by simp
next
  case (snoc x xs)
  have "length (dropWhile (\<lambda>x. x = c) (rev xs)) \<le> length xs"
    using length_dropWhile_le [of "\<lambda>x. x = c" "rev xs"] by simp
  with snoc show ?case
    by (auto simp: Suc_diff_le replicate_append_same [symmetric] simp del: replicate_append_same)
qed

lemma length_pad_set: "n < 10 ^ w \<Longrightarrow> length (pad w n) = w \<and> list_all is_digit (pad w n)"
  by (auto simp: length_pad list_all_iff dest: pad_set)

lemma parse_fraction_fmt:
  assumes "ns < 10 ^ 9" "z \<noteq> []" "\<not> is_digit (hd z)" "hd z \<noteq> CHR ''.''" "hd z \<noteq> CHR '',''"
  shows "parse_fraction (fmt_fraction ns @ z) = Some (ns, z)"
proof (cases "ns = 0")
  case True
  then show ?thesis using assms by (cases z) (simp_all add: parse_fraction_def fmt_fraction_def)
next
  case False
  define ds where "ds = rev (dropWhile (\<lambda>c. c = CHR ''0'') (rev (pad 9 ns)))"
  have l: "length (pad 9 ns) = 9" and d: "list_all is_digit (pad 9 ns)"
    using length_pad_set [OF assms(1)] by simp_all
  have len: "length ds \<le> 9"
    using length_dropWhile_le [of "\<lambda>c. c = CHR ''0''" "rev (pad 9 ns)"] l by (simp add: ds_def)
  have p: "pad 9 ns = ds @ replicate (9 - length ds) (CHR ''0'')"
    using drop_trailing [of "pad 9 ns" "CHR ''0''"] unfolding l ds_def length_rev .
  have "ds \<noteq> []"
  proof
    assume "ds = []"
    then have "pad 9 ns = replicate 9 (CHR ''0'')" by (subst p) simp
    then have "read_digits (pad 9 ns) = 0" by (simp add: read_digits_def numeral_eq_Suc digit_val_def)
    then show False using assms(1) False by simp
  qed
  moreover have "list_all is_digit ds" using d p by (metis list_all_append)
  then have "takeWhile is_digit (ds @ z) = ds" "dropWhile is_digit (ds @ z) = z"
    using assms(2,3) by (cases z; simp add: list_all_iff)+
  moreover have "fmt_fraction ns = CHR ''.'' # ds" using False by (simp add: fmt_fraction_def ds_def)
  ultimately show ?thesis
    using len p [symmetric] assms(1) by (simp add: parse_fraction_def Let_def)
qed

lemma parse_zone_fmt:
  assumes "\<bar>off\<bar> < 86400" "off mod 60 = 0"
  shows "parse_zone (fmt_zone off) = Some off" "fmt_zone off \<noteq> []" "\<not> is_digit (hd (fmt_zone off))"
    "hd (fmt_zone off) \<noteq> CHR ''.''" "hd (fmt_zone off) \<noteq> CHR '',''"
proof -
  define m where "m = nat \<bar>off\<bar> div 60"
  have "60 dvd \<bar>off\<bar>" using assms(2) by (simp add: dvd_eq_mod_eq_0 [symmetric])
  then have off: "\<bar>off\<bar> = 60 * int m"
    unfolding m_def by (simp add: zdiv_int)
  with assms(1) have "m < 1440" by linarith
  then have b: "m div 60 < 24" "m mod 60 < 60" "m div 60 < 10 ^ 2" "m mod 60 < 10 ^ 2"
    by (simp_all add: less_mult_imp_div_less)
  note l = b(3,4) [THEN length_pad_set]
  have d2: "int (3600 * (m div 60) + 60 * (m mod 60)) = \<bar>off\<bar>"
    unfolding off using mult_div_mod_eq [of 60 m] by linarith
  show "fmt_zone off \<noteq> []" "\<not> is_digit (hd (fmt_zone off))" "hd (fmt_zone off) \<noteq> CHR ''.''"
    "hd (fmt_zone off) \<noteq> CHR '',''"
    by (simp_all add: fmt_zone_def Let_def is_digit_def)
  show "parse_zone (fmt_zone off) = Some off"
  proof (cases "off = 0")
    case True
    then show ?thesis by (simp add: fmt_zone_def parse_zone_def)
  next
    case False
    define sg where "sg = (if off < 0 then CHR ''-'' else CHR ''+'')"
    have z: "fmt_zone off = sg # pad 2 (m div 60) @ CHR '':'' # pad 2 (m mod 60)"
      using False by (simp add: fmt_zone_def m_def [symmetric] Let_def sg_def)
    have "digits_at 1 2 (fmt_zone off) = Some (m div 60)" "digits_at 4 2 (fmt_zone off) = Some (m mod 60)"
      "char_at 3 (CHR '':'') (fmt_zone off)" "length (fmt_zone off) = 6" "char_at 0 c (fmt_zone off) \<longleftrightarrow> sg = c" for c
      using l b by (simp_all add: z digits_at_def char_at_def nth_append Let_def)
    moreover have "fmt_zone off \<noteq> ''Z''" by (simp add: z sg_def)
    ultimately show ?thesis
      using b(1,2) d2 False by (simp add: parse_zone_def sg_def)
  qed
qed

lemma era_mods:
  fixes y :: nat
  shows "(y + 400) mod 4 = y mod 4" "(y + 400) mod 100 = y mod 100" "(y + 400) mod 400 = y mod 400"
    "(y + 400) div 4 = y div 4 + 100" "(y + 400) div 100 = y div 100 + 4" "(y + 400) div 400 = y div 400 + 1"
  using mod_mult_self1 [of y 100 4] mod_mult_self1 [of y 4 100] div_mult_self1 [of 4 y 100]
    div_mult_self1 [of 100 y 4] div_add_self2 [of 400 y] by simp_all

lemma month_lens_era: "month_lens (y + 400) = month_lens y"
  by (simp only: month_lens_def leap_def era_mods)

lemma days_of_civil_era:
  assumes "1 \<le> y"
  shows "days_of_civil (y + 400) m d = days_of_civil y m d + 146097"
proof -
  obtain k where y: "y = k + 1" using assms by (metis le_add_diff_inverse2)
  have k: "y + 400 - 1 = k + 400" "y - 1 = k" by (simp_all add: y)
  have "k div 100 \<le> k div 4" by (simp add: div_le_mono2)
  then obtain j where j: "k div 4 = k div 100 + j" by (metis le_add_diff_inverse)
  have "days_before (y + 400) = days_before y + 146097"
    unfolding days_before_def k era_mods j by simp
  then show ?thesis
    unfolding days_of_civil_def month_lens_era by simp
qed

definition fmt_civil :: "civil \<Rightarrow> string" where
  "fmt_civil c = pad 4 (c_year c) @ ''-'' @ pad 2 (c_month c) @ ''-'' @ pad 2 (c_day c) @ ''T'' @ fmt_clock c"

lemma fmt_civil_fields:
  assumes "civil_ok c" "c_year c < 10000"
  shows "digits_at 0 4 (fmt_civil c @ s) = Some (c_year c)" "digits_at 5 2 (fmt_civil c @ s) = Some (c_month c)"
    "digits_at 8 2 (fmt_civil c @ s) = Some (c_day c)" "digits_at 11 2 (fmt_civil c @ s) = Some (c_hour c)"
    "digits_at 14 2 (fmt_civil c @ s) = Some (c_min c)" "digits_at 17 2 (fmt_civil c @ s) = Some (c_sec c)"
    "char_at 4 (CHR ''-'') (fmt_civil c @ s)" "char_at 7 (CHR ''-'') (fmt_civil c @ s)"
    "char_at 10 (CHR ''T'') (fmt_civil c @ s)" "char_at 13 (CHR '':'') (fmt_civil c @ s)"
    "char_at 16 (CHR '':'') (fmt_civil c @ s)" "drop 19 (fmt_civil c @ s) = s"
    "widen_hour (fmt_civil c @ s) = fmt_civil c @ s"
proof -
  have b: "c_year c < 10 ^ 4" "c_month c < 10 ^ 2" "c_day c < 10 ^ 2"
    "c_hour c < 10 ^ 2" "c_min c < 10 ^ 2" "c_sec c < 10 ^ 2"
    using assms by (simp_all add: civil_ok_def)
  note facts = b [THEN length_pad_set] b [THEN read_pad] digits_at_def char_at_def nth_append Let_def fmt_civil_def fmt_clock_def
  show "digits_at 0 4 (fmt_civil c @ s) = Some (c_year c)" by (simp add: facts)
  show "digits_at 5 2 (fmt_civil c @ s) = Some (c_month c)" by (simp add: facts)
  show "digits_at 8 2 (fmt_civil c @ s) = Some (c_day c)" by (simp add: facts)
  show "digits_at 11 2 (fmt_civil c @ s) = Some (c_hour c)" by (simp add: facts)
  show "digits_at 14 2 (fmt_civil c @ s) = Some (c_min c)" by (simp add: facts)
  show "digits_at 17 2 (fmt_civil c @ s) = Some (c_sec c)" by (simp add: facts)
  show "char_at 4 (CHR ''-'') (fmt_civil c @ s)" "char_at 7 (CHR ''-'') (fmt_civil c @ s)"
    "char_at 10 (CHR ''T'') (fmt_civil c @ s)" "char_at 13 (CHR '':'') (fmt_civil c @ s)"
    "char_at 16 (CHR '':'') (fmt_civil c @ s)" "drop 19 (fmt_civil c @ s) = s"
    by (simp_all add: facts)
  have "is_digit (pad 2 (c_hour c) ! 1)"
    using b(4) [THEN length_pad_set] by (simp add: list_all_length)
  then have "pad 2 (c_hour c) ! Suc 0 \<noteq> CHR '':''" by (auto simp: is_digit_def)
  then show "widen_hour (fmt_civil c @ s) = fmt_civil c @ s"
    by (simp add: widen_hour_def facts)
qed

lemma parse_fmt_rfc3339:
  assumes "\<bar>off\<bar> < 86400" "off mod 60 = 0" "0 \<le> t div second + 62135596800 + off" "c_year (civil_of off t) < 10000"
  shows "parse_rfc3339_in (fmt_rfc3339_nano off t) = Some (t, off)"
proof -
  define c where "c = civil_of off t"
  have ok: "civil_ok c" by (simp add: c_def civil_of_def civil_of_secs_ok)
  have m: "1 \<le> c_year c" "c_day c \<le> month_lens (c_year c) ! (c_month c - 1)"
    using civil_of_days_month
    by (auto simp: c_def civil_of_def civil_of_secs_def Let_def split_beta intro: surjective_pairing dest: meta_spec)
      (metis prod.collapse)+
  have secs: "int (secs_of_civil c) = t div second + 62135596800 + off"
    using assms(3) by (simp add: c_def civil_of_def civil_of_secs_inverse local_secs_def)
  define days where "days = int (days_of_civil (c_year c + 400) (c_month c) (c_day c)) - 146097"
  have "86400 * days + int (3600 * c_hour c + 60 * c_min c + c_sec c) - 62135596800 - off = t div second"
    using secs by (simp add: days_def days_of_civil_era [OF m(1)] secs_of_civil_def)
  moreover have "t div second * second + int (nat (t mod second)) = t" by (simp add: second_def)
  ultimately have inst: "(86400 * days + int (3600 * c_hour c + 60 * c_min c + c_sec c) - 62135596800 - off) * second
      + int (nat (t mod second)) = t" by simp
  have fmt: "fmt_rfc3339_nano off t = fmt_civil c @ fmt_fraction (nat (t mod second)) @ fmt_zone off"
    by (simp add: fmt_rfc3339_nano_def Let_def c_def fmt_civil_def)
  have "nat (t mod second) < 10 ^ 9" by (simp add: second_def nat_less_iff)
  note frac = parse_fraction_fmt [OF this parse_zone_fmt(2-5) [OF assms(1,2)]]
  note fields = fmt_civil_fields [OF ok assms(4) [folded c_def]]
  show ?thesis
    using ok m inst unfolding fmt
    by (simp add: parse_rfc3339_in_def fields frac parse_zone_fmt(1) [OF assms(1,2)] month_lens_era civil_ok_def
        days_def [symmetric] Let_def del: drop_append)
qed

end
