(* ===== verification/Btrfs.thy ===== *)
theory Btrfs
  imports GoTime
begin

text \<open>
  \<open>internal/btrfs\<close>: the wrapper around the \<open>btrfs\<close> command, the path of a new snapshot and
  the parser of the subvolume listing. The command and the file systems it works on are not
  part of the repository: \<open>X\<close> takes the arguments and the standard input of one run and the
  state of that outside world to a result and the next state.
\<close>

section \<open>Commands\<close>

record cmd_result =
  cr_stdout :: string
  cr_stderr :: string
  cr_combined :: string
  cr_fail :: "goerror option"

type_synonym 'x btrfs_cmd = "string list \<Rightarrow> string \<Rightarrow> 'x \<Rightarrow> cmd_result \<times> 'x"

record snapshot_info =
  si_ID :: int64
  si_UUID :: string
  si_ParentUUID :: string
  si_Path :: string
  si_CreatedAt :: time
  si_IsReadOnly :: bool

definition snapshot_args :: "string \<Rightarrow> string \<Rightarrow> bool \<Rightarrow> string list" where
  "snapshot_args source dest readonly =
     [''subvolume'', ''snapshot''] @ (if readonly then [''-r''] else []) @ [source, dest]"

definition CreateSnapshot ::
    "'x btrfs_cmd \<Rightarrow> string \<Rightarrow> string \<Rightarrow> bool \<Rightarrow> 'x \<Rightarrow> goerror option \<times> 'x" where
  "CreateSnapshot X source dest readonly x =
     (let (res, x') = X (snapshot_args source dest readonly) [] x
      in case cr_fail res of
           Some e \<Rightarrow> (Some (''btrfs snapshot failed: '' @ e @ '' - '' @ cr_combined res), x')
         | None \<Rightarrow> (None, x'))"

definition delete_args :: "string \<Rightarrow> string list" where
  "delete_args path = [''subvolume'', ''delete'', path]"

definition DeleteSnapshot :: "'x btrfs_cmd \<Rightarrow> string \<Rightarrow> 'x \<Rightarrow> goerror option \<times> 'x" where
  "DeleteSnapshot X path x =
     (let (res, x') = X (delete_args path) [] x
      in case cr_fail res of
           Some e \<Rightarrow> (Some (''btrfs delete failed: '' @ e @ '' - '' @ cr_combined res), x')
         | None \<Rightarrow> (None, x'))"

definition SetReadOnly :: "'x btrfs_cmd \<Rightarrow> string \<Rightarrow> bool \<Rightarrow> 'x \<Rightarrow> goerror option \<times> 'x" where
  "SetReadOnly X path readonly x =
     (let (res, x') = X [''property'', ''set'', ''-ts'', path, ''ro'',
                         if readonly then ''true'' else ''false''] [] x
      in case cr_fail res of
           Some e \<Rightarrow> (Some (''btrfs property set failed: '' @ e @ '' - '' @ cr_combined res), x')
         | None \<Rightarrow> (None, x'))"

definition send_args :: "string \<Rightarrow> string \<Rightarrow> string list" where
  "send_args snapshotPath parentPath =
     [''send''] @ (if parentPath \<noteq> [] then [''-p'', parentPath] else []) @ [snapshotPath]"

definition SendSnapshot :: "'x btrfs_cmd \<Rightarrow> string \<Rightarrow> string \<Rightarrow> 'x \<Rightarrow> (goerror + string) \<times> 'x" where
  "SendSnapshot X snapshotPath parentPath x =
     (let (res, x') = X (send_args snapshotPath parentPath) [] x
      in case cr_fail res of
           Some e \<Rightarrow> (Inl (''btrfs send failed: '' @ e @ '' - '' @ cr_stderr res), x')
         | None \<Rightarrow> (Inr (cr_stdout res), x'))"

definition ReceiveSnapshot :: "'x btrfs_cmd \<Rightarrow> string \<Rightarrow> string \<Rightarrow> 'x \<Rightarrow> goerror option \<times> 'x" where
  "ReceiveSnapshot X destPath data x =
     (let (res, x') = X [''receive'', destPath] data x
      in case cr_fail res of
           Some e \<Rightarrow> (Some (''btrfs receive failed: '' @ e @ '' - '' @ cr_stderr res), x')
         | None \<Rightarrow> (None, x'))"

section \<open>The listing\<close>

text \<open>One line of \<open>btrfs subvolume list\<close>: skipped, or one entry.\<close>

definition parse_line :: "string \<Rightarrow> string \<Rightarrow> snapshot_info option" where
  "parse_line basePath raw =
     (let line = trimSpace raw
      in if line = [] \<or> hasPrefix line ''ID'' \<or> hasPrefix line ''--'' then None
         else let fs = GoStd.fields line
              in if length fs < 9 then None
                 else let i = parseUint64 (fs ! 1);
                          path = (case index_of ''path '' line of
                                    None \<Rightarrow> []
                                  | Some p \<Rightarrow> if 0 < p then trimSpace (drop (p + 5) line) else [])
                      in Some \<lparr>si_ID = i, si_UUID = [], si_ParentUUID = [],
                               si_Path = path_join [basePath, path],
                               si_CreatedAt = zero_time, si_IsReadOnly = False\<rparr>)"

definition parseList :: "string \<Rightarrow> string \<Rightarrow> snapshot_info list" where
  "parseList output basePath = List.map_filter (parse_line basePath) (split_on newline output)"

definition list_args :: "string \<Rightarrow> string list" where
  "list_args basePath = [''subvolume'', ''list'', ''-t'', ''-u'', basePath]"

definition ListSnapshots :: "'x btrfs_cmd \<Rightarrow> string \<Rightarrow> 'x \<Rightarrow> (goerror + snapshot_info list) \<times> 'x" where
  "ListSnapshots X basePath x =
     (let (res, x') = X (list_args basePath) [] x
      in case cr_fail res of
           Some e \<Rightarrow> (Inl (''btrfs list failed: '' @ e), x')
         | None \<Rightarrow> (Inr (parseList (cr_combined res) basePath), x'))"

section \<open>Paths of new snapshots\<close>

text \<open>\<open>off\<close> is the offset of the local zone at the instant \<open>now\<close>.\<close>

definition snapshot_file :: "int \<Rightarrow> time \<Rightarrow> string \<Rightarrow> string" where
  "snapshot_file off now name =
     (let ts = fmt_stamp (civil_of off now) in if name \<noteq> [] then name @ ''_'' @ ts else ts)"

definition SnapshotPath :: "int \<Rightarrow> time \<Rightarrow> string \<Rightarrow> string \<Rightarrow> string" where
  "SnapshotPath off now baseDir name =
     path_join [baseDir, ''.snapshots'', snapshot_file off now name]"

text \<open>A world that also keeps the arguments of every command it ran.\<close>

definition logged :: "'x btrfs_cmd \<Rightarrow> (string list list \<times> 'x) btrfs_cmd" where
  "logged X args stdin lx =
     (let (res, x') = X args stdin (snd lx) in (res, (fst lx @ [args], x')))"

lemma logged_simps [simp]:
  "fst (logged X args stdin (l, x)) = fst (X args stdin x)"
  "snd (logged X args stdin (l, x)) = (l @ [args], snd (X args stdin x))"
  by (simp_all add: logged_def case_prod_unfold Let_def)

lemma logged_ops [simp]:
  "DeleteSnapshot (logged X) p (l, x) =
     (fst (DeleteSnapshot X p x), (l @ [delete_args p], snd (DeleteSnapshot X p x)))"
  "CreateSnapshot (logged X) s e ro (l, x) =
     (fst (CreateSnapshot X s e ro x), (l @ [snapshot_args s e ro], snd (CreateSnapshot X s e ro x)))"
  "ListSnapshots (logged X) b (l, x) =
     (fst (ListSnapshots X b x), (l @ [list_args b], snd (ListSnapshots X b x)))"
  by (simp_all add: DeleteSnapshot_def CreateSnapshot_def ListSnapshots_def case_prod_unfold Let_def
      split: option.splits)

section \<open>Where a snapshot goes\<close>

lemma path_join_base:
  assumes "base \<noteq> []"
  shows "path_join [base, d, f] = clean (base @ slash # d @ slash # f)"
  using assms by (simp add: path_join_def)

lemma clean_stack_two:
  assumes "base \<noteq> []" "plain_elem d"
  shows "clean_stack (base @ slash # d @ slash # f) =
    fold (push_elem (rooted base)) (split_on slash f) (d # clean_stack base)"
proof -
  have "split_on slash (d @ slash # f) = d # split_on slash f"
    using assms(2) by (simp add: split_on_append split_plain)
  with assms show ?thesis by (simp add: clean_stack_append)
qed

lemma snapshots_plain: "plain_elem ''.snapshots''"
  by (simp add: plain_elem_def slash_def)

lemma SnapshotPath_stack:
  assumes "base \<noteq> []"
  shows "SnapshotPath off now base name =
    render_path (rooted base)
      (rev (fold (push_elem (rooted base)) (split_on slash (snapshot_file off now name))
              (''.snapshots'' # clean_stack base)))"
  unfolding SnapshotPath_def path_join_base [OF assms] clean_def
  using assms clean_stack_two [OF assms snapshots_plain] by simp

lemma stamp_no_slash: "slash \<notin> set (fmt_stamp c)"
proof
  assume "slash \<in> set (fmt_stamp c)"
  then have "is_digit slash \<or> slash = CHR ''_''" by (rule fmt_stamp_set)
  then show False by (simp add: slash_def is_digit_def)
qed

lemma stamp_underscore: "CHR ''_'' \<in> set (fmt_stamp c)"
  by (simp add: fmt_stamp_def)

lemma snapshot_file_plain: "slash \<notin> set name \<Longrightarrow> plain_elem (snapshot_file off now name)"
proof -
  assume s: "slash \<notin> set name"
  have "CHR ''_'' \<in> set (snapshot_file off now name)"
    by (simp add: snapshot_file_def Let_def stamp_underscore)
  then have "snapshot_file off now name \<noteq> []" "snapshot_file off now name \<noteq> ''.''"
    "snapshot_file off now name \<noteq> ''..''" by auto
  moreover have "slash \<notin> set (snapshot_file off now name)"
    using s stamp_no_slash by (auto simp: snapshot_file_def Let_def slash_def)
  ultimately show ?thesis by (simp add: plain_elem_def)
qed

text \<open>C21: Snapshots stay in their directory. For a name without a slash, the snapshot is
  placed directly in the \<open>.snapshots\<close> directory of the subvolume: the elements of its path
  are those of the cleaned subvolume path, \<open>.snapshots\<close>, and the stamped name.\<close>

theorem snapshot_path_confined:
  assumes "base \<noteq> []" "slash \<notin> set name"
  shows "SnapshotPath off now base name =
    render_path (rooted base)
      (rev (clean_stack base) @ [''.snapshots'', snapshot_file off now name])"
  using SnapshotPath_stack [OF assms(1), of off now name] snapshot_file_plain [OF assms(2), of off now]
  by (simp add: split_plain)

lemmas stamp_simps = civil_of_def local_secs_def second_def civil_of_secs_def civil_of_days_def
  Let_def year_of.simps year_len_def leap_def month_lens_def

lemma stamp_example:
  "fmt_stamp (civil_of 0 (1760000000 * second)) = ''20251009_085320''"
  "fmt_stamp (civil_of 0 (1760000001 * second)) = ''20251009_085321''"
  by (simp_all add: stamp_simps)
    (simp_all add: fmt_stamp_def pad_def go_simps digit_char_def char_of_eq_iff)

theorem snapshot_path_confined_witness:
  "SnapshotPath 0 (1760000000 * second) ''/data/'' ''web'' = ''/data/.snapshots/web_20251009_085320''"
  using snapshot_path_confined [of "''/data/''" "''web''" 0 "1760000000 * second"]
  by (simp add: slash_def snapshot_file_def stamp_example clean_stack_def rooted_def push_elem_def
      render_path_def)

text \<open>A name can leave the directory. Nothing checks the name: \<open>../../n\<close> puts the snapshot
  of a subvolume next to the subvolume itself, outside \<open>.snapshots\<close>.\<close>

theorem snapshot_name_escapes:
  assumes "base \<noteq> []" "clean_stack base = d # ds" "d \<noteq> ''..''" "slash \<notin> set n" "n \<noteq> []"
  shows "SnapshotPath off now base (''../../'' @ n) =
    render_path (rooted base) (rev ds @ [snapshot_file off now n])"
proof -
  have "split_on slash (snapshot_file off now (''../../'' @ n)) =
      [''..'', ''..''] @ split_on slash (snapshot_file off now n)"
    using assms(5) by (simp add: snapshot_file_def slash_def)
  moreover have "split_on slash (snapshot_file off now n) = [snapshot_file off now n]"
    by (rule split_plain [OF snapshot_file_plain [OF assms(4)]])
  ultimately show ?thesis
    using SnapshotPath_stack [OF assms(1)] snapshot_file_plain [OF assms(4), of off now] assms(2,3)
    by (simp add: push_elem_def [of _ "''..''"])
qed

theorem snapshot_name_escapes_witness:
  "SnapshotPath 0 (1760000000 * second) ''/data/web'' ''../../etc'' = ''/data/etc_20251009_085320''"
  using snapshot_name_escapes [of "''/data/web''" "''web''" "[''data'']" "''etc''" 0 "1760000000 * second"]
  by (simp add: slash_def snapshot_file_def stamp_example clean_stack_def rooted_def push_elem_def
      render_path_def)

lemma join_with_snoc: "join_with sep (xs @ [x]) = (if xs = [] then x else join_with sep xs @ sep @ x)"
  by (induction sep xs rule: join_with.induct) auto

lemma render_path_snoc_inj:
  "render_path root (xs @ [a]) = render_path root (xs @ [b]) \<longleftrightarrow> a = b"
  by (simp add: render_path_def join_with_snoc)

lemma snapshot_file_inj:
  assumes "c_year (civil_of off t) < 10000" "c_year (civil_of off t') < 10000"
  shows "snapshot_file off t n = snapshot_file off t' n' \<longleftrightarrow>
    n = n' \<and> local_secs off t = local_secs off t'"
proof
  assume eq: "snapshot_file off t n = snapshot_file off t' n'"
  let ?s = "fmt_stamp (civil_of off t)" and ?s' = "fmt_stamp (civil_of off t')"
  have l: "length ?s = length ?s'"
    using assms by (simp add: civil_of_def length_fmt_stamp civil_of_secs_ok)
  have split: "n = n' \<and> ?s = ?s'"
  proof (cases "n = []"; cases "n' = []")
    assume "n \<noteq> []" "n' \<noteq> []"
    with eq have "(n @ ''_'') @ ?s = (n' @ ''_'') @ ?s'" by (simp add: snapshot_file_def Let_def)
    with l show ?thesis by (metis append_eq_append_conv append_same_eq)
  qed (use eq l in \<open>auto simp: snapshot_file_def Let_def dest: arg_cong [of _ _ length]\<close>)
  then show "n = n' \<and> local_secs off t = local_secs off t'"
    using assms fmt_stamp_inj unfolding civil_of_def by blast
qed (simp add: snapshot_file_def civil_of_def)

text \<open>Snapshot paths identify the snapshot to the second. Two snapshots of one subvolume,
  with names free of slashes, get the same path exactly when they have the same name and were
  taken in the same second of the local clock; a second one in that second collides.\<close>

theorem snapshot_paths_collide_iff:
  assumes "base \<noteq> []" "slash \<notin> set n" "slash \<notin> set n'"
    and "c_year (civil_of off t) < 10000" "c_year (civil_of off t') < 10000"
  shows "SnapshotPath off t base n = SnapshotPath off t' base n' \<longleftrightarrow>
    n = n' \<and> local_secs off t = local_secs off t'"
  using render_path_snoc_inj [of "rooted base" "rev (clean_stack base) @ [''.snapshots'']"]
  by (simp add: snapshot_path_confined assms snapshot_file_inj)

theorem snapshot_paths_collide_iff_witness:
  "SnapshotPath 0 (1760000000 * second) ''/data'' ''web'' \<noteq> SnapshotPath 0 (1760000001 * second) ''/data'' ''web''"
  using snapshot_paths_collide_iff [of "''/data''" "''web''" "''web''" 0 "1760000000 * second"
      "1760000001 * second"]
  by (simp add: stamp_simps slash_def)

section \<open>What the listing yields\<close>

text \<open>A row of columns separated by white space, and a listing of lines.\<close>

definition table_row :: "string \<Rightarrow> (string \<times> string) list \<Rightarrow> string" where
  "table_row c rest = c @ concat (map (\<lambda>p. fst p @ snd p) rest)"

definition graphic_word :: "string \<Rightarrow> bool" where
  "graphic_word w \<longleftrightarrow> w \<noteq> [] \<and> (\<forall>c \<in> set w. ascii_graphic c)"

definition gap :: "string \<Rightarrow> bool" where
  "gap s \<longleftrightarrow> s \<noteq> [] \<and> set s \<subseteq> set ascii_spaces"

lemma fields_gap: "set s \<subseteq> set ascii_spaces \<Longrightarrow> GoStd.fields (s @ r) = GoStd.fields r"
  by (induction s) (simp_all add: fields_space)

lemma fields_table_row:
  assumes "graphic_word c" "\<forall>p \<in> set rest. gap (fst p) \<and> graphic_word (snd p)"
  shows "GoStd.fields (table_row c rest) = c # map snd rest"
  using assms
proof (induction rest arbitrary: c)
  case Nil
  then show ?case by (simp add: table_row_def graphic_word_def fields_word)
next
  case (Cons p rest)
  then obtain x s where s: "fst p = x # s" "x \<in> set ascii_spaces" "set s \<subseteq> set ascii_spaces"
    by (cases "fst p") (auto simp: gap_def)
  have "table_row c (p # rest) = c @ x # s @ table_row (snd p) rest"
    by (simp add: table_row_def s)
  with Cons s show ?case
    by (simp add: graphic_word_def fields_word_space fields_gap)
qed

lemma graphic_ends_row:
  assumes "graphic_word c" "\<forall>p \<in> set rest. gap (fst p) \<and> graphic_word (snd p)"
  shows "graphic_ends (table_row c rest)"
proof -
  have "last (table_row c rest) \<in> (if rest = [] then set c else set (snd (last rest)))"
    using assms by (cases rest rule: rev_cases) (auto simp: table_row_def graphic_word_def)
  moreover have "hd (table_row c rest) \<in> set c" "table_row c rest \<noteq> []"
    using assms(1) by (auto simp: table_row_def graphic_word_def)
  ultimately show ?thesis
    using assms by (auto simp: graphic_ends_def graphic_word_def split: if_splits)
qed

lemma parse_short_row:
  assumes "graphic_word c" "\<forall>p \<in> set rest. gap (fst p) \<and> graphic_word (snd p)" "length rest < 8"
  shows "parse_line base (table_row c rest) = None"
  using assms by (simp add: parse_line_def trimSpace_id graphic_ends_row fields_table_row Let_def)

lemma parse_header:
  assumes "graphic_ends h" "prefix ''ID'' h \<or> prefix ''--'' h"
  shows "parse_line base h = None"
  using assms by (auto simp: parse_line_def trimSpace_id hasPrefix_def)

lemma split_on_lines:
  assumes "ls \<noteq> []" "\<forall>l \<in> set ls. x \<notin> set l"
  shows "split_on x (join_with [x] ls) = ls"
  using assms
proof (induction ls rule: induct_list012)
  case (3 a b ls)
  then show ?case by (simp add: split_on_append split_on_single)
qed (simp_all add: split_on_single)

text \<open>A listing as the command prints it: two header lines, then one row of columns for each
  subvolume.\<close>

definition table_listing :: "(string \<times> (string \<times> string) list) list \<Rightarrow> string" where
  "table_listing rows = join_with [newline]
     ([''ID'' @ [CHR 0x09] @ ''gen'' @ [CHR 0x09] @ ''top level'' @ [CHR 0x09] @ ''uuid'' @ [CHR 0x09] @ ''path'',
       ''--'' @ [CHR 0x09] @ ''---'' @ [CHR 0x09] @ ''---------'' @ [CHR 0x09] @ ''----'' @ [CHR 0x09] @ ''----'']
      @ map (\<lambda>r. table_row (fst r) (snd r)) rows @ [[]])"

definition row_ok :: "string \<times> (string \<times> string) list \<Rightarrow> bool" where
  "row_ok r \<longleftrightarrow> graphic_word (fst r) \<and>
     (\<forall>p \<in> set (snd r). gap (fst p) \<and> newline \<notin> set (fst p) \<and> graphic_word (snd p))"

lemma graphic_no_newline: "graphic_word w \<Longrightarrow> newline \<notin> set w"
  by (auto simp: graphic_word_def newline_def ascii_graphic_def)

lemma split_table_listing:
  "\<forall>r \<in> set rows. row_ok r \<Longrightarrow> split_on newline (table_listing rows) =
     [''ID'' @ [CHR 0x09] @ ''gen'' @ [CHR 0x09] @ ''top level'' @ [CHR 0x09] @ ''uuid'' @ [CHR 0x09] @ ''path'',
      ''--'' @ [CHR 0x09] @ ''---'' @ [CHR 0x09] @ ''---------'' @ [CHR 0x09] @ ''----'' @ [CHR 0x09] @ ''----'']
      @ map (\<lambda>r. table_row (fst r) (snd r)) rows @ [[]]"
  unfolding table_listing_def
  by (rule split_on_lines)
    (auto simp: newline_def [symmetric] table_row_def row_ok_def graphic_no_newline, auto simp: newline_def)

text \<open>A line of fewer than nine fields is skipped, whatever its bytes are.\<close>

definition short_lines :: "string \<Rightarrow> bool" where
  "short_lines out \<longleftrightarrow> (\<forall>l \<in> set (split_on newline out). length (GoStd.fields (trimSpace l)) < 9)"

lemma short_lines_parse: "short_lines out \<Longrightarrow> parseList out base = []"
  by (auto simp: short_lines_def parseList_def parse_line_def Let_def List.map_filter_def filter_empty_conv)

lemma header_short:
  "length (GoStd.fields (trimSpace (''ID'' @ [CHR 0x09] @ ''gen'' @ [CHR 0x09] @ ''top level'' @ [CHR 0x09] @ ''uuid'' @ [CHR 0x09] @ ''path''))) < 9"
  "length (GoStd.fields (trimSpace (''--'' @ [CHR 0x09] @ ''---'' @ [CHR 0x09] @ ''---------'' @ [CHR 0x09] @ ''----'' @ [CHR 0x09] @ ''----''))) < 9"
  "length (GoStd.fields (trimSpace [])) < 9"
proof -
  have row: "length (GoStd.fields (trimSpace (table_row c rest))) = Suc (length rest)"
    if "graphic_word c" "\<forall>p \<in> set rest. gap (fst p) \<and> graphic_word (snd p)" for c rest
    using that by (simp add: trimSpace_id graphic_ends_row fields_table_row)
  show "length (GoStd.fields (trimSpace (''ID'' @ [CHR 0x09] @ ''gen'' @ [CHR 0x09] @ ''top level'' @ [CHR 0x09] @ ''uuid'' @ [CHR 0x09] @ ''path''))) < 9"
    using row [of "''ID''" "[([CHR 0x09], ''gen''), ([CHR 0x09], ''top''), ('' '', ''level''), ([CHR 0x09], ''uuid''), ([CHR 0x09], ''path'')]"]
    by (simp add: table_row_def graphic_word_def gap_def ascii_graphic_def ascii_spaces_def)
  show "length (GoStd.fields (trimSpace (''--'' @ [CHR 0x09] @ ''---'' @ [CHR 0x09] @ ''---------'' @ [CHR 0x09] @ ''----'' @ [CHR 0x09] @ ''----''))) < 9"
    using row [of "''--''" "[([CHR 0x09], ''---''), ([CHR 0x09], ''---------''), ([CHR 0x09], ''----''), ([CHR 0x09], ''----'')]"]
    by (simp add: table_row_def graphic_word_def gap_def ascii_graphic_def ascii_spaces_def)
  show "length (GoStd.fields (trimSpace [])) < 9"
    by (simp add: trimSpace_def trim_left_def trim_right_def trim_with_stop)
qed

lemma table_listing_short:
  assumes "\<forall>r \<in> set rows. row_ok r \<and> length (snd r) < 8"
  shows "short_lines (table_listing rows)"
proof -
  have "length (GoStd.fields (trimSpace (table_row (fst r) (snd r)))) < 9" if "r \<in> set rows" for r
    using assms that by (simp add: row_ok_def trimSpace_id graphic_ends_row fields_table_row)
  then show ?thesis
    using assms header_short by (auto simp: short_lines_def split_table_listing)
qed

text \<open>The parser finds nothing in a table. A row of the format asked for (\<open>-t -u\<close>) has four columns
  and then the path. As long as no path has more than four words, the parsed list is empty, because
  a row is only read when it has nine fields.\<close>

theorem table_listing_yields_nothing:
  assumes "\<forall>r \<in> set rows. row_ok r \<and> length (snd r) < 8"
  shows "parseList (table_listing rows) base = []"
  by (rule short_lines_parse) (rule table_listing_short [OF assms])

theorem table_listing_yields_nothing_witness:
  "parseList (table_listing [(''257'', [([CHR 0x09], ''12''), ([CHR 0x09], ''5''),
     ([CHR 0x09, CHR 0x09], ''6ce2''), ([CHR 0x09], ''.snapshots/web_20251009_085320'')])]) ''/data'' = []"
  by (rule table_listing_yields_nothing)
    (simp add: row_ok_def graphic_word_def gap_def newline_def ascii_spaces_def ascii_graphic_def)

text \<open>
  A path of five words or more makes a row long enough to be read. The parser then looks for the
  word \<open>path\<close>, which a row of the table does not have, and takes the empty path: the entry is the
  subvolume that was listed.
\<close>

definition wordy :: "string \<times> (string \<times> string) list \<Rightarrow> bool" where
  "wordy r \<longleftrightarrow> row_ok r \<and> is_digit (hd (fst r)) \<and> 8 \<le> length (snd r) \<and>
     index_of ''path '' (table_row (fst r) (snd r)) = None"

lemma path_join_empty: "base \<noteq> [] \<Longrightarrow> path_join [base, []] = clean base"
  using clean_stack_append [of base "[]"]
  by (cases base) (simp_all add: path_join_def clean_def rooted_def push_elem_def)

lemma parse_wordy:
  assumes "wordy r" "base \<noteq> []"
  shows "\<exists>i. parse_line base (table_row (fst r) (snd r)) = Some \<lparr>si_ID = i, si_UUID = [],
    si_ParentUUID = [], si_Path = clean base, si_CreatedAt = zero_time, si_IsReadOnly = False\<rparr>"
proof -
  let ?row = "table_row (fst r) (snd r)"
  note w = assms(1) [unfolded wordy_def row_ok_def]
  have ends: "graphic_ends ?row" using w by (intro graphic_ends_row) auto
  obtain c cs where c: "fst r = c # cs" "is_digit c"
    using w by (cases "fst r") (auto simp: graphic_word_def)
  have "?row \<noteq> []" "\<not> hasPrefix ?row ''ID''" "\<not> hasPrefix ?row ''--''"
    using c by (auto simp: hasPrefix_def table_row_def is_digit_def)
  moreover have "length (GoStd.fields ?row) \<ge> 9"
    using w by (simp add: fields_table_row)
  ultimately show ?thesis
    using w path_join_empty [OF assms(2)] by (simp add: parse_line_def Let_def trimSpace_id [OF ends])
qed

lemma parse_wordy_listing:
  assumes "\<forall>r \<in> set rows. wordy r" "base \<noteq> []"
  shows "map si_Path (parseList (table_listing rows) base) = replicate (length rows) (clean base)"
proof -
  have rows: "map si_Path (List.map_filter (parse_line base) (map (\<lambda>r. table_row (fst r) (snd r)) rows)) =
      replicate (length rows) (clean base)"
    using assms(1)
  proof (induction rows)
    case (Cons r rows)
    then show ?case using parse_wordy [of r, OF _ assms(2)] by (auto simp: List.map_filter_simps)
  qed (simp add: List.map_filter_simps)
  have "parse_line base [] = None"
    by (simp add: parse_line_def trimSpace_def trim_left_def trim_right_def trim_with_stop)
  moreover have "\<forall>r \<in> set rows. row_ok r" using assms(1) by (simp add: wordy_def)
  ultimately show ?thesis
    using rows by (simp add: parseList_def split_table_listing parse_header graphic_ends_def ascii_graphic_def
        List.map_filter_def)
qed

end
