(* ===== verification/Scheduler.thy ===== *)
theory Scheduler
  imports Btrfs
begin

text \<open>
  \<open>internal/scheduler\<close>: the policies, their entries in the cron table, and the job a policy
  runs: a snapshot, then retention. The cron library is not part of the repository: it is the
  argument \<open>K\<close>, whose table holds for every entry the policy that its job captured.
\<close>

section \<open>Policies and the cron table\<close>

record policy =
  sp_ID :: string
  sp_Name :: string
  sp_NodeID :: string
  sp_SubvolumePath :: string
  sp_Schedule :: string
  sp_RetentionHourly :: int
  sp_RetentionDaily :: int
  sp_RetentionWeekly :: int
  sp_RetentionMonthly :: int
  sp_ReadOnly :: bool
  sp_Replicate :: bool
  sp_Enabled :: bool

record 'c cron =
  cron_new :: 'c
  cron_AddFunc :: "string \<Rightarrow> policy \<Rightarrow> 'c \<Rightarrow> (goerror + nat) \<times> 'c"
  cron_Remove :: "nat \<Rightarrow> 'c \<Rightarrow> 'c"
  cron_Stop :: "'c \<Rightarrow> 'c"
  cron_entries :: "'c \<Rightarrow> nat \<rightharpoonup> policy"
  cron_Next :: "'c \<Rightarrow> nat \<Rightarrow> time"

record 'c scheduler =
  sc_policies :: "string \<rightharpoonup> policy"
  sc_entryIDs :: "string \<rightharpoonup> nat"
  sc_cron :: 'c

definition NewScheduler :: "'c cron \<Rightarrow> 'c scheduler" where
  "NewScheduler K = \<lparr>sc_policies = Map.empty, sc_entryIDs = Map.empty, sc_cron = cron_new K\<rparr>"

definition schedule_of :: "policy \<Rightarrow> string" where
  "schedule_of p = (if sp_Schedule p = [] then ''0 * * * *'' else sp_Schedule p)"

definition single_quoted :: "string \<Rightarrow> string" where
  "single_quoted s = CHR 0x27 # s @ [CHR 0x27]"

definition AddPolicy :: "'c cron \<Rightarrow> policy \<Rightarrow> 'c scheduler \<Rightarrow> goerror option \<times> 'c scheduler" where
  "AddPolicy K p s =
     (let s1 = s\<lparr>sc_policies := (sc_policies s)(sp_ID p \<mapsto> p)\<rparr>
      in if \<not> sp_Enabled p then (None, s1)
         else let r = cron_AddFunc K (schedule_of p) p (sc_cron s1);
                  s2 = s1\<lparr>sc_cron := snd r\<rparr>
              in case fst r of
                   Inl e \<Rightarrow> (Some (''schedule inv'' @ [CHR 0xC3, CHR 0xA1] @ ''lido ''
                              @ single_quoted (schedule_of p) @ '': '' @ e), s2)
                 | Inr i \<Rightarrow> (None, s2\<lparr>sc_entryIDs := (sc_entryIDs s2)(sp_ID p \<mapsto> i)\<rparr>))"

definition RemovePolicy :: "'c cron \<Rightarrow> string \<Rightarrow> 'c scheduler \<Rightarrow> 'c scheduler" where
  "RemovePolicy K i s =
     (let s1 = (case sc_entryIDs s i of
                  Some e \<Rightarrow> s\<lparr>sc_cron := cron_Remove K e (sc_cron s),
                              sc_entryIDs := map_delete i (sc_entryIDs s)\<rparr>
                | None \<Rightarrow> s)
      in s1\<lparr>sc_policies := map_delete i (sc_policies s1)\<rparr>)"

definition UpdatePolicy :: "'c cron \<Rightarrow> policy \<Rightarrow> 'c scheduler \<Rightarrow> goerror option \<times> 'c scheduler" where
  "UpdatePolicy K p s = AddPolicy K p (RemovePolicy K (sp_ID p) s)"

text \<open>Go iterates a map in any order: \<open>order\<close> is the order of this iteration.\<close>

definition ListPolicies :: "string list \<Rightarrow> 'c scheduler \<Rightarrow> policy list" where
  "ListPolicies order s = List.map_filter (sc_policies s) order"

definition NextRun :: "'c cron \<Rightarrow> string \<Rightarrow> 'c scheduler \<Rightarrow> time option" where
  "NextRun K i s = map_option (cron_Next K (sc_cron s)) (sc_entryIDs s i)"

definition Stop :: "'c cron \<Rightarrow> 'c scheduler \<Rightarrow> 'c scheduler" where
  "Stop K s = s\<lparr>sc_cron := cron_Stop K (sc_cron s)\<rparr>"

section \<open>The job of a policy\<close>

definition max_to_keep :: "policy \<Rightarrow> nat" where
  "max_to_keep p = (if sp_RetentionDaily p \<le> 0 then 7 else nat (sp_RetentionDaily p))"

definition delete_all :: "'x btrfs_cmd \<Rightarrow> snapshot_info list \<Rightarrow> 'x \<Rightarrow> 'x" where
  "delete_all X snaps x = fold (\<lambda>snap x. snd (DeleteSnapshot X (si_Path snap) x)) snaps x"

definition applyRetention :: "'x btrfs_cmd \<Rightarrow> policy \<Rightarrow> 'x \<Rightarrow> 'x" where
  "applyRetention X p x =
     (let (res, x') = ListSnapshots X (sp_SubvolumePath p) x
      in case res of
           Inl e \<Rightarrow> x'
         | Inr snapshots \<Rightarrow>
             if length snapshots \<le> max_to_keep p then x'
             else delete_all X (drop (max_to_keep p) snapshots) x')"

definition execute :: "'x btrfs_cmd \<Rightarrow> int \<Rightarrow> time \<Rightarrow> policy \<Rightarrow> 'x \<Rightarrow> 'x" where
  "execute X off now p x =
     (let snapPath = SnapshotPath off now (sp_SubvolumePath p) (sp_Name p);
          (err, x') = CreateSnapshot X (sp_SubvolumePath p) snapPath (sp_ReadOnly p) x
      in case err of Some _ \<Rightarrow> x' | None \<Rightarrow> applyRetention X p x')"

section \<open>What the code relies on\<close>

text \<open>
  The documented behaviour of the cron library: a new entry has a new identifier, a schedule
  that is refused adds nothing, and removal takes away one entry. The scheduler asks for the
  parser with seconds, which wants exactly six fields (or a descriptor, which starts with an
  at sign, or a time zone in front).
\<close>

definition cron_ok :: "'c cron \<Rightarrow> bool" where
  "cron_ok K \<longleftrightarrow>
     cron_entries K (cron_new K) = Map.empty
     \<and> (\<forall>spec p c r c'. cron_AddFunc K spec p c = (r, c') \<longrightarrow>
          (case r of Inl _ \<Rightarrow> cron_entries K c' = cron_entries K c
           | Inr i \<Rightarrow> cron_entries K c i = None \<and> cron_entries K c' = (cron_entries K c)(i \<mapsto> p)))
     \<and> (\<forall>i c. cron_entries K (cron_Remove K i c) = map_delete i (cron_entries K c))"

definition six_fields :: "string \<Rightarrow> bool" where
  "six_fields spec \<longleftrightarrow> length (GoStd.fields spec) = 6 \<or> hasPrefix spec ''@''
     \<or> hasPrefix spec ''TZ='' \<or> hasPrefix spec ''CRON_TZ=''"

definition seconds_law :: "'c cron \<Rightarrow> bool" where
  "seconds_law K \<longleftrightarrow> (\<forall>spec p c. \<not> six_fields spec \<longrightarrow> isl (fst (cron_AddFunc K spec p c)))"

text \<open>A table with a counter behaves like this.\<close>

definition ref_cron :: "(nat \<times> (nat \<rightharpoonup> policy)) cron" where
  "ref_cron =
     \<lparr>cron_new = (0, Map.empty),
      cron_AddFunc = (\<lambda>spec p c.
         if six_fields spec \<and> snd c (Suc (fst c)) = None
         then (Inr (Suc (fst c)), (Suc (fst c), (snd c)(Suc (fst c) \<mapsto> p)))
         else (Inl ''expected exactly 6 fields'', c)),
      cron_Remove = (\<lambda>i c. (fst c, map_delete i (snd c))),
      cron_Stop = (\<lambda>c. c),
      cron_entries = snd,
      cron_Next = (\<lambda>c i. zero_time)\<rparr>"

lemma ref_cron_ok: "cron_ok ref_cron" "seconds_law ref_cron"
  by (simp_all add: cron_ok_def seconds_law_def ref_cron_def split: sum.splits)

section \<open>Policies and entries\<close>

text \<open>Every entry belongs to a registered policy and is the entry recorded for it.\<close>

definition entries_owned :: "'c cron \<Rightarrow> 'c scheduler \<Rightarrow> bool" where
  "entries_owned K s \<longleftrightarrow>
     dom (sc_entryIDs s) \<subseteq> dom (sc_policies s)
     \<and> (\<forall>i e. sc_entryIDs s i = Some e \<longrightarrow>
          (\<exists>p. cron_entries K (sc_cron s) e = Some p \<and> sp_ID p = i \<and> sp_Enabled p))
     \<and> (\<forall>e p. cron_entries K (sc_cron s) e = Some p \<longrightarrow> sc_entryIDs s (sp_ID p) = Some e)"

datatype sched_event = EAdd policy | ERemove string | EUpdate policy

definition sched_step ::
    "'c cron \<Rightarrow> sched_event \<Rightarrow> 'c scheduler \<Rightarrow> goerror option \<times> 'c scheduler" where
  "sched_step K ev s =
     (case ev of EAdd p \<Rightarrow> AddPolicy K p s | ERemove i \<Rightarrow> (None, RemovePolicy K i s)
      | EUpdate p \<Rightarrow> UpdatePolicy K p s)"

text \<open>The callers add a policy under a new identifier only.\<close>

definition sched_pre :: "'c scheduler \<Rightarrow> sched_event \<Rightarrow> bool" where
  "sched_pre s ev = (case ev of EAdd p \<Rightarrow> sc_policies s (sp_ID p) = None | _ \<Rightarrow> True)"

lemma cron_add_ok:
  assumes "cron_ok K" "cron_AddFunc K spec p c = (Inr i, c')"
  shows "cron_entries K c i = None" "cron_entries K c' = (cron_entries K c)(i \<mapsto> p)"
  using assms unfolding cron_ok_def by fastforce+

lemma cron_add_refused:
  "cron_ok K \<Longrightarrow> cron_AddFunc K spec p c = (Inl e, c') \<Longrightarrow> cron_entries K c' = cron_entries K c"
  unfolding cron_ok_def by fastforce

lemma cron_remove: "cron_ok K \<Longrightarrow> cron_entries K (cron_Remove K i c) = map_delete i (cron_entries K c)"
  unfolding cron_ok_def by blast

lemma NewScheduler_owned: "cron_ok K \<Longrightarrow> entries_owned K (NewScheduler K)"
  by (simp add: entries_owned_def NewScheduler_def cron_ok_def)

text \<open>Adding a policy that has no entry yet: the three outcomes.\<close>

lemma AddPolicy_cases:
  assumes "cron_ok K"
  obtains (disabled) "\<not> sp_Enabled p" "AddPolicy K p s = (None, s\<lparr>sc_policies := (sc_policies s)(sp_ID p \<mapsto> p)\<rparr>)"
  | (refused) e c where "sp_Enabled p" "cron_AddFunc K (schedule_of p) p (sc_cron s) = (Inl e, c)"
      "fst (AddPolicy K p s) \<noteq> None"
      "snd (AddPolicy K p s) = s\<lparr>sc_policies := (sc_policies s)(sp_ID p \<mapsto> p), sc_cron := c\<rparr>"
      "cron_entries K c = cron_entries K (sc_cron s)"
  | (added) i c where "sp_Enabled p" "cron_AddFunc K (schedule_of p) p (sc_cron s) = (Inr i, c)"
      "AddPolicy K p s = (None, s\<lparr>sc_policies := (sc_policies s)(sp_ID p \<mapsto> p),
         sc_entryIDs := (sc_entryIDs s)(sp_ID p \<mapsto> i), sc_cron := c\<rparr>)"
      "cron_entries K (sc_cron s) i = None"
      "cron_entries K c = (cron_entries K (sc_cron s))(i \<mapsto> p)"
proof (cases "sp_Enabled p")
  case False
  then show thesis by (intro disabled) (simp_all add: AddPolicy_def Let_def)
next
  case True
  obtain r c where r: "cron_AddFunc K (schedule_of p) p (sc_cron s) = (r, c)" by fastforce
  show thesis
  proof (cases r)
    case (Inl e)
    with True r cron_add_refused [OF assms] show thesis
      by (intro refused [of e c]) (simp_all add: AddPolicy_def Let_def)
  next
    case (Inr i)
    with True r cron_add_ok [OF assms] show thesis
      by (intro added [of i c]) (simp_all add: AddPolicy_def Let_def)
  qed
qed

lemma AddPolicy_owned:
  assumes "cron_ok K" "entries_owned K s" "sc_entryIDs s (sp_ID p) = None"
  shows "entries_owned K (snd (AddPolicy K p s))"
  using assms(1)
proof (cases rule: AddPolicy_cases [of K p s])
  case disabled
  with assms show ?thesis by (auto simp: entries_owned_def)
next
  case (refused e c)
  with assms show ?thesis by (auto simp: entries_owned_def)
next
  case (added i c)
  then show ?thesis
    using assms unfolding entries_owned_def by (auto split: if_splits; metis option.distinct(1))
qed

lemma RemovePolicy_owned:
  assumes "cron_ok K" "entries_owned K s"
  shows "entries_owned K (RemovePolicy K i s)" "sc_entryIDs (RemovePolicy K i s) i = None"
    "sc_policies (RemovePolicy K i s) i = None"
proof -
  show "entries_owned K (RemovePolicy K i s)"
  proof (cases "sc_entryIDs s i")
    case None
    with assms(2) show ?thesis
      by (auto simp: entries_owned_def RemovePolicy_def Let_def map_delete_def)
  next
    case (Some e)
    have inj: "j = i" if "sc_entryIDs s j = Some e" for j
      using assms(2) that Some unfolding entries_owned_def by (metis option.inject)
    have eq: "RemovePolicy K i s = s\<lparr>sc_cron := cron_Remove K e (sc_cron s),
        sc_entryIDs := map_delete i (sc_entryIDs s), sc_policies := map_delete i (sc_policies s)\<rparr>"
      using Some by (simp add: RemovePolicy_def Let_def)
    have own: "dom (sc_entryIDs s) \<subseteq> dom (sc_policies s)"
      "\<And>j f. sc_entryIDs s j = Some f \<Longrightarrow>
         \<exists>p. cron_entries K (sc_cron s) f = Some p \<and> sp_ID p = j \<and> sp_Enabled p"
      "\<And>f p. cron_entries K (sc_cron s) f = Some p \<Longrightarrow> sc_entryIDs s (sp_ID p) = Some f"
      using assms(2) by (auto simp: entries_owned_def)
    have "\<exists>p. map_delete e (cron_entries K (sc_cron s)) f = Some p \<and> sp_ID p = j \<and> sp_Enabled p"
      if "map_delete i (sc_entryIDs s) j = Some f" for j f
      using own(2) [of j f] inj [of j] that by (auto simp: map_delete_def split: if_splits)
    moreover have "map_delete i (sc_entryIDs s) (sp_ID p) = Some f"
      if "map_delete e (cron_entries K (sc_cron s)) f = Some p" for f p
      using own(3) [of f p] that Some by (auto simp: map_delete_def split: if_splits)
    ultimately show ?thesis
      using own(1) by (auto simp: entries_owned_def eq cron_remove [OF assms(1)])
  qed
  show "sc_entryIDs (RemovePolicy K i s) i = None" "sc_policies (RemovePolicy K i s) i = None"
    by (simp_all add: RemovePolicy_def Let_def split: option.splits)
qed

lemma sched_step_owned:
  assumes "cron_ok K" "entries_owned K s" "sched_pre s ev"
  shows "entries_owned K (snd (sched_step K ev s))"
proof (cases ev)
  case (EAdd p)
  then have "sc_entryIDs s (sp_ID p) = None"
    using assms(2,3) by (auto simp: sched_pre_def entries_owned_def)
  with assms EAdd show ?thesis by (simp add: sched_step_def AddPolicy_owned)
next
  case (ERemove i)
  with assms show ?thesis by (simp add: sched_step_def RemovePolicy_owned)
next
  case (EUpdate p)
  with assms show ?thesis
    by (simp add: sched_step_def UpdatePolicy_def AddPolicy_owned RemovePolicy_owned)
qed

interpretation sched: machine "sched_step K" sched_pre "\<lambda>s. cron_ok K \<and> entries_owned K s"
  by unfold_locales (simp add: sched_step_owned)

text \<open>C16: A removed policy never runs again. After any sequence of additions of new policies,
  removals and updates, removing a policy leaves no cron entry whose job is that policy.\<close>

theorem removed_policy_never_runs:
  assumes "cron_ok K" "valid_run sched_pre (sched_step K) evs (NewScheduler K)"
    and "s = RemovePolicy K i (snd (run (sched_step K) evs (NewScheduler K)))"
  shows "\<forall>e p. cron_entries K (sc_cron s) e = Some p \<longrightarrow> sp_ID p \<noteq> i"
proof -
  have "entries_owned K (snd (run (sched_step K) evs (NewScheduler K)))"
    using sched.run_inv [OF _ assms(2)] NewScheduler_owned assms(1) by blast
  then have "entries_owned K s" "sc_entryIDs s i = None"
    using RemovePolicy_owned [OF assms(1)] assms(3) by auto
  then show ?thesis by (auto simp: entries_owned_def)
qed

definition demo_policy :: policy where
  "demo_policy =
     \<lparr>sp_ID = ''p1'', sp_Name = ''web'', sp_NodeID = ''n1'', sp_SubvolumePath = ''/data'',
      sp_Schedule = ''0 0 3 * * *'', sp_RetentionHourly = 0, sp_RetentionDaily = 2,
      sp_RetentionWeekly = 0, sp_RetentionMonthly = 0, sp_ReadOnly = True, sp_Replicate = False,
      sp_Enabled = True\<rparr>"

lemma demo_schedule: "six_fields ''0 0 3 * * *''" "\<not> six_fields ''0 * * * *''"
proof -
  have "GoStd.fields (table_row ''0'' [('' '', ''0''), ('' '', ''3''), ('' '', ''*''), ('' '', ''*''), ('' '', ''*'')])
      = [''0'', ''0'', ''3'', ''*'', ''*'', ''*'']"
    by (subst fields_table_row) (simp_all add: graphic_word_def gap_def ascii_graphic_def ascii_spaces_def)
  then show "six_fields ''0 0 3 * * *''" by (simp add: six_fields_def table_row_def)
  have "GoStd.fields (table_row ''0'' [('' '', ''*''), ('' '', ''*''), ('' '', ''*''), ('' '', ''*'')])
      = [''0'', ''*'', ''*'', ''*'', ''*'']"
    by (subst fields_table_row) (simp_all add: graphic_word_def gap_def ascii_graphic_def ascii_spaces_def)
  then show "\<not> six_fields ''0 * * * *''" by (simp add: six_fields_def hasPrefix_def table_row_def)
qed

lemmas sched_eval = AddPolicy_def RemovePolicy_def UpdatePolicy_def sched_step_def sched_pre_def
  NewScheduler_def ref_cron_def schedule_of_def demo_schedule

theorem removed_policy_never_runs_witness:
  "let s = snd (run (sched_step ref_cron) [EAdd demo_policy, EUpdate (demo_policy\<lparr>sp_Name := ''db''\<rparr>)]
        (NewScheduler ref_cron))
   in cron_entries ref_cron (sc_cron s) 2 \<noteq> None
      \<and> \<not> (\<exists>e p. cron_entries ref_cron (sc_cron (RemovePolicy ref_cron ''p1'' s)) e = Some p
            \<and> sp_ID p = ''p1'')"
  using removed_policy_never_runs [OF ref_cron_ok(1), of
      "[EAdd demo_policy, EUpdate (demo_policy\<lparr>sp_Name := ''db''\<rparr>)]" _ "''p1''", OF _ refl]
  by (simp add: sched_eval demo_policy_def Let_def)




text \<open>Adding a policy again leaks its old job. If a scheduled policy is added a second
  time under the same identifier without removing it first, both jobs are in the cron table,
  and removing the policy afterwards leaves the first one running.\<close>

theorem readded_policy_keeps_running:
  assumes "cron_ok K" "sp_ID q = sp_ID p" "sp_Enabled p" "sp_Enabled q"
    and "AddPolicy K p s = (None, s1)" "AddPolicy K q s1 = (None, s2)"
  shows "\<exists>e. cron_entries K (sc_cron (RemovePolicy K (sp_ID p) s2)) e = Some p
    \<and> sc_policies (RemovePolicy K (sp_ID p) s2) (sp_ID p) = None"
proof -
  from assms(1,3,5) have "\<exists>e. cron_entries K (sc_cron s1) e = Some p"
    by (cases rule: AddPolicy_cases [of K p s]) auto
  then obtain e where e: "cron_entries K (sc_cron s1) e = Some p" ..
  from assms(1,4,6) obtain f where f: "cron_entries K (sc_cron s1) f = None"
    "cron_entries K (sc_cron s2) = (cron_entries K (sc_cron s1))(f \<mapsto> q)"
    "sc_entryIDs s2 (sp_ID q) = Some f"
    by (cases rule: AddPolicy_cases [of K q s1]) auto
  from e f have "e \<noteq> f" by auto
  then have "cron_entries K (sc_cron (RemovePolicy K (sp_ID p) s2)) e = Some p"
    using e f assms(1,2) by (simp add: RemovePolicy_def Let_def cron_remove map_delete_def)
  then show ?thesis by (auto simp: RemovePolicy_def Let_def split: option.splits)
qed

theorem readded_policy_keeps_running_witness:
  "\<exists>e. cron_entries ref_cron (sc_cron (RemovePolicy ref_cron ''p1''
      (snd (AddPolicy ref_cron demo_policy (snd (AddPolicy ref_cron demo_policy (NewScheduler ref_cron))))))) e
    = Some demo_policy"
  using readded_policy_keeps_running [OF ref_cron_ok(1), of demo_policy demo_policy "NewScheduler ref_cron"
      "snd (AddPolicy ref_cron demo_policy (NewScheduler ref_cron))"
      "snd (AddPolicy ref_cron demo_policy (snd (AddPolicy ref_cron demo_policy (NewScheduler ref_cron))))"]
  by (auto simp: sched_eval demo_policy_def Let_def)

lemma add_default_schedule:
  assumes "cron_ok K" "seconds_law K" "entries_owned K s"
    and "sp_Enabled p" "sp_Schedule p = []" "sc_policies s (sp_ID p) = None"
  shows "(\<exists>e. fst (AddPolicy K p s) = Some e) \<and>
    sc_policies (snd (AddPolicy K p s)) (sp_ID p) = Some p \<and>
    NextRun K (sp_ID p) (snd (AddPolicy K p s)) = None \<and>
    (\<forall>e q. cron_entries K (sc_cron (snd (AddPolicy K p s))) e = Some q \<longrightarrow> sp_ID q \<noteq> sp_ID p)"
proof -
  have none: "sc_entryIDs s (sp_ID p) = None"
    using assms(3,6) by (auto simp: entries_owned_def)
  have ref: "isl (fst (cron_AddFunc K (schedule_of p) p (sc_cron s)))"
    using assms(2,5) demo_schedule(2) by (simp add: seconds_law_def schedule_of_def)
  from assms(1) show ?thesis
  proof (cases rule: AddPolicy_cases [of K p s])
    case disabled
    with assms(4) show ?thesis by simp
  next
    case (refused e c)
    have "sp_ID q \<noteq> sp_ID p" if "cron_entries K c e' = Some q" for e' q
      using assms(3) none that refused(5) unfolding entries_owned_def by (metis option.distinct(1))
    with none refused show ?thesis by (auto simp: NextRun_def)
  next
    case (added i c)
    with ref show ?thesis by simp
  qed
qed

text \<open>The default schedule is refused. An enabled policy without a schedule gets one of
  five fields, which the parser with seconds does not accept: adding it reports an error, the
  policy is listed all the same, and no job runs for it.\<close>

theorem default_schedule_refused:
  assumes "cron_ok K" "seconds_law K" "entries_owned K s"
    and "sp_Enabled p" "sp_Schedule p = []" "sc_policies s (sp_ID p) = None"
  shows "(\<exists>e. fst (AddPolicy K p s) = Some e) \<and>
    sc_policies (snd (AddPolicy K p s)) (sp_ID p) = Some p \<and>
    NextRun K (sp_ID p) (snd (AddPolicy K p s)) = None \<and>
    (\<forall>e q. cron_entries K (sc_cron (snd (AddPolicy K p s))) e = Some q \<longrightarrow> sp_ID q \<noteq> sp_ID p)"
  using add_default_schedule [OF assms] .

theorem default_schedule_refused_witness:
  "let s = snd (AddPolicy ref_cron (demo_policy\<lparr>sp_Schedule := []\<rparr>) (NewScheduler ref_cron))
   in sc_policies s ''p1'' = Some (demo_policy\<lparr>sp_Schedule := []\<rparr>) \<and> NextRun ref_cron ''p1'' s = None"
  using default_schedule_refused [OF ref_cron_ok NewScheduler_owned [OF ref_cron_ok(1)],
      of "demo_policy\<lparr>sp_Schedule := []\<rparr>"]
  by (simp add: demo_policy_def NewScheduler_def Let_def)

section \<open>Retention\<close>

lemma delete_all_logged:
  "delete_all (logged X) snaps (l, x) =
     (l @ map (\<lambda>snap. delete_args (si_Path snap)) snaps, delete_all X snaps x)"
  by (induction snaps arbitrary: l x) (simp_all add: delete_all_def)

lemma applyRetention_logged:
  "applyRetention (logged X) p (l, x) =
     (l @ list_args (sp_SubvolumePath p) #
        (case fst (ListSnapshots X (sp_SubvolumePath p) x) of Inl _ \<Rightarrow> []
         | Inr snaps \<Rightarrow> map (\<lambda>snap. delete_args (si_Path snap)) (drop (max_to_keep p) snaps)),
      applyRetention X p x)"
  by (simp add: applyRetention_def case_prod_unfold Let_def delete_all_logged split: sum.splits)

text \<open>What retention asks btrfs to delete, and what a whole run does.\<close>

definition retention_paths :: "'x btrfs_cmd \<Rightarrow> policy \<Rightarrow> 'x \<Rightarrow> string list" where
  "retention_paths X p x =
     (case fst (ListSnapshots X (sp_SubvolumePath p) x) of
        Inl _ \<Rightarrow> []
      | Inr snaps \<Rightarrow> map si_Path (drop (max_to_keep p) snaps))"

definition run_deletes :: "'x btrfs_cmd \<Rightarrow> int \<Rightarrow> time \<Rightarrow> policy \<Rightarrow> 'x \<Rightarrow> string list" where
  "run_deletes X off now p x =
     (let (err, x') = CreateSnapshot X (sp_SubvolumePath p)
            (SnapshotPath off now (sp_SubvolumePath p) (sp_Name p)) (sp_ReadOnly p) x
      in if err = None then retention_paths X p x' else [])"

lemma retention_paths_short:
  assumes "short_lines (cr_combined (fst (X (list_args (sp_SubvolumePath p)) [] x)))"
  shows "retention_paths X p x = []"
  using short_lines_parse [OF assms]
  by (simp add: retention_paths_def ListSnapshots_def case_prod_unfold Let_def split: option.split)

text \<open>The commands of one run of a policy, in order.\<close>

definition run_commands :: "'x btrfs_cmd \<Rightarrow> int \<Rightarrow> time \<Rightarrow> policy \<Rightarrow> 'x \<Rightarrow> string list list" where
  "run_commands X off now p x = fst (execute (logged X) off now p ([], x))"

lemma run_commands_eq:
  "run_commands X off now p x =
     (let sub = sp_SubvolumePath p; path = SnapshotPath off now sub (sp_Name p);
          r = CreateSnapshot X sub path (sp_ReadOnly p) x
      in snapshot_args sub path (sp_ReadOnly p) #
         (if fst r \<noteq> None then []
          else list_args sub #
            (case fst (ListSnapshots X sub (snd r)) of
               Inl _ \<Rightarrow> []
             | Inr snaps \<Rightarrow> map (\<lambda>snap. delete_args (si_Path snap)) (drop (max_to_keep p) snaps))))"
  by (simp add: run_commands_def execute_def case_prod_unfold Let_def applyRetention_logged
      split: option.split)

text \<open>What a run of a policy does. It snapshots the subvolume; when that fails it stops;
  otherwise it lists the subvolume and deletes exactly the entries of the listing after the
  first \<open>RetentionDaily\<close> ones (the first seven, if that is not positive), whether or not
  single deletions fail.\<close>

theorem policy_run_commands:
  "run_commands X off now p x =
     (let sub = sp_SubvolumePath p; path = SnapshotPath off now sub (sp_Name p);
          keep = (if sp_RetentionDaily p \<le> 0 then 7 else nat (sp_RetentionDaily p));
          (err, x1) = CreateSnapshot X sub path (sp_ReadOnly p) x
      in snapshot_args sub path (sp_ReadOnly p) #
         (if err \<noteq> None then []
          else list_args sub #
            (case fst (ListSnapshots X sub x1) of
               Inl _ \<Rightarrow> []
             | Inr snaps \<Rightarrow> map (\<lambda>snap. delete_args (si_Path snap)) (drop keep snaps))))"
  by (simp only: run_commands_eq case_prod_unfold Let_def max_to_keep_def)

text \<open>A world in which every command succeeds and prints \<open>out\<close>.\<close>

definition listing_world :: "string \<Rightarrow> unit btrfs_cmd" where
  "listing_world out args stdin x =
     (\<lparr>cr_stdout = out, cr_stderr = [], cr_combined = out, cr_fail = None\<rparr>, ())"

lemma run_commands_deletes:
  "run_commands X off now p x =
     snapshot_args (sp_SubvolumePath p) (SnapshotPath off now (sp_SubvolumePath p) (sp_Name p)) (sp_ReadOnly p) #
     (if fst (CreateSnapshot X (sp_SubvolumePath p) (SnapshotPath off now (sp_SubvolumePath p) (sp_Name p)) (sp_ReadOnly p) x) = None
      then list_args (sp_SubvolumePath p) # map delete_args (run_deletes X off now p x) else [])"
  by (simp add: run_commands_eq run_deletes_def retention_paths_def case_prod_unfold Let_def split: sum.split)

lemma in_set_drop_iff: "x \<in> set (drop k xs) \<longleftrightarrow> (\<exists>i < length xs. k \<le> i \<and> xs ! i = x)"
proof
  assume "x \<in> set (drop k xs)"
  then obtain j where "j < length xs - k" "drop k xs ! j = x" by (auto simp: in_set_conv_nth)
  then show "\<exists>i < length xs. k \<le> i \<and> xs ! i = x" by (intro exI [of _ "k + j"]) simp
next
  assume "\<exists>i < length xs. k \<le> i \<and> xs ! i = x"
  then obtain i where "i < length xs" "k \<le> i" "xs ! i = x" by blast
  then show "x \<in> set (drop k xs)" by (auto simp: in_set_conv_nth intro!: exI [of _ "i - k"])
qed

lemma other_commands: "delete_args a \<noteq> snapshot_args b c d" "delete_args a \<noteq> list_args b"
  by (auto simp: delete_args_def snapshot_args_def list_args_def)

lemma delete_args_inj: "delete_args a = delete_args b \<longleftrightarrow> a = b"
  by (simp add: delete_args_def)

text \<open>C19: Retention goes by the position in the listing. In a run of a policy whose snapshot and
  listing succeed, the deletion of a path is asked for exactly when one of the entries after the
  first \<open>RetentionDaily\<close> ones (the first seven, if that is not positive) has that path; so an entry
  among the first ones whose path no later entry repeats is never deleted, and a listing that is no
  longer than that leads to no deletion at all. The entries are those the parser read, in the order
  btrfs printed them: nothing is said, or done, about their age.\<close>

theorem retention_keeps_first:
  assumes "CreateSnapshot X (sp_SubvolumePath p) (SnapshotPath off now (sp_SubvolumePath p) (sp_Name p))
      (sp_ReadOnly p) x = (None, x1)"
    and "fst (ListSnapshots X (sp_SubvolumePath p) x1) = Inr snaps"
    and "keep = (if sp_RetentionDaily p \<le> 0 then 7 else nat (sp_RetentionDaily p))"
  shows "(\<forall>q. delete_args q \<in> set (run_commands X off now p x) \<longleftrightarrow>
      (\<exists>i < length snaps. keep \<le> i \<and> si_Path (snaps ! i) = q)) \<and>
    (length snaps \<le> keep \<longrightarrow> (\<forall>q. delete_args q \<notin> set (run_commands X off now p x)))"
proof -
  have "run_deletes X off now p x = map si_Path (drop keep snaps)"
    using assms by (simp add: run_deletes_def retention_paths_def max_to_keep_def)
  then have del: "delete_args q \<in> set (run_commands X off now p x) \<longleftrightarrow> q \<in> set (map si_Path (drop keep snaps))" for q
    using assms(1) by (auto simp: run_commands_deletes other_commands delete_args_inj image_iff)
  moreover have "q \<in> set (map si_Path (drop keep snaps)) \<longleftrightarrow>
      (\<exists>i < length snaps. keep \<le> i \<and> si_Path (snaps ! i) = q)" for q
    by (simp only: set_map image_iff Bex_def in_set_drop_iff) blast
  ultimately show ?thesis by auto
qed

lemma parse_nine_fields:
  assumes "row = table_row c rest" "graphic_word c" "\<not> prefix ''ID'' row" "\<not> prefix ''--'' row"
    and "\<forall>p \<in> set rest. gap (fst p) \<and> graphic_word (snd p)" "8 \<le> length rest"
    and "index_of ''path '' row = Some k" "0 < k" "graphic_ends (drop (k + 5) row)"
  shows "parse_line base row = Some \<lparr>si_ID = parseUint64 (snd (rest ! 0)), si_UUID = [],
    si_ParentUUID = [], si_Path = path_join [base, drop (k + 5) row], si_CreatedAt = zero_time,
    si_IsReadOnly = False\<rparr>"
proof -
  have "graphic_ends row" using assms(1,2,5) graphic_ends_row by blast
  then have "row \<noteq> []" "trimSpace row = row" by (auto simp: graphic_ends_def trimSpace_id)
  moreover have "map snd rest ! 0 = snd (rest ! 0)" using assms(6) by (cases rest) auto
  ultimately show ?thesis
    using assms by (simp add: parse_line_def Let_def hasPrefix_def fields_table_row trimSpace_id)
qed

definition demo_row :: "string \<Rightarrow> string" where
  "demo_row path = ''- 257 gen 8 top level 5 path '' @ path"

lemma parse_demo_row:
  assumes "graphic_word path"
  shows "\<exists>i. parse_line base (demo_row path) = Some \<lparr>si_ID = i, si_UUID = [], si_ParentUUID = [],
    si_Path = path_join [base, path], si_CreatedAt = zero_time, si_IsReadOnly = False\<rparr>"
proof -
  let ?rest = "[('' '', ''257''), ('' '', ''gen''), ('' '', ''8''), ('' '', ''top''), ('' '', ''level''),
    ('' '', ''5''), ('' '', ''path''), ('' '', path)]"
  have row: "demo_row path = table_row ''-'' ?rest" by (simp add: demo_row_def table_row_def)
  have dash: "graphic_word ''-''" by (simp add: graphic_word_def ascii_graphic_def)
  have rest: "\<forall>p \<in> set ?rest. gap (fst p) \<and> graphic_word (snd p)"
    using assms by (simp add: graphic_word_def gap_def ascii_graphic_def ascii_spaces_def)
  have idx: "index_of ''path '' (demo_row path) = Some 24" by (simp add: demo_row_def)
  have ends: "graphic_ends (drop (24 + 5) (demo_row path))"
    using assms by (auto simp: demo_row_def graphic_ends_def graphic_word_def)
  have "parse_line base (demo_row path) = Some \<lparr>si_ID = parseUint64 (snd (?rest ! 0)),
      si_UUID = [], si_ParentUUID = [], si_Path = path_join [base, drop (24 + 5) (demo_row path)],
      si_CreatedAt = zero_time, si_IsReadOnly = False\<rparr>"
    by (rule parse_nine_fields [OF row dash _ _ rest _ idx _ ends]) (simp_all add: demo_row_def)
  then show ?thesis by (simp add: demo_row_def)
qed

theorem retention_keeps_first_witness:
  "let cmds = run_commands (listing_world (join_with [newline] [demo_row ''a'', demo_row ''b''])) 0 0
        (demo_policy\<lparr>sp_RetentionDaily := 1\<rparr>) ()
   in delete_args ''/data/b'' \<in> set cmds \<and> delete_args ''/data/a'' \<notin> set cmds"
proof -
  let ?X = "listing_world (join_with [newline] [demo_row ''a'', demo_row ''b''])"
  have w: "graphic_word ''a''" "graphic_word ''b''" by (simp_all add: graphic_word_def ascii_graphic_def)
  have p: "path_join [''/data'', ''a''] = ''/data/a''" "path_join [''/data'', ''b''] = ''/data/b''"
    by (simp_all add: path_join_def clean_def clean_stack_def rooted_def slash_def push_elem_def
        render_path_def)
  from parse_demo_row [OF w(1), of "''/data''"] parse_demo_row [OF w(2), of "''/data''"] p
  obtain a b where ab: "parse_line ''/data'' (demo_row ''a'') = Some a" "si_Path a = ''/data/a''"
    "parse_line ''/data'' (demo_row ''b'') = Some b" "si_Path b = ''/data/b''" by auto
  have "split_on newline (join_with [newline] [demo_row ''a'', demo_row ''b'']) = [demo_row ''a'', demo_row ''b'']"
    by (rule split_on_lines) (simp_all add: demo_row_def newline_def)
  then have "fst (ListSnapshots ?X ''/data'' ()) = Inr [a, b]"
    using ab by (simp add: ListSnapshots_def listing_world_def parseList_def List.map_filter_simps)
  then have l: "fst (ListSnapshots ?X (sp_SubvolumePath (demo_policy\<lparr>sp_RetentionDaily := 1\<rparr>)) ()) = Inr [a, b]"
    by (simp add: demo_policy_def)
  have c: "CreateSnapshot ?X sub path ro () = (None, ())" for sub path ro
    by (simp add: CreateSnapshot_def listing_world_def)
  have "delete_args q \<in> set (run_commands ?X 0 0 (demo_policy\<lparr>sp_RetentionDaily := 1\<rparr>) ()) \<longleftrightarrow> si_Path b = q" for q
  proof -
    have "delete_args q \<in> set (run_commands ?X 0 0 (demo_policy\<lparr>sp_RetentionDaily := 1\<rparr>) ()) \<longleftrightarrow>
        (\<exists>i < length [a, b]. 1 \<le> i \<and> si_Path ([a, b] ! i) = q)"
      using retention_keeps_first [THEN conjunct1, rule_format, OF c l refl, of q] by simp
    also have "\<dots> \<longleftrightarrow> si_Path b = q"
      by (auto simp: less_Suc_eq intro: exI [of _ 1])
    finally show ?thesis .
  qed
  then show ?thesis using ab by simp
qed

text \<open>C20: Retention deletes nothing as long as no path has more than four words. The wrapper asks for
  a table whose rows are four columns and the path, and the parser skips every line of fewer than
  nine fields. If each line of the listing that a run reads is such a line, the run takes its
  snapshot, lists the subvolume if that worked, and does nothing else: it deletes no snapshot,
  however many there are and however few the policy wants to keep.\<close>

theorem retention_never_deletes:
  assumes "CreateSnapshot X (sp_SubvolumePath p) (SnapshotPath off now (sp_SubvolumePath p) (sp_Name p))
      (sp_ReadOnly p) x = (err, x1)"
    and "short_lines (cr_combined (fst (X (list_args (sp_SubvolumePath p)) [] x1)))"
  shows "run_commands X off now p x =
    snapshot_args (sp_SubvolumePath p) (SnapshotPath off now (sp_SubvolumePath p) (sp_Name p)) (sp_ReadOnly p) #
    (if err = None then [list_args (sp_SubvolumePath p)] else [])"
  using assms(1) retention_paths_short [of X p x1] assms(2) by (simp add: run_commands_deletes run_deletes_def)

definition web_rows :: "(string \<times> (string \<times> string) list) list" where
  "web_rows = [(''257'', [([CHR 0x09], ''12''), ([CHR 0x09], ''5''), ([CHR 0x09, CHR 0x09], ''6ce2''),
     ([CHR 0x09], ''.snapshots/web_20251009_085320'')])]"

theorem retention_never_deletes_witness:
  "let p = demo_policy\<lparr>sp_RetentionDaily := 1\<rparr>
   in run_commands (listing_world (table_listing (web_rows @ web_rows @ web_rows))) 0 0 p () =
      [snapshot_args ''/data'' (SnapshotPath 0 0 ''/data'' ''web'') True, list_args ''/data'']"
proof -
  let ?X = "listing_world (table_listing (web_rows @ web_rows @ web_rows))"
  have c: "CreateSnapshot ?X sub path ro () = (None, ())" for sub path ro
    by (simp add: CreateSnapshot_def listing_world_def)
  have "short_lines (table_listing (web_rows @ web_rows @ web_rows))"
    by (rule table_listing_short)
      (simp add: web_rows_def row_ok_def graphic_word_def gap_def newline_def ascii_spaces_def ascii_graphic_def)
  then have "short_lines (cr_combined (fst (?X (list_args b) [] ())))" for b by (simp add: listing_world_def)
  from retention_never_deletes [OF c this] show ?thesis by (simp add: demo_policy_def)
qed

text \<open>C30: With longer names retention aims at the subvolume itself. When the paths in the table have
  five words or more (a policy called \<open>copia diaria de la web\<close> makes such paths), none of them with
  a word that ends in \<open>path\<close> before a space, each row is read as the listed subvolume. A run whose
  snapshot and listing succeed then asks btrfs to delete the subvolume of the policy, once for every
  row beyond the number to keep.\<close>

theorem retention_deletes_subvolume:
  assumes "\<forall>r \<in> set rows. wordy r" "sp_SubvolumePath p \<noteq> []"
    and "CreateSnapshot X (sp_SubvolumePath p) (SnapshotPath off now (sp_SubvolumePath p) (sp_Name p))
      (sp_ReadOnly p) x = (None, x1)"
    and "cr_fail (fst (X (list_args (sp_SubvolumePath p)) [] x1)) = None"
    and "cr_combined (fst (X (list_args (sp_SubvolumePath p)) [] x1)) = table_listing rows"
  shows "run_commands X off now p x =
    [snapshot_args (sp_SubvolumePath p) (SnapshotPath off now (sp_SubvolumePath p) (sp_Name p)) (sp_ReadOnly p),
     list_args (sp_SubvolumePath p)] @
    replicate (length rows - max_to_keep p) (delete_args (clean (sp_SubvolumePath p)))"
proof -
  have "run_deletes X off now p x =
      drop (max_to_keep p) (map si_Path (parseList (table_listing rows) (sp_SubvolumePath p)))"
    using assms(3-5) by (simp add: run_deletes_def retention_paths_def ListSnapshots_def case_prod_unfold Let_def drop_map)
  then show ?thesis
    using assms(3) by (simp add: run_commands_deletes parse_wordy_listing [OF assms(1,2)])
qed

definition named_rows :: "(string \<times> (string \<times> string) list) list" where
  "named_rows = [(''257'', [([CHR 0x09], ''12''), ([CHR 0x09], ''5''), ([CHR 0x09, CHR 0x09], ''6ce2''),
     ([CHR 0x09], ''.snapshots/copia''), ('' '', ''diaria''), ('' '', ''de''), ('' '', ''la''),
     ('' '', ''web_20251009_085320'')])]"

theorem retention_deletes_subvolume_witness:
  "run_commands (listing_world (table_listing (named_rows @ named_rows))) 0 0
      (demo_policy\<lparr>sp_RetentionDaily := 1\<rparr>) () =
    [snapshot_args ''/data'' (SnapshotPath 0 0 ''/data'' ''web'') True, list_args ''/data'', delete_args ''/data'']"
proof -
  let ?X = "listing_world (table_listing (named_rows @ named_rows))" and ?p = "demo_policy\<lparr>sp_RetentionDaily := 1\<rparr>"
  have c: "CreateSnapshot ?X sub path ro () = (None, ())" for sub path ro
    by (simp add: CreateSnapshot_def listing_world_def)
  have w: "\<forall>r \<in> set (named_rows @ named_rows). wordy r"
    by (simp add: named_rows_def wordy_def row_ok_def graphic_word_def gap_def newline_def ascii_spaces_def
        ascii_graphic_def is_digit_def table_row_def)
  have l: "cr_fail (fst (?X (list_args (sp_SubvolumePath ?p)) [] ())) = None"
    "cr_combined (fst (?X (list_args (sp_SubvolumePath ?p)) [] ())) = table_listing (named_rows @ named_rows)"
    "sp_SubvolumePath ?p \<noteq> []"
    by (simp_all add: listing_world_def demo_policy_def)
  have "clean ''/data'' = ''/data''"
    by (simp add: clean_def clean_stack_def rooted_def slash_def push_elem_def render_path_def)
  then show ?thesis
    using retention_deletes_subvolume [OF w l(3) c l(1,2), of 0 0]
    by (simp add: demo_policy_def max_to_keep_def named_rows_def)
qed

end
