(* ===== verification/Alerts.thy ===== *)
theory Alerts
  imports Storage GoTime Http
begin

text \<open>
  \<open>internal/alerts\<close>: the alert manager with its two channels (mail and webhook) and the
  watchdog that turns the last-seen times of the nodes into alerts. The mail server and the
  webhook are not part of the repository: \<open>M\<close> sends a mail and \<open>P\<close> posts a JSON body, both
  on a state of the outside world.
\<close>

section \<open>The alert manager\<close>

record alert_config =
  ac_SMTPHost :: string
  ac_SMTPPort :: nat
  ac_SMTPUser :: string
  ac_SMTPPass :: string
  ac_SMTPFrom :: string
  ac_WebhookURL :: string
  ac_EmailEnabled :: bool
  ac_WebhookEnabled :: bool

record alert =
  al_Level :: string
  al_Title :: string
  al_Message :: string
  al_NodeID :: string
  al_Time :: time

definition env_or :: "(string \<Rightarrow> string) \<Rightarrow> string \<Rightarrow> string \<Rightarrow> string" where
  "env_or getenv key fallback = (let v = getenv key in if v \<noteq> [] then v else fallback)"

definition ConfigFromEnv :: "(string \<Rightarrow> string) \<Rightarrow> alert_config" where
  "ConfigFromEnv getenv =
     \<lparr>ac_SMTPHost = env_or getenv ''SMTP_HOST'' ''localhost'',
      ac_SMTPPort = 587,
      ac_SMTPUser = env_or getenv ''SMTP_USERNAME'' [],
      ac_SMTPPass = env_or getenv ''SMTP_PASSWORD'' [],
      ac_SMTPFrom = env_or getenv ''SMTP_FROM'' ''snapah@localhost'',
      ac_WebhookURL = env_or getenv ''ALERT_WEBHOOK_URL'' [],
      ac_EmailEnabled = (env_or getenv ''ALERT_EMAIL_TO'' [] \<noteq> []),
      ac_WebhookEnabled = (env_or getenv ''ALERT_WEBHOOK_URL'' [] \<noteq> [])\<rparr>"

text \<open>\<open>Send\<close> starts one goroutine for each enabled channel; its result is what it starts.\<close>

datatype delivery = ByMail alert | ByWebhook alert

definition Send :: "alert_config \<Rightarrow> time \<Rightarrow> alert \<Rightarrow> delivery list" where
  "Send cfg now a0 =
     (let a = (if al_Time a0 = zero_time then a0\<lparr>al_Time := now\<rparr> else a0)
      in (if ac_EmailEnabled cfg then [ByMail a] else [])
         @ (if ac_WebhookEnabled cfg then [ByWebhook a] else []))"

definition levelColor :: "string \<Rightarrow> string" where
  "levelColor level =
     (if level = ''critical'' then ''#e8360a''
      else if level = ''error'' then ''#e8360a''
      else if level = ''warning'' then ''#f5c800''
      else ''#22a64a'')"

definition emailBody :: "int \<Rightarrow> alert \<Rightarrow> string" where
\<open>emailBody off a =
   (let color = levelColor (al_Level a); when = fmt_long (civil_of off (al_Time a))
    in join_with [newline]
      [[],
       ''<!DOCTYPE html>'',
       ''<html>'',
       ''<body style="font-family:monospace;background:#0d0d1a;color:#e8e8f0;padding:32px;">'',
       ''  <div style="max-width:560px;margin:0 auto;">'',
       ''    <h2 style="color:'' @ color @ '';margin-bottom:8px;">'' @ al_Title a @ ''</h2>'',
       ''    <p style="color:#7878a0;font-size:12px;margin-bottom:24px;">snapah pow '' @ [CHR 0xC2, CHR 0xB7] @ '' '' @ when @ ''</p>'',
       ''    <div style="background:#1a1a35;border:1px solid #2a2a4a;border-radius:8px;padding:20px;">'',
       ''      <p style="margin:0 0 12px 0;">'' @ al_Message a @ ''</p>'',
       ''      <hr style="border:none;border-top:1px solid #2a2a4a;margin:16px 0;">'',
       ''      <p style="color:#7878a0;font-size:12px;margin:0;">'',
       ''        Nivel: <b style="color:'' @ color @ ''">'' @ al_Level a @ ''</b> &nbsp;'' @ [CHR 0xC2, CHR 0xB7] @ ''&nbsp;'',
       ''        Nodo: <code>'' @ al_NodeID a @ ''</code> &nbsp;'' @ [CHR 0xC2, CHR 0xB7] @ ''&nbsp;'',
       ''        Hora: '' @ when,
       ''      </p>'',
       ''    </div>'',
       ''    <div style="margin-top:24px;display:flex;gap:4px;">'',
       ''      <div style="height:4px;flex:1;background:#e8360a;border-radius:2px;"></div>'',
       ''      <div style="height:4px;flex:1;background:#f5c800;border-radius:2px;"></div>'',
       ''      <div style="height:4px;flex:1;background:#22a64a;border-radius:2px;"></div>'',
       ''    </div>'',
       ''  </div>'',
       ''</body>'',
       ''</html>''])\<close>

record mail =
  ml_Host :: string
  ml_Port :: nat
  ml_User :: string
  ml_Pass :: string
  ml_From :: string
  ml_To :: string
  ml_Subject :: string
  ml_Html :: string

type_synonym 'x mailer = "mail \<Rightarrow> 'x \<Rightarrow> goerror option \<times> 'x"

definition sendEmail ::
    "'x mailer \<Rightarrow> (string \<Rightarrow> string) \<Rightarrow> int \<Rightarrow> alert_config \<Rightarrow> alert \<Rightarrow> 'x \<Rightarrow> goerror option \<times> 'x" where
  "sendEmail M getenv off cfg a x =
     (let to = getenv ''ALERT_EMAIL_TO''
      in if to = [] then (None, x)
         else let (err, x') = M \<lparr>ml_Host = ac_SMTPHost cfg, ml_Port = ac_SMTPPort cfg,
                    ml_User = ac_SMTPUser cfg, ml_Pass = ac_SMTPPass cfg, ml_From = ac_SMTPFrom cfg,
                    ml_To = to, ml_Subject = ''[snapah-pow]['' @ al_Level a @ ''] '' @ al_Title a,
                    ml_Html = emailBody off a\<rparr> x
              in (map_option (\<lambda>e. ''smtp: '' @ e) err, x'))"

type_synonym 'x poster = "string \<Rightarrow> json \<Rightarrow> 'x \<Rightarrow> (goerror + nat) \<times> 'x"

definition generic_payload :: "int \<Rightarrow> alert \<Rightarrow> json" where
  "generic_payload off a = JObj
     [(''level'', JStr (al_Level a)), (''message'', JStr (al_Message a)),
      (''node_id'', JStr (al_NodeID a)), (''source'', JStr ''snapah-pow''),
      (''time'', JStr (fmt_rfc3339 off (al_Time a))), (''title'', JStr (al_Title a))]"

definition slack_field :: "string \<Rightarrow> string \<Rightarrow> json" where
  "slack_field title val =
     JObj [(''short'', JStr ''true''), (''title'', JStr title), (''value'', JStr val)]"

definition slack_payload :: "int \<Rightarrow> alert \<Rightarrow> json" where
  "slack_payload off a = JObj
     [(''attachments'', JArr
         [JObj [(''color'', JStr (levelColor (al_Level a))),
                (''fields'', JArr
                   [slack_field ''Nivel'' (al_Level a), slack_field ''Nodo'' (al_NodeID a),
                    slack_field ''Hora'' (fmt_short (civil_of off (al_Time a)))])]]),
      (''text'', JStr (''*[snapah-pow]* '' @ al_Title a @ [newline] @ al_Message a))]"

definition sendWebhook ::
    "'x poster \<Rightarrow> int \<Rightarrow> alert_config \<Rightarrow> alert \<Rightarrow> 'x \<Rightarrow> goerror option \<times> 'x" where
  "sendWebhook P off cfg a x =
     (case P (ac_WebhookURL cfg) (slack_payload off a) x of
        (Inr _, x1) \<Rightarrow> (None, x1)
      | (Inl _, x1) \<Rightarrow>
          (case P (ac_WebhookURL cfg) (generic_payload off a) x1 of
             (Inr _, x2) \<Rightarrow> (None, x2)
           | (Inl e, x2) \<Rightarrow> (Some (''webhook: '' @ e), x2)))"

section \<open>The watchdog\<close>

text \<open>A missing entry of \<open>lastStatus\<close> reads as the empty string.\<close>

record watchdog =
  wd_lastStatus :: "string \<rightharpoonup> string"
  wd_interval :: duration

definition NewWatchdog :: "duration \<Rightarrow> watchdog" where
  "NewWatchdog interval = \<lparr>wd_lastStatus = Map.empty, wd_interval = interval\<rparr>"

definition offlineThreshold :: duration where
  "offlineThreshold = 2 * minute"

definition is_offline :: "time \<Rightarrow> node \<Rightarrow> bool" where
  "is_offline now n \<longleftrightarrow> time_sub now (n_LastSeen n) > offlineThreshold"

definition prev_status :: "watchdog \<Rightarrow> string \<Rightarrow> string" where
  "prev_status w i = (case wd_lastStatus w i of None \<Rightarrow> [] | Some st \<Rightarrow> st)"

definition offline_alert :: "node \<Rightarrow> alert" where
  "offline_alert n =
     \<lparr>al_Level = ''critical'', al_Title = ''Nodo offline: '' @ n_Hostname n,
      al_Message = ''El nodo '' @ n_Hostname n @ '' ('' @ n_Address n @ '') no responde desde hace m''
        @ [CHR 0xC3, CHR 0xA1] @ ''s de 2 minutos.'',
      al_NodeID = n_ID n, al_Time = zero_time\<rparr>"

definition online_alert :: "node \<Rightarrow> alert" where
  "online_alert n =
     \<lparr>al_Level = ''info'', al_Title = ''Nodo recuperado: '' @ n_Hostname n,
      al_Message = ''El nodo '' @ n_Hostname n @ '' est'' @ [CHR 0xC3, CHR 0xA1] @ '' online nuevamente.'',
      al_NodeID = n_ID n, al_Time = zero_time\<rparr>"

definition set_status :: "string \<Rightarrow> string \<Rightarrow> watchdog \<Rightarrow> watchdog" where
  "set_status i st w = w\<lparr>wd_lastStatus := (wd_lastStatus w)(i \<mapsto> st)\<rparr>"

text \<open>One turn of the loop: the alerts it sends, the watchdog and the database after it.\<close>

definition check_node :: "gorm \<Rightarrow> time \<Rightarrow> node \<Rightarrow> watchdog \<times> db \<Rightarrow> alert list \<times> watchdog \<times> db" where
  "check_node g now n s =
     (let (w, d) = s; isOffline = is_offline now n; prevStatus = prev_status w (n_ID n)
      in if isOffline \<and> prevStatus \<noteq> ''offline''
         then ([offline_alert n], set_status (n_ID n) ''offline'' w,
               snd (UpdateNodeStatus g now (n_ID n) ''offline'' d))
         else if \<not> isOffline \<and> prevStatus = ''offline''
         then ([online_alert n], set_status (n_ID n) ''online'' w,
               snd (UpdateNodeStatus g now (n_ID n) ''online'' d))
         else if \<not> isOffline \<and> prevStatus = []
         then ([], set_status (n_ID n) ''online'' w, d)
         else ([], w, d))"

primrec check_nodes ::
    "gorm \<Rightarrow> time \<Rightarrow> node list \<Rightarrow> watchdog \<times> db \<Rightarrow> alert list \<times> watchdog \<times> db" where
  "check_nodes g now [] s = ([], s)"
| "check_nodes g now (n # ns) s =
     (let (as, s') = check_node g now n s; (bs, s'') = check_nodes g now ns s' in (as @ bs, s''))"

definition check :: "gorm \<Rightarrow> time \<Rightarrow> watchdog \<times> db \<Rightarrow> alert list \<times> watchdog \<times> db" where
  "check g now s =
     (case ListNodes g (snd s) of Inl e \<Rightarrow> ([], s) | Inr nodes \<Rightarrow> check_nodes g now nodes s)"

definition snapshot_failed_alert :: "string \<Rightarrow> string \<Rightarrow> string \<Rightarrow> alert" where
  "snapshot_failed_alert nodeID pol err =
     \<lparr>al_Level = ''error'', al_Title = ''Snapshot fallido: '' @ pol,
      al_Message = ''La pol'' @ [CHR 0xC3, CHR 0xAD] @ ''tica '' @ [CHR 0x27] @ pol @ [CHR 0x27]
        @ '' fall'' @ [CHR 0xC3, CHR 0xB3] @ '' al crear snapshot. Error: '' @ err,
      al_NodeID = nodeID, al_Time = zero_time\<rparr>"

definition NotifySnapshotFailed ::
    "alert_config \<Rightarrow> time \<Rightarrow> string \<Rightarrow> string \<Rightarrow> string \<Rightarrow> delivery list" where
  "NotifySnapshotFailed cfg now nodeID pol err = Send cfg now (snapshot_failed_alert nodeID pol err)"

definition replication_failed_alert :: "string \<Rightarrow> string \<Rightarrow> string \<Rightarrow> alert" where
  "replication_failed_alert nodeID snapPath err =
     \<lparr>al_Level = ''error'', al_Title = ''Replicaci'' @ [CHR 0xC3, CHR 0xB3] @ ''n fallida'',
      al_Message = ''No se pudo replicar '' @ snapPath @ ''. Error: '' @ err,
      al_NodeID = nodeID, al_Time = zero_time\<rparr>"

definition NotifyReplicationFailed ::
    "alert_config \<Rightarrow> time \<Rightarrow> string \<Rightarrow> string \<Rightarrow> string \<Rightarrow> delivery list" where
  "NotifyReplicationFailed cfg now nodeID snapPath err =
     Send cfg now (replication_failed_alert nodeID snapPath err)"

section \<open>Alerts are sent on changes only\<close>

text \<open>
  The alerts of one node as a two-state machine: \<open>alternates down ls\<close> says that the levels
  \<open>ls\<close> are those of a node that goes down and comes back in turn, starting from \<open>down\<close>.
\<close>

fun alternates :: "bool \<Rightarrow> string list \<Rightarrow> bool" where
  "alternates down [] = True"
| "alternates down (l # ls) =
     (l = (if down then ''info'' else ''critical'') \<and> alternates (\<not> down) ls)"

definition levels_of :: "string \<Rightarrow> alert list \<Rightarrow> string list" where
  "levels_of i as = map al_Level (filter (\<lambda>a. al_NodeID a = i) as)"

lemma levels_of_append [simp]: "levels_of i (as @ bs) = levels_of i as @ levels_of i bs"
  by (simp add: levels_of_def)

lemma alternates_append:
  "alternates b (xs @ ys) \<longleftrightarrow> alternates b xs \<and> alternates (if even (length xs) then b else \<not> b) ys"
  by (induction xs arbitrary: b) auto

definition down :: "watchdog \<Rightarrow> string \<Rightarrow> bool" where
  "down w i \<longleftrightarrow> prev_status w i = ''offline''"

lemma prev_status_set [simp]:
  "prev_status (set_status j st w) i = (if i = j then st else prev_status w i)"
  by (simp add: prev_status_def set_status_def)

lemmas alert_fields = offline_alert_def online_alert_def

text \<open>What every turn of the loop keeps: the levels so far alternate and the state is their end.\<close>

definition tracks :: "(watchdog \<times> db \<Rightarrow> alert list \<times> watchdog \<times> db) \<Rightarrow> bool" where
  "tracks f \<longleftrightarrow> (\<forall>i s. alternates (down (fst s) i) (levels_of i (fst (f s)))
     \<and> down (fst (snd (f s))) i =
         (if even (length (levels_of i (fst (f s)))) then down (fst s) i else \<not> down (fst s) i))"

lemma tracksD:
  "tracks f \<Longrightarrow> alternates (down (fst s) i) (levels_of i (fst (f s)))"
  "tracks f \<Longrightarrow> down (fst (snd (f s))) i =
     (if even (length (levels_of i (fst (f s)))) then down (fst s) i else \<not> down (fst s) i)"
  unfolding tracks_def by blast+

lemma tracks_silent: "(\<And>s. fst (f s) = [] \<and> fst (snd (f s)) = fst s) \<Longrightarrow> tracks f"
  by (simp add: tracks_def levels_of_def)

lemma tracks_seq:
  assumes "tracks f" "tracks h"
  shows "tracks (\<lambda>s. (fst (f s) @ fst (h (snd (f s))), snd (h (snd (f s)))))"
  unfolding tracks_def
proof (intro allI)
  fix i s
  note f = tracksD [OF assms(1), of s i] and h = tracksD [OF assms(2), of "snd (f s)" i]
  show "alternates (down (fst s) i)
        (levels_of i (fst (fst (f s) @ fst (h (snd (f s))), snd (h (snd (f s)))))) \<and>
      down (fst (snd (fst (f s) @ fst (h (snd (f s))), snd (h (snd (f s)))))) i =
        (if even (length (levels_of i (fst (fst (f s) @ fst (h (snd (f s))), snd (h (snd (f s)))))))
         then down (fst s) i else \<not> down (fst s) i)"
    unfolding fst_conv snd_conv levels_of_append alternates_append length_append
    using f h by (simp split: if_splits)
qed

lemma tracks_check_node: "tracks (check_node g now n)"
  unfolding tracks_def
  by (auto simp: check_node_def case_prod_unfold Let_def levels_of_def alert_fields down_def)

lemma tracks_check_nodes: "tracks (check_nodes g now ns)"
proof (induction ns)
  case Nil
  then show ?case by (intro tracks_silent) simp
next
  case (Cons n ns)
  have "check_nodes g now (n # ns) = (\<lambda>s. (fst (check_node g now n s)
      @ fst (check_nodes g now ns (snd (check_node g now n s))),
      snd (check_nodes g now ns (snd (check_node g now n s)))))"
    by (simp add: fun_eq_iff case_prod_unfold Let_def)
  with tracks_seq [OF tracks_check_node Cons] show ?case by simp
qed

lemma tracks_check: "tracks (check g now)"
  unfolding tracks_def
proof (intro allI)
  fix i s
  show "alternates (down (fst s) i) (levels_of i (fst (check g now s))) \<and>
      down (fst (snd (check g now s))) i =
        (if even (length (levels_of i (fst (check g now s)))) then down (fst s) i
         else \<not> down (fst s) i)"
  proof (cases "ListNodes g (snd s)")
    case (Inl e)
    then show ?thesis by (simp add: check_def levels_of_def)
  next
    case (Inr ns)
    with tracksD [OF tracks_check_nodes [of g now ns], of s i] show ?thesis
      by (simp add: check_def)
  qed
qed

text \<open>
  The life of the watchdog: checks at given times, and in between whatever the rest of the
  program does to the database.
\<close>

datatype wd_event = Tick time | DbChange "db \<Rightarrow> db"

definition wd_step :: "gorm \<Rightarrow> wd_event \<Rightarrow> watchdog \<times> db \<Rightarrow> alert list \<times> watchdog \<times> db" where
  "wd_step g ev s =
     (case ev of Tick now \<Rightarrow> check g now s | DbChange f \<Rightarrow> ([], fst s, f (snd s)))"

lemma tracks_step: "tracks (wd_step g ev)"
proof (cases ev)
  case (Tick now)
  then show ?thesis using tracks_check [of g now] by (simp add: tracks_def wd_step_def)
next
  case (DbChange f)
  then show ?thesis by (intro tracks_silent) (simp add: wd_step_def)
qed

lemma tracks_run: "tracks (\<lambda>s. (concat (fst (run (wd_step g) evs s)), snd (run (wd_step g) evs s)))"
proof (induction evs)
  case Nil
  then show ?case by (intro tracks_silent) simp
next
  case (Cons ev evs)
  from tracks_seq [OF tracks_step this, of g ev] show ?case by simp
qed

text \<open>C24: Alerts come on changes only. Over any life of the watchdog, whatever else happens to
  the database, the alerts about one node are alternately critical (down) and informative
  (back), beginning with a critical one: never two of a kind in a row.\<close>

theorem alerts_alternate:
  "alternates False (levels_of i (concat (fst (run (wd_step g) evs (NewWatchdog interval, d)))))"
proof -
  have "\<not> down (NewWatchdog interval) i"
    by (simp add: down_def prev_status_def NewWatchdog_def)
  then show ?thesis
    using tracksD(1) [OF tracks_run, of "(NewWatchdog interval, d)" i g evs] by simp
qed

section \<open>Each node is judged on its own\<close>

text \<open>The reference: what one check has to say about a node, from the statuses before it.\<close>

definition verdict :: "time \<Rightarrow> watchdog \<Rightarrow> node \<Rightarrow> alert list" where
  "verdict now w n =
     (if is_offline now n \<and> \<not> down w (n_ID n) then [offline_alert n]
      else if \<not> is_offline now n \<and> down w (n_ID n) then [online_alert n]
      else [])"

definition status_after :: "time \<Rightarrow> watchdog \<Rightarrow> node \<Rightarrow> string option" where
  "status_after now w n =
     (if is_offline now n then (if down w (n_ID n) then wd_lastStatus w (n_ID n) else Some ''offline'')
      else if down w (n_ID n) \<or> prev_status w (n_ID n) = [] then Some ''online''
      else wd_lastStatus w (n_ID n))"

lemma check_node_eq:
  "fst (check_node g now n s) = verdict now (fst s) n"
  "wd_lastStatus (fst (snd (check_node g now n s))) =
     (wd_lastStatus (fst s))(n_ID n := status_after now (fst s) n)"
  by (auto simp: check_node_def case_prod_unfold Let_def verdict_def down_def status_after_def
      set_status_def)

lemma verdict_cong:
  "wd_lastStatus w (n_ID n) = wd_lastStatus v (n_ID n) \<Longrightarrow>
     verdict now w n = verdict now v n \<and> status_after now w n = status_after now v n"
  by (simp add: verdict_def status_after_def down_def prev_status_def)

lemma check_nodes_eq:
  "distinct (map n_ID ns) \<Longrightarrow>
     fst (check_nodes g now ns s) = concat (map (verdict now (fst s)) ns) \<and>
     (\<forall>n \<in> set ns. wd_lastStatus (fst (snd (check_nodes g now ns s))) (n_ID n) = status_after now (fst s) n) \<and>
     (\<forall>i. i \<notin> n_ID ` set ns \<longrightarrow>
        wd_lastStatus (fst (snd (check_nodes g now ns s))) i = wd_lastStatus (fst s) i)"
proof (induction ns arbitrary: s)
  case Nil
  then show ?case by simp
next
  case (Cons n ns)
  let ?s = "snd (check_node g now n s)"
  have same: "verdict now (fst ?s) m = verdict now (fst s) m \<and>
      status_after now (fst ?s) m = status_after now (fst s) m" if "m \<in> set ns" for m
  proof (rule verdict_cong)
    have "n_ID m \<noteq> n_ID n" using Cons.prems imageI [OF that, of n_ID] by auto
    then show "wd_lastStatus (fst ?s) (n_ID m) = wd_lastStatus (fst s) (n_ID m)"
      by (simp add: check_node_eq)
  qed
  from Cons.prems have "distinct (map n_ID ns)" and new: "n_ID n \<notin> n_ID ` set ns" by simp_all
  note IH = Cons.IH [OF this(1), of ?s]
  from same have "map (verdict now (fst ?s)) ns = map (verdict now (fst s)) ns" by simp
  with IH same new show ?case
    by (auto simp: case_prod_unfold check_node_eq)
qed

lemma ListNodes_distinct:
  assumes "gorm_ok g" "distinct (map n_ID (db_nodes d))" "ListNodes g d = Inr ns"
  shows "distinct (map n_ID ns)"
proof -
  have "mset ns = mset (filter (\<lambda>n. n_DeletedAt n = None) (db_nodes d))"
    using table_find(1) [OF gorm_okD(1) [OF assms(1)], of "\<lambda>_. True"] assms(3)
    by (simp add: ListNodes_def)
  then have "mset (map n_ID ns) = mset (map n_ID (filter (\<lambda>n. n_DeletedAt n = None) (db_nodes d)))"
    by simp
  moreover have "distinct (map n_ID (filter (\<lambda>n. n_DeletedAt n = None) (db_nodes d)))"
    using assms(2) by (rule distinct_map_filter)
  ultimately show ?thesis
    by (metis mset_eq_imp_distinct_iff)
qed

text \<open>C25: Each node is judged on its own. When no two nodes have the same identifier, the alerts
  of a check are those the reference gives for each node from the statuses before the check,
  in the order of the listing; afterwards every listed node has the status the reference
  gives, and no other status changed. When the listing fails, nothing is sent or changed.\<close>

theorem check_judges_each_node:
  assumes "gorm_ok g" "distinct (map n_ID (db_nodes d))" "check g now (w, d) = (as, w', d')"
  shows "case ListNodes g d of
      Inl _ \<Rightarrow> as = [] \<and> w' = w \<and> d' = d
    | Inr ns \<Rightarrow> as = concat (map (verdict now w) ns) \<and>
        (\<forall>n \<in> set ns. wd_lastStatus w' (n_ID n) = status_after now w n) \<and>
        (\<forall>i. i \<notin> n_ID ` set ns \<longrightarrow> wd_lastStatus w' i = wd_lastStatus w i)"
proof (cases "ListNodes g d")
  case (Inl e)
  with assms(3) show ?thesis by (simp add: check_def)
next
  case (Inr ns)
  with assms(3) check_nodes_eq [OF ListNodes_distinct [OF assms(1,2) Inr], of g now "(w, d)"]
  show ?thesis by (simp add: check_def)
qed

section \<open>A silent node\<close>

lemma node_normD:
  "node_norm a = node_norm b \<Longrightarrow> n_ID a = n_ID b \<and> n_LastSeen a = n_LastSeen b \<and>
     n_DeletedAt a = n_DeletedAt b"
  by (cases a; cases b) (simp add: node_norm_def)

definition live_node :: "node \<Rightarrow> bool" where
  "live_node n \<longleftrightarrow> n_DeletedAt n = None"

lemma UpdateNodeStatus_rows:
  assumes "gorm_ok g" "table_up (\<lambda>n. n_DeletedAt n = None) (g_nodes g)"
  shows "list_all2 (\<lambda>r r'. n_ID r' = n_ID r \<and> live_node r' = live_node r \<and>
      n_LastSeen r' = (if live_node r \<and> n_ID r = i then now else n_LastSeen r))
    (db_nodes d) (db_nodes (snd (UpdateNodeStatus g now i st d)))"
proof -
  let ?u = "\<lambda>n. n\<lparr>n_Status := st, n_LastSeen := now\<rparr>"
  obtain rows where r: "g_Update (g_nodes g) (\<lambda>n. n_ID n = i) ?u (db_nodes d) = (None, rows)"
    using table_up_calls(2) [OF assms(2)] by (metis prod.collapse)
  have "list_all2 (\<lambda>r r'. n_ID r' = n_ID r \<and> live_node r' = live_node r \<and>
      n_LastSeen r' = (if live_node r \<and> n_ID r = i then now else n_LastSeen r)) (db_nodes d) rows"
    using table_update [OF gorm_okD(1) [OF assms(1)] r]
  proof (rule list_all2_mono)
    fix a b
    assume "if n_DeletedAt a = None \<and> n_ID a = i then node_norm b = node_norm (?u a) else b = a"
    then show "n_ID b = n_ID a \<and> live_node b = live_node a \<and>
        n_LastSeen b = (if live_node a \<and> n_ID a = i then now else n_LastSeen a)"
      by (auto simp: live_node_def dest: node_normD split: if_splits)
  qed
  then show ?thesis by (simp add: UpdateNodeStatus_def r)
qed

text \<open>What the database knows of node \<open>i\<close>: there is one, and it was last seen at \<open>t\<close>.\<close>

definition seen_at :: "string \<Rightarrow> time \<Rightarrow> db \<Rightarrow> bool" where
  "seen_at i t d \<longleftrightarrow> (\<exists>n \<in> set (db_nodes d). live_node n \<and> n_ID n = i)
     \<and> (\<forall>n \<in> set (db_nodes d). live_node n \<and> n_ID n = i \<longrightarrow> n_LastSeen n = t)"

lemma list_all2_images:
  assumes "list_all2 P xs ys"
  shows "x \<in> set xs \<Longrightarrow> \<exists>y \<in> set ys. P x y" "y \<in> set ys \<Longrightarrow> \<exists>x \<in> set xs. P x y"
  using assms by (metis list_all2_conv_all_nth in_set_conv_nth)+

lemma UpdateNodeStatus_seen:
  assumes "gorm_ok g" "table_up (\<lambda>n. n_DeletedAt n = None) (g_nodes g)" "seen_at i t d"
  shows "seen_at i (if j = i then now else t) (snd (UpdateNodeStatus g now j st d))"
proof -
  note rows = list_all2_images [OF UpdateNodeStatus_rows [OF assms(1,2), of j now d st]]
  from assms(3) obtain n where "n \<in> set (db_nodes d)" "live_node n" "n_ID n = i"
    by (auto simp: seen_at_def)
  with rows(1) have "\<exists>n \<in> set (db_nodes (snd (UpdateNodeStatus g now j st d))). live_node n \<and> n_ID n = i"
    by metis
  moreover have "n_LastSeen m = (if j = i then now else t)"
    if "m \<in> set (db_nodes (snd (UpdateNodeStatus g now j st d)))" "live_node m" "n_ID m = i" for m
    using rows(2) [OF that(1)] that(2,3) assms(3) by (auto simp: seen_at_def)
  ultimately show ?thesis by (auto simp: seen_at_def)
qed

lemma UpdateNodeStatus_ids:
  assumes "gorm_ok g" "table_up (\<lambda>n. n_DeletedAt n = None) (g_nodes g)"
  shows "map n_ID (db_nodes (snd (UpdateNodeStatus g now j st d))) = map n_ID (db_nodes d)"
  using UpdateNodeStatus_rows [OF assms, of j now d st]
  by (auto simp: list_all2_conv_all_nth intro: nth_equalityI)

lemma check_node_seen:
  assumes "gorm_ok g" "table_up (\<lambda>n. n_DeletedAt n = None) (g_nodes g)"
  shows "i \<noteq> n_ID n \<Longrightarrow> seen_at i t (snd s) \<Longrightarrow> seen_at i t (snd (snd (check_node g now n s)))"
    "is_offline now n \<Longrightarrow> \<not> down (fst s) (n_ID n) \<Longrightarrow> seen_at (n_ID n) t (snd s) \<Longrightarrow>
       seen_at (n_ID n) now (snd (snd (check_node g now n s)))"
    "map n_ID (db_nodes (snd (snd (check_node g now n s)))) = map n_ID (db_nodes (snd s))"
  using UpdateNodeStatus_seen [OF assms, of i t "snd s" "n_ID n" now]
    UpdateNodeStatus_seen [OF assms, of "n_ID n" t "snd s" "n_ID n" now]
    UpdateNodeStatus_ids [OF assms]
  by (auto simp: check_node_def case_prod_unfold Let_def down_def)

lemma check_nodes_frame:
  assumes "gorm_ok g" "table_up (\<lambda>n. n_DeletedAt n = None) (g_nodes g)"
  shows "i \<notin> n_ID ` set ns \<Longrightarrow> seen_at i t (snd s) \<Longrightarrow> seen_at i t (snd (snd (check_nodes g now ns s)))"
    and "map n_ID (db_nodes (snd (snd (check_nodes g now ns s)))) = map n_ID (db_nodes (snd s))"
  by (induction ns arbitrary: s)
    (simp_all add: case_prod_unfold Let_def check_node_seen(1,3) [OF assms])

lemma check_nodes_append:
  "snd (check_nodes g now (xs @ ys) s) = snd (check_nodes g now ys (snd (check_nodes g now xs s)))"
  by (induction xs arbitrary: s) (simp_all add: case_prod_unfold Let_def)

lemma check_nodes_offline_seen:
  assumes "gorm_ok g" "table_up (\<lambda>n. n_DeletedAt n = None) (g_nodes g)"
    and "distinct (map n_ID ns)" "n \<in> set ns" "is_offline now n" "\<not> down (fst s) (n_ID n)"
    and "seen_at (n_ID n) t (snd s)"
  shows "seen_at (n_ID n) now (snd (snd (check_nodes g now ns s)))"
proof -
  obtain xs ys where ns: "ns = xs @ n # ys" using assms(4) by (meson split_list)
  let ?s = "snd (check_nodes g now xs s)"
  have out: "n_ID n \<notin> n_ID ` set xs" "n_ID n \<notin> n_ID ` set ys" "distinct (map n_ID xs)"
    using assms(3) ns by auto
  have "\<not> down (fst ?s) (n_ID n)"
    using check_nodes_eq [OF out(3), of g now s] out(1) assms(6) by (simp add: down_def prev_status_def)
  moreover have "seen_at (n_ID n) t (snd ?s)"
    by (rule check_nodes_frame(1) [OF assms(1,2) out(1) assms(7)])
  ultimately have "seen_at (n_ID n) now (snd (snd (check_node g now n ?s)))"
    using check_node_seen(2) [OF assms(1,2) assms(5)] by blast
  then show ?thesis
    using check_nodes_frame(1) [OF assms(1,2) out(2)]
    by (simp add: ns check_nodes_append case_prod_unfold Let_def)
qed

text \<open>C26: A silent node is reported as recovered. Marking a node offline also sets its last-seen
  time to now, so a node that went silent for more than two minutes gets its critical alert at
  one check and, without having been heard of, an informative \<open>recovered\<close> alert at the next
  check within two minutes.\<close>

theorem silent_node_recovers:
  assumes "gorm_ok g" "table_up (\<lambda>n. n_DeletedAt n = None) (g_nodes g)"
    and "distinct (map n_ID (db_nodes d))" "n \<in> set (db_nodes d)" "n_DeletedAt n = None"
    and "is_offline now n" "prev_status w (n_ID n) \<noteq> ''offline''"
    and "now \<le> now'" "now' - now \<le> offlineThreshold"
    and "check g now (w, d) = (as, w', d')" "check g now' (w', d') = (bs, w'', d'')"
  shows "offline_alert n \<in> set as \<and>
    (\<exists>m. m \<in> set (db_nodes d') \<and> n_ID m = n_ID n \<and> online_alert m \<in> set bs)"
proof -
  note ok = assms(1,2)
  obtain ns where ns: "ListNodes g d = Inr ns"
    using table_up_calls(4) [OF ok(2)] unfolding ListNodes_def by blast
  obtain ms where ms: "ListNodes g d' = Inr ms"
    using table_up_calls(4) [OF ok(2)] unfolding ListNodes_def by blast
  have n: "n \<in> set ns" using ListNodes_set [OF ok(1) ns] assms(4,5) by auto
  note dist = ListNodes_distinct [OF ok(1) assms(3) ns]
  have c1: "check_nodes g now ns (w, d) = (as, w', d')" using assms(10) ns by (simp add: check_def)
  have c2: "check_nodes g now' ms (w', d') = (bs, w'', d'')" using assms(11) ms by (simp add: check_def)
  have up: "\<not> down w (n_ID n)" using assms(7) by (simp add: down_def)
  have as: "offline_alert n \<in> set as" and dn: "down w' (n_ID n)"
    using check_nodes_eq [OF dist, of g now "(w, d)"] n up assms(6)
    by (auto simp: c1 verdict_def status_after_def down_def prev_status_def [of w'])
  have inj: "m = n" if "m \<in> set (db_nodes d)" "n_ID m = n_ID n" for m
    using assms(3,4) that by (metis distinct_map inj_onD)
  have "seen_at (n_ID n) (n_LastSeen n) d"
    using assms(4,5) inj by (auto simp: seen_at_def live_node_def)
  with check_nodes_offline_seen [OF ok dist n assms(6), of "(w, d)"] up c1
  have seen: "seen_at (n_ID n) now d'" by simp
  then obtain m where m: "m \<in> set (db_nodes d')" "live_node m" "n_ID m = n_ID n" "n_LastSeen m = now"
    unfolding seen_at_def by blast
  have "distinct (map n_ID (db_nodes d'))"
    using check_nodes_frame(2) [OF ok, of now ns "(w, d)"] c1 assms(3) by simp
  note dist' = ListNodes_distinct [OF ok(1) this ms]
  have "m \<in> set ms" using ListNodes_set [OF ok(1) ms] m(1,2) by (auto simp: live_node_def)
  moreover have "\<not> is_offline now' m"
    using assms(8,9) m(4) time_sub_gt_iff [of offlineThreshold now' now]
    by (simp add: is_offline_def offlineThreshold_def time_units duration_bounds)
  ultimately have "online_alert m \<in> set bs"
    using check_nodes_eq [OF dist', of g now' "(w', d')"] dn m(3)
    by (auto simp: c2 verdict_def)
  with as m show ?thesis by blast
qed

definition demo_node :: node where
  "demo_node = \<lparr>n_ID = ''n1'', n_Hostname = ''web'', n_Address = ''10.0.0.1:9090'',
     n_Status = ''online'', n_LastSeen = 0, n_CreatedAt = 0, n_UpdatedAt = 0, n_DeletedAt = None\<rparr>"

lemmas wd_eval = check_def check_node_def ListNodes_def UpdateNodeStatus_def ref_gorm_def ref_table_def
  is_offline_def offlineThreshold_def NewWatchdog_def prev_status_def set_status_def demo_node_def
  empty_db_def time_sub_def duration_bounds time_units

theorem check_judges_each_node_witness:
  "fst (check ref_gorm (180 * second) (NewWatchdog minute, empty_db\<lparr>db_nodes := [demo_node]\<rparr>))
    = [offline_alert demo_node]"
proof -
  let ?d = "empty_db\<lparr>db_nodes := [demo_node]\<rparr>"
  obtain as w' d' where c: "check ref_gorm (180 * second) (NewWatchdog minute, ?d) = (as, w', d')"
    by (metis prod_cases3)
  have "ListNodes ref_gorm ?d = Inr [demo_node]" by (simp add: wd_eval)
  with check_judges_each_node [OF ref_gorm_ok _ c] have "as = verdict (180 * second) (NewWatchdog minute) demo_node"
    by simp
  then show ?thesis
    by (simp add: c verdict_def down_def wd_eval)
qed

theorem silent_node_recovers_witness:
  "let (as, s1) = check ref_gorm (180 * second) (NewWatchdog minute, empty_db\<lparr>db_nodes := [demo_node]\<rparr>);
       (bs, s2) = check ref_gorm (240 * second) s1
   in offline_alert demo_node \<in> set as \<and> (\<exists>m. n_ID m = ''n1'' \<and> online_alert m \<in> set bs)"
proof -
  let ?d = "empty_db\<lparr>db_nodes := [demo_node]\<rparr>"
  obtain as w' d' where c: "check ref_gorm (180 * second) (NewWatchdog minute, ?d) = (as, w', d')"
    by (metis prod_cases3)
  obtain bs w'' d'' where c': "check ref_gorm (240 * second) (w', d') = (bs, w'', d'')"
    by (metis prod_cases3)
  have up: "table_up (\<lambda>n. n_DeletedAt n = None) (g_nodes ref_gorm)"
    by (simp add: ref_gorm_def ref_table_up)
  from silent_node_recovers [OF ref_gorm_ok up _ _ _ _ _ _ _ c c', of demo_node]
  have "offline_alert demo_node \<in> set as \<and>
      (\<exists>m. m \<in> set (db_nodes d') \<and> n_ID m = n_ID demo_node \<and> online_alert m \<in> set bs)"
    by (simp add: wd_eval)
  moreover have "n_ID demo_node = ''n1''" by (simp add: demo_node_def)
  ultimately show ?thesis by (auto simp: c c')
qed

section \<open>The webhook\<close>

text \<open>A world that also keeps the bodies posted.\<close>

definition logged_post :: "'x poster \<Rightarrow> (json list \<times> 'x) poster" where
  "logged_post P url body lx = (let (r, x') = P url body (snd lx) in (r, (fst lx @ [body], x')))"

text \<open>One alert is posted once or twice. The webhook first gets the Slack form; the generic
  form follows only when that post failed, and an error is reported exactly when both fail.\<close>

theorem webhook_falls_back_once:
  "sendWebhook (logged_post P) off cfg a (l, x) =
     (case P (ac_WebhookURL cfg) (slack_payload off a) x of
        (Inr st, x1) \<Rightarrow> (None, (l @ [slack_payload off a], x1))
      | (Inl e1, x1) \<Rightarrow>
          (let (r, x2) = P (ac_WebhookURL cfg) (generic_payload off a) x1
           in (case r of Inr st \<Rightarrow> None | Inl e \<Rightarrow> Some (''webhook: '' @ e),
               (l @ [slack_payload off a, generic_payload off a], x2))))"
  by (simp add: sendWebhook_def logged_post_def case_prod_unfold Let_def split: sum.split prod.split)

end
