(* ===== verification/Hub.thy ===== *)
theory Hub
  imports GoTime Http
begin

text \<open>
  \<open>internal/hub\<close>: the event hub. Each connected client has a channel of 32 events; a broadcast
  holds the read lock while it offers its event to every client, a connection or a
  disconnection takes the write lock, and each client has a goroutine that writes its channel
  to the connection. The lock, the broadcasts under way and the goroutines are made explicit
  in a step relation; websocket library calls are its nondeterminism (a write or a read may
  fail at any time).
\<close>

section \<open>State and operations\<close>

record hub_event =
  he_Type :: string
  he_Payload :: json
  he_Time :: time

text \<open>
  \<open>cl_send\<close> is the channel, \<open>cl_open\<close> says that the context of the connection is not
  cancelled. \<open>cl_sent\<close> (events written to the connection) and \<open>cl_offered\<close> (events offered by
  broadcasts) are ghost histories.
\<close>

record client =
  cl_send :: "hub_event list"
  cl_open :: bool
  cl_sent :: "hub_event list"
  cl_offered :: "hub_event list"

text \<open>
  \<open>hb_clients\<close> are the registered clients, \<open>hb_conn\<close> their connections, \<open>hb_next\<close> the next
  connection; \<open>hb_active\<close> holds the broadcasts under way with the clients they have yet to
  visit, and so is empty exactly when the read lock is free.
\<close>

record hub =
  hb_clients :: "nat list"
  hb_conn :: "nat \<Rightarrow> client"
  hb_next :: nat
  hb_active :: "(nat \<times> hub_event \<times> nat list) list"

definition send_capacity :: nat where
  "send_capacity = 32"

definition fresh_client :: client where
  "fresh_client = \<lparr>cl_send = [], cl_open = True, cl_sent = [], cl_offered = []\<rparr>"

definition New :: hub where
  "New = \<lparr>hb_clients = [], hb_conn = (\<lambda>_. fresh_client), hb_next = 0, hb_active = []\<rparr>"

definition upd_client :: "nat \<Rightarrow> (client \<Rightarrow> client) \<Rightarrow> hub \<Rightarrow> hub" where
  "upd_client c f h = h\<lparr>hb_conn := (hb_conn h)(c := f (hb_conn h c))\<rparr>"

text \<open>The \<open>select\<close> of a broadcast: it sends if there is room, and skips the client if not.\<close>

definition offer :: "hub_event \<Rightarrow> client \<Rightarrow> client" where
  "offer evt c =
     (let c' = c\<lparr>cl_offered := cl_offered c @ [evt]\<rparr>
      in if length (cl_send c) < send_capacity then c'\<lparr>cl_send := cl_send c @ [evt]\<rparr> else c')"

text \<open>A whole broadcast; Go visits the clients in any order.\<close>

definition Broadcast :: "nat list \<Rightarrow> time \<Rightarrow> string \<Rightarrow> json \<Rightarrow> hub \<Rightarrow> hub" where
  "Broadcast order now eventType payload h =
     fold (\<lambda>c. upd_client c (offer \<lparr>he_Type = eventType, he_Payload = payload, he_Time = now\<rparr>)) order h"

definition register :: "hub \<Rightarrow> hub" where
  "register h = h\<lparr>hb_clients := hb_clients h @ [hb_next h],
     hb_conn := (hb_conn h)(hb_next h := fresh_client), hb_next := Suc (hb_next h)\<rparr>"

definition unregister :: "nat \<Rightarrow> hub \<Rightarrow> hub" where
  "unregister c h = h\<lparr>hb_clients := filter (\<lambda>d. d \<noteq> c) (hb_clients h)\<rparr>"

text \<open>The writer goroutine: it takes an event and writes it; a failed write cancels.\<close>

definition write_ok :: "client \<Rightarrow> client" where
  "write_ok c = c\<lparr>cl_send := tl (cl_send c), cl_sent := cl_sent c @ [hd (cl_send c)]\<rparr>"

definition write_fail :: "client \<Rightarrow> client" where
  "write_fail c = c\<lparr>cl_send := tl (cl_send c), cl_open := False\<rparr>"

definition cancel :: "client \<Rightarrow> client" where
  "cancel c = c\<lparr>cl_open := False\<rparr>"

definition ClientCount :: "hub \<Rightarrow> nat" where
  "ClientCount h = length (hb_clients h)"

definition MarshalEvent :: "int \<Rightarrow> time \<Rightarrow> string \<Rightarrow> json \<Rightarrow> json" where
  "MarshalEvent off now eventType payload =
     JObj [(''type'', JStr eventType), (''payload'', payload), (''time'', JStr (fmt_rfc3339_nano off now))]"

section \<open>Steps\<close>

datatype hub_act =
    Connect
  | BStart nat hub_event "nat list"
  | BOffer nat hub_event nat "nat list"
  | BEnd nat hub_event
  | WriteOk nat
  | WriteFail nat
  | Cancel nat
  | Disconnect nat

text \<open>
  A broadcast starts with the registered clients in some order, visits them one at a time and
  ends; clients come and go only while no broadcast is under way (the write lock). The writer
  of a cancelled connection may take one more event, whose write fails.
\<close>

inductive hub_step :: "hub \<Rightarrow> hub_act \<Rightarrow> hub \<Rightarrow> bool" where
  connect: "hb_active h = [] \<Longrightarrow> hub_step h Connect (register h)"
| bstart: "b \<notin> fst ` set (hb_active h) \<Longrightarrow> mset order = mset (hb_clients h) \<Longrightarrow>
    hub_step h (BStart b evt order) (h\<lparr>hb_active := (b, evt, order) # hb_active h\<rparr>)"
| boffer: "hb_active h = xs @ (b, evt, c # cs) # ys \<Longrightarrow>
    hub_step h (BOffer b evt c cs) ((upd_client c (offer evt) h)\<lparr>hb_active := xs @ (b, evt, cs) # ys\<rparr>)"
| bend: "hb_active h = xs @ (b, evt, []) # ys \<Longrightarrow>
    hub_step h (BEnd b evt) (h\<lparr>hb_active := xs @ ys\<rparr>)"
| write_ok: "cl_send (hb_conn h c) \<noteq> [] \<Longrightarrow> cl_open (hb_conn h c) \<Longrightarrow>
    hub_step h (WriteOk c) (upd_client c write_ok h)"
| write_fail: "cl_send (hb_conn h c) \<noteq> [] \<Longrightarrow> hub_step h (WriteFail c) (upd_client c write_fail h)"
| cancel: "hub_step h (Cancel c) (upd_client c cancel h)"
| disconnect: "hb_active h = [] \<Longrightarrow> c \<in> set (hb_clients h) \<Longrightarrow>
    hub_step h (Disconnect c) (upd_client c cancel (unregister c h))"

inductive hub_steps :: "hub \<Rightarrow> hub_act list \<Rightarrow> hub \<Rightarrow> bool" where
  idle: "hub_steps h [] h"
| act: "hub_step h a h' \<Longrightarrow> hub_steps h' as h'' \<Longrightarrow> hub_steps h (a # as) h''"

inductive_cases hub_stepE: "hub_step h a h'"
inductive_simps hub_steps_Nil [simp]: "hub_steps h [] h'"
inductive_simps hub_steps_Cons: "hub_steps h (a # as) h'"

lemma hub_steps_append:
  "hub_steps h (as @ bs) h'' \<longleftrightarrow> (\<exists>h'. hub_steps h as h' \<and> hub_steps h' bs h'')"
  by (induction as arbitrary: h) (auto simp: hub_steps_Cons)

section \<open>Channels are bounded and ordered\<close>

definition client_ok :: "client \<Rightarrow> bool" where
  "client_ok c \<longleftrightarrow> length (cl_send c) \<le> send_capacity
     \<and> subseq (cl_sent c @ cl_send c) (cl_offered c)
     \<and> (cl_open c \<and> length (cl_offered c) \<le> send_capacity \<longrightarrow> cl_sent c @ cl_send c = cl_offered c)"

definition hub_ok :: "hub \<Rightarrow> bool" where
  "hub_ok h \<longleftrightarrow> (\<forall>c. client_ok (hb_conn h c)) \<and> distinct (hb_clients h)
     \<and> (\<forall>c \<in> set (hb_clients h). c < hb_next h)
     \<and> distinct (map fst (hb_active h))
     \<and> (\<forall>(b, evt, cs) \<in> set (hb_active h). distinct cs \<and> set cs \<subseteq> set (hb_clients h))"

lemma client_ok_ops:
  assumes "client_ok c"
  shows "client_ok (offer evt c)"
    "cl_send c \<noteq> [] \<Longrightarrow> cl_open c \<Longrightarrow> client_ok (write_ok c)"
    "cl_send c \<noteq> [] \<Longrightarrow> client_ok (write_fail c)"
    "client_ok (cancel c)"
proof -
  show "client_ok (offer evt c)"
  proof (cases "length (cl_send c) < send_capacity")
    case True
    have "subseq ((cl_sent c @ cl_send c) @ [evt]) (cl_offered c @ [evt])"
      using assms by (simp only: subseq_append client_ok_def)
    with True assms show ?thesis by (auto simp: client_ok_def offer_def)
  next
    case False
    have "subseq (cl_sent c @ cl_send c) (cl_offered c @ [evt])"
      using assms by (auto simp: client_ok_def intro: list_emb_prefix)
    moreover have "\<not> (cl_open c \<and> Suc (length (cl_offered c)) \<le> send_capacity)"
    proof
      assume o: "cl_open c \<and> Suc (length (cl_offered c)) \<le> send_capacity"
      with assms have "cl_sent c @ cl_send c = cl_offered c" by (simp add: client_ok_def)
      then have "length (cl_send c) \<le> length (cl_offered c)" by (metis length_append le_add2)
      with o False show False by simp
    qed
    ultimately show ?thesis using False assms by (auto simp: client_ok_def offer_def)
  qed
  show "client_ok (write_ok c)" if "cl_send c \<noteq> []" "cl_open c"
    using assms that by (cases "cl_send c") (auto simp: client_ok_def write_ok_def)
  show "client_ok (write_fail c)" if "cl_send c \<noteq> []"
  proof (cases "cl_send c")
    case (Cons e q)
    have "subseq (cl_sent c @ q) (cl_sent c @ e # q)" by (rule list_emb_append_mono) (auto intro: list_emb_Cons)
    with Cons assms show ?thesis
      by (auto simp: client_ok_def write_fail_def intro: subseq_order.trans)
  qed (use that in simp)
  show "client_ok (cancel c)"
    using assms by (simp add: client_ok_def cancel_def)
qed

lemma fresh_client_ok: "client_ok fresh_client"
  by (simp add: client_ok_def fresh_client_def)

lemma hub_ok_New: "hub_ok New"
  by (simp add: hub_ok_def New_def fresh_client_ok)

lemma hub_ok_client:
  "hub_ok h \<Longrightarrow> client_ok (f (hb_conn h c)) \<Longrightarrow> hub_ok (upd_client c f h)"
  by (simp add: hub_ok_def upd_client_def)

lemma hub_step_ok:
  assumes "hub_step h a h'" "hub_ok h"
  shows "hub_ok h'"
proof -
  have cl: "client_ok (hb_conn h c)" for c using assms(2) by (simp add: hub_ok_def)
  from assms show ?thesis
  proof (cases rule: hub_step.cases)
    case connect
    have "hb_next h \<notin> set (hb_clients h)" using assms(2) by (auto simp: hub_ok_def)
    moreover have "\<forall>c. client_ok (hb_conn h c)" "distinct (hb_clients h)" "\<forall>c \<in> set (hb_clients h). c < hb_next h"
      using assms(2) by (simp_all add: hub_ok_def)
    ultimately show ?thesis
      using connect by (auto simp: hub_ok_def register_def fresh_client_ok less_Suc_eq)
  next
    case (bstart b order evt)
    then have "distinct order" "set order = set (hb_clients h)"
      using assms(2) mset_eq_imp_distinct_iff [of order "hb_clients h"] mset_eq_setD
      by (auto simp: hub_ok_def)
    with bstart assms(2) show ?thesis by (auto simp: hub_ok_def)
  next
    case (boffer xs b evt c cs ys)
    with assms(2) have "hub_ok (upd_client c (offer evt) h)"
      by (intro hub_ok_client client_ok_ops) (simp_all add: hub_ok_def)
    with boffer show ?thesis by (auto simp: hub_ok_def upd_client_def)
  next
    case (bend xs b evt ys)
    with assms(2) show ?thesis by (auto simp: hub_ok_def)
  next
    case (write_ok c)
    then show ?thesis using assms(2) by (simp add: hub_ok_client client_ok_ops(2) [OF cl])
  next
    case (write_fail c)
    then show ?thesis using assms(2) by (simp add: hub_ok_client client_ok_ops(3) [OF cl])
  next
    case (cancel c)
    then show ?thesis using assms(2) by (simp add: hub_ok_client client_ok_ops(4) [OF cl])
  next
    case (disconnect c)
    then have "hub_ok (unregister c h)" using assms(2) by (auto simp: hub_ok_def unregister_def)
    moreover have "client_ok (cancel (hb_conn (unregister c h) c))"
      using client_ok_ops(4) [OF cl, of c] by (simp add: unregister_def)
    ultimately show ?thesis using disconnect by (simp add: hub_ok_client)
  qed
qed

lemma hub_steps_ok: "hub_steps h as h' \<Longrightarrow> hub_ok h \<Longrightarrow> hub_ok h'"
  by (induction rule: hub_steps.induct) (auto dest: hub_step_ok)

text \<open>C29: Channels are bounded and keep the order. Along any execution a channel never holds
  more than 32 events; what a connection has been sent, followed by what waits for it, is a
  subsequence of what was offered to it; and as long as its connection is open and at most 32
  events were offered to it, a client has lost none of them.\<close>

theorem hub_delivers_in_order:
  assumes "hub_steps New as h"
  shows "length (cl_send (hb_conn h c)) \<le> 32 \<and>
    subseq (cl_sent (hb_conn h c) @ cl_send (hb_conn h c)) (cl_offered (hb_conn h c)) \<and>
    (cl_open (hb_conn h c) \<and> length (cl_offered (hb_conn h c)) \<le> 32 \<longrightarrow>
       cl_sent (hb_conn h c) @ cl_send (hb_conn h c) = cl_offered (hb_conn h c))"
proof -
  have "client_ok (hb_conn h c)"
    using hub_steps_ok [OF assms hub_ok_New] by (simp add: hub_ok_def)
  then show ?thesis by (simp add: client_ok_def send_capacity_def)
qed

section \<open>Broadcasts do not wait for clients\<close>

definition offers :: "nat \<Rightarrow> hub_event \<Rightarrow> nat list \<Rightarrow> hub_act list" where
  "offers b evt cs = map (\<lambda>k. BOffer b evt (cs ! k) (drop (Suc k) cs)) [0..<length cs]"

lemma offers_simps [simp]:
  "offers b evt [] = []"
  "offers b evt (c # cs) = BOffer b evt c cs # offers b evt cs"
  by (simp_all add: offers_def upt_conv_Cons map_Suc_upt [symmetric] del: upt_Suc)

lemma upd_client_frame [simp]:
  "hb_active (upd_client c f h) = hb_active h" "hb_clients (upd_client c f h) = hb_clients h"
  "hb_next (upd_client c f h) = hb_next h"
  by (simp_all add: upd_client_def)

lemma fold_offer_active:
  "fold (\<lambda>c. upd_client c (offer evt)) cs (g\<lparr>hb_active := v\<rparr>) =
     (fold (\<lambda>c. upd_client c (offer evt)) cs g)\<lparr>hb_active := v\<rparr>"
proof (induction cs arbitrary: g)
  case (Cons c cs)
  have "upd_client c (offer evt) (g\<lparr>hb_active := v\<rparr>) = (upd_client c (offer evt) g)\<lparr>hb_active := v\<rparr>"
    by (simp add: upd_client_def)
  with Cons show ?case by simp
qed simp

lemma broadcast_runs:
  assumes "hb_active h = xs @ (b, evt, cs) # ys"
  shows "hub_steps h (offers b evt cs @ [BEnd b evt])
    ((fold (\<lambda>c. upd_client c (offer evt)) cs h)\<lparr>hb_active := xs @ ys\<rparr>)"
  using assms
proof (induction cs arbitrary: h)
  case Nil
  then show ?case by (simp add: hub_steps_Cons bend)
next
  case (Cons c cs)
  let ?h = "(upd_client c (offer evt) h)\<lparr>hb_active := xs @ (b, evt, cs) # ys\<rparr>"
  have "hub_steps ?h (offers b evt cs @ [BEnd b evt])
      ((fold (\<lambda>c. upd_client c (offer evt)) cs ?h)\<lparr>hb_active := xs @ ys\<rparr>)"
    by (rule Cons.IH) simp
  then show ?case
    using boffer [OF Cons.prems] by (auto simp: hub_steps_Cons fold_offer_active)
qed

text \<open>A broadcast waits for no client. In any reachable state, a broadcast under way can
  run to its end by its own steps alone, one for each client left and one to end, whatever the
  state of their channels; started with nothing else under way and run without interruption,
  it does what \<open>Broadcast\<close> computes.\<close>

theorem broadcast_never_blocks:
  assumes "hb_active h = xs @ (b, \<lparr>he_Type = ty, he_Payload = pl, he_Time = t\<rparr>, cs) # ys"
  shows "(\<exists>h'. hub_steps h (offers b \<lparr>he_Type = ty, he_Payload = pl, he_Time = t\<rparr> cs
            @ [BEnd b \<lparr>he_Type = ty, he_Payload = pl, he_Time = t\<rparr>]) h'
        \<and> hb_active h' = xs @ ys \<and> hb_clients h' = hb_clients h
        \<and> hb_conn h' = hb_conn (Broadcast cs t ty pl h))"
proof -
  have "hb_clients (fold (\<lambda>c. upd_client c (offer evt)) cs h) = hb_clients h" for evt
    by (induction cs arbitrary: h) simp_all
  then show ?thesis
    using broadcast_runs [OF assms] by (auto simp: Broadcast_def)
qed

definition ev :: "string \<Rightarrow> hub_event" where
  "ev s = \<lparr>he_Type = s, he_Payload = JNull, he_Time = 0\<rparr>"

theorem broadcast_never_blocks_witness:
  "\<exists>h'. hub_steps ((register New)\<lparr>hb_active := [(7, ev ''x'', [0])]\<rparr>) [BOffer 7 (ev ''x'') 0 [], BEnd 7 (ev ''x'')] h'
     \<and> hb_active h' = [] \<and> cl_send (hb_conn h' 0) = [ev ''x'']"
  using broadcast_never_blocks [of "(register New)\<lparr>hb_active := [(7, ev ''x'', [0])]\<rparr>" "[]" 7 "''x''" JNull 0 "[0]" "[]"]
  by (auto simp: ev_def Broadcast_def upd_client_def offer_def Let_def register_def New_def fresh_client_def
      send_capacity_def)

theorem hub_delivers_in_order_witness:
  "\<exists>h. hub_steps New [Connect, BStart 0 (ev ''x'') [0], BOffer 0 (ev ''x'') 0 [], WriteOk 0] h
     \<and> cl_sent (hb_conn h 0) = [ev ''x''] \<and> length (cl_send (hb_conn h 0)) \<le> 32"
proof -
  have "\<exists>h. hub_steps New [Connect, BStart 0 (ev ''x'') [0], BOffer 0 (ev ''x'') 0 [], WriteOk 0] h
      \<and> cl_sent (hb_conn h 0) = [ev ''x'']"
    apply (rule exI, rule conjI)
     apply (rule hub_steps.act, rule connect, simp add: New_def)
     apply (rule hub_steps.act, rule bstart, simp add: New_def register_def, simp add: New_def register_def)
     apply (rule hub_steps.act, rule boffer [where xs = "[]" and ys = "[]"], simp add: New_def register_def)
     apply (rule hub_steps.act, rule write_ok,
        simp_all add: New_def register_def upd_client_def offer_def send_capacity_def fresh_client_def Let_def)
    apply (simp add: write_ok_def)
    done
  then show ?thesis using hub_delivers_in_order by blast
qed

text \<open>Two broadcasts can reach two clients in opposite orders. The read lock is shared, so
  broadcasts started by two requests may interleave: for any two events there is an execution
  in which one client is offered them in one order and another client in the other.\<close>

theorem concurrent_broadcasts_reorder:
  "\<exists>as h. hub_steps New as h \<and> cl_send (hb_conn h 0) = [e1, e2] \<and> cl_send (hb_conn h 1) = [e2, e1]"
proof -
  have "\<exists>h. hub_steps New [Connect, Connect, BStart 0 e1 [0, 1], BStart 1 e2 [1, 0], BOffer 0 e1 0 [1],
      BOffer 1 e2 1 [0], BOffer 0 e1 1 [], BOffer 1 e2 0 []] h
      \<and> cl_send (hb_conn h 0) = [e1, e2] \<and> cl_send (hb_conn h 1) = [e2, e1]"
    apply (rule exI, rule conjI)
     apply (rule hub_steps.act, rule connect, simp add: New_def)
     apply (rule hub_steps.act, rule connect, simp add: New_def register_def)
     apply (rule hub_steps.act, rule bstart, simp add: New_def register_def, simp add: New_def register_def)
     apply (rule hub_steps.act, rule bstart, simp add: New_def register_def, simp add: New_def register_def)
     apply (rule hub_steps.act, rule boffer [where xs = "[(1, e2, [1, 0])]" and ys = "[]"],
        simp add: New_def register_def)
     apply (rule hub_steps.act, rule boffer [where xs = "[]" and ys = "[(0, e1, [1])]"], simp)
     apply (rule hub_steps.act, rule boffer [where xs = "[(1, e2, [0])]" and ys = "[]"], simp)
     apply (rule hub_steps.act, rule boffer [where xs = "[]" and ys = "[(0, e1, [])]"], simp, rule hub_steps.idle)
    apply (simp add: New_def register_def upd_client_def offer_def send_capacity_def fresh_client_def Let_def)
    done
  then show ?thesis by blast
qed

end
