(* ===== verification/Replication.thy ===== *)
theory Replication
  imports Btrfs Storage
begin

text \<open>
  \<open>internal/replication\<close>: replication jobs. A job is registered as running, reads the snapshot
  with \<open>btrfs send\<close>, asks the target node over gRPC to create a snapshot, and ends as done or
  failed with one event in the database. The gRPC client is not part of the repository: \<open>G\<close>
  opens connections and makes the call. Jobs run concurrently; a job touches the shared
  manager when it begins and when it ends, each time under the mutex.
\<close>

section \<open>Jobs\<close>

record job =
  j_ID :: string
  j_SnapshotID :: string
  j_SnapshotPath :: string
  j_ParentPath :: string
  j_TargetNodeID :: string
  j_TargetAddress :: string
  j_TargetDestPath :: string
  j_Status :: string
  j_Error :: string
  j_StartedAt :: time
  j_FinishedAt :: time

record create_req =
  cq_NodeId :: string
  cq_SubvolumePath :: string
  cq_SnapshotName :: string
  cq_Readonly :: bool

record 'r grpc =
  gr_NewClient :: "string \<Rightarrow> goerror option"
  gr_CreateSnapshot :: "string \<Rightarrow> create_req \<Rightarrow> 'r \<Rightarrow> (goerror + string) \<times> 'r"

type_synonym jobs = "string \<rightharpoonup> job"

record ('x, 'r) repl_world =
  rw_btrfs :: 'x
  rw_remote :: 'r
  rw_jobs :: jobs
  rw_db :: db

definition NewManager :: jobs where
  "NewManager = Map.empty"

text \<open>A map holds the job itself, so a change of a job shows in the map.\<close>

definition put_job :: "job \<Rightarrow> ('x, 'r) repl_world \<Rightarrow> ('x, 'r) repl_world" where
  "put_job j w = w\<lparr>rw_jobs := (rw_jobs w)(j_ID j \<mapsto> j)\<rparr>"

definition start_job :: "time \<Rightarrow> job \<Rightarrow> job" where
  "start_job t j = j\<lparr>j_Status := ''running'', j_StartedAt := t\<rparr>"

text \<open>\<open>fmt.Sprintf("%d", t.UnixNano())\<close>\<close>

definition nano_id :: "time \<Rightarrow> string" where
  "nano_id t = dec_int (wrap64 t)"

definition failed_event :: "time \<Rightarrow> job \<Rightarrow> goerror \<Rightarrow> event" where
  "failed_event t j err =
     \<lparr>e_ID = nano_id t, e_Type = ''replication_failed'', e_NodeID = j_TargetNodeID j,
      e_SnapshotID = [], e_Message = ''Fallo replicaci'' @ [CHR 0xC3, CHR 0xB3] @ ''n: '' @ err,
      e_Severity = ''error'', e_Metadata = [], e_CreatedAt = zero_time, e_DeletedAt = None\<rparr>"

definition completed_event :: "time \<Rightarrow> job \<Rightarrow> string \<Rightarrow> event" where
  "completed_event t j path =
     \<lparr>e_ID = nano_id t, e_Type = ''replication_completed'', e_NodeID = j_TargetNodeID j,
      e_SnapshotID = [],
      e_Message = ''Snapshot replicado: '' @ j_SnapshotPath j @ '' -> '' @ path,
      e_Severity = ''info'', e_Metadata = [], e_CreatedAt = zero_time, e_DeletedAt = None\<rparr>"

definition save_event :: "gorm \<Rightarrow> event \<Rightarrow> ('x, 'r) repl_world \<Rightarrow> ('x, 'r) repl_world" where
  "save_event g ev w = w\<lparr>rw_db := snd (CreateEvent g ev (rw_db w))\<rparr>"

definition failed_job :: "time \<Rightarrow> goerror \<Rightarrow> job \<Rightarrow> job" where
  [simp]: "failed_job t err j = j\<lparr>j_Status := ''failed'', j_Error := err, j_FinishedAt := t\<rparr>"

definition done_job :: "time \<Rightarrow> job \<Rightarrow> job" where
  [simp]: "done_job t j = j\<lparr>j_Status := ''done'', j_FinishedAt := t\<rparr>"

definition fail :: "gorm \<Rightarrow> time \<Rightarrow> time \<Rightarrow> goerror \<Rightarrow> job \<Rightarrow> ('x, 'r) repl_world \<Rightarrow> job \<times> ('x, 'r) repl_world" where
  "fail g t_end t_event err j w =
     (let j' = failed_job t_end err j
      in (j', save_event g (failed_event t_event j' err) (put_job j' w)))"

definition complete :: "gorm \<Rightarrow> time \<Rightarrow> time \<Rightarrow> string \<Rightarrow> job \<Rightarrow> ('x, 'r) repl_world \<Rightarrow> job \<times> ('x, 'r) repl_world" where
  "complete g t_event t_end path j w =
     (let j' = done_job t_end j
      in (j', put_job j' (save_event g (completed_event t_event j path) w)))"

text \<open>What happens between the two: the local send, the connection and the remote call.\<close>

definition replica_request :: "int \<Rightarrow> time \<Rightarrow> job \<Rightarrow> create_req" where
  "replica_request off t j =
     \<lparr>cq_NodeId = j_TargetNodeID j, cq_SubvolumePath = j_TargetDestPath j,
      cq_SnapshotName = ''replica_'' @ fmt_stamp (civil_of off t), cq_Readonly = True\<rparr>"

definition transfer ::
    "'x btrfs_cmd \<Rightarrow> 'r grpc \<Rightarrow> int \<Rightarrow> time \<Rightarrow> job \<Rightarrow> ('x, 'r) repl_world
     \<Rightarrow> (goerror + string) \<times> ('x, 'r) repl_world" where
  "transfer X G off t j w =
     (let (sent, x) = SendSnapshot X (j_SnapshotPath j) (j_ParentPath j) (rw_btrfs w);
          w1 = w\<lparr>rw_btrfs := x\<rparr>
      in case sent of
           Inl e \<Rightarrow> (Inl (''btrfs send: '' @ e), w1)
         | Inr data \<Rightarrow>
             (case gr_NewClient G (j_TargetAddress j) of
                Some e \<Rightarrow> (Inl (''conectar a '' @ j_TargetAddress j @ '': '' @ e), w1)
              | None \<Rightarrow>
                  (let (resp, r) = gr_CreateSnapshot G (j_TargetAddress j) (replica_request off t j)
                                     (rw_remote w1);
                       w2 = w1\<lparr>rw_remote := r\<rparr>
                   in case resp of
                        Inl e \<Rightarrow> (Inl (''crear snapshot destino: '' @ e), w2)
                      | Inr path \<Rightarrow> (Inr path, w2))))"

text \<open>\<open>clk\<close> gives the readings of the clock in the order of the code.\<close>

definition Replicate ::
    "'x btrfs_cmd \<Rightarrow> 'r grpc \<Rightarrow> gorm \<Rightarrow> int \<Rightarrow> (nat \<Rightarrow> time) \<Rightarrow> job \<Rightarrow> ('x, 'r) repl_world
     \<Rightarrow> goerror option \<times> job \<times> ('x, 'r) repl_world" where
  "Replicate X G g off clk job w =
     (let j = start_job (clk 0) job; w1 = put_job j w;
          (res, w2) = transfer X G off (clk 1) j w1
      in case res of
           Inl e \<Rightarrow> (Some e, fail g (clk 2) (clk 3) e j w2)
         | Inr path \<Rightarrow> (None, complete g (clk 2) (clk 3) path j w2))"

definition ListJobs :: "string list \<Rightarrow> jobs \<Rightarrow> job list" where
  "ListJobs order m = List.map_filter m order"

definition GetJob :: "string \<Rightarrow> jobs \<Rightarrow> job option" where
  "GetJob i m = m i"

section \<open>What one replication does\<close>

lemma transfer_frame:
  "rw_jobs (snd (transfer X G off t j w)) = rw_jobs w"
  "rw_db (snd (transfer X G off t j w)) = rw_db w"
  by (simp_all add: transfer_def case_prod_unfold Let_def split: sum.split option.split)

lemma rw_frame [simp]:
  "rw_jobs (save_event g ev w) = rw_jobs w" "rw_btrfs (save_event g ev w) = rw_btrfs w"
  "rw_remote (save_event g ev w) = rw_remote w"
  "rw_db (put_job j w) = rw_db w" "rw_btrfs (put_job j w) = rw_btrfs w"
  "rw_remote (put_job j w) = rw_remote w"
  "rw_jobs (put_job j w) = (rw_jobs w)(j_ID j \<mapsto> j)"
  "rw_db (save_event g ev w) = snd (CreateEvent g ev (rw_db w))"
  by (simp_all add: save_event_def put_job_def)

text \<open>C32: A replication ends, and says how. It succeeds exactly when \<open>btrfs send\<close> worked, the
  connection could be opened and the target answered the call with the path of its snapshot; the
  job it leaves is then registered as done, with its error field as it was. Otherwise it returns an
  error that names the first of the three that failed, and leaves the job registered as failed with
  this error. In each case one event, about the outcome, is given to the database, no other job
  changes, and the target was called at most once, and only when the first two steps worked.\<close>

theorem replication_outcome:
  assumes "Replicate X G g off clk job w = (err, j, w')"
    and "sent = fst (SendSnapshot X (j_SnapshotPath job) (j_ParentPath job) (rw_btrfs w))"
    and "dial = gr_NewClient G (j_TargetAddress job)"
    and "resp = gr_CreateSnapshot G (j_TargetAddress job) (replica_request off (clk 1) job) (rw_remote w)"
  shows "rw_jobs w' = (rw_jobs w)(j_ID job \<mapsto> j) \<and>
    (case err of
       None \<Rightarrow> j_Status j = ''done'' \<and> j_Error j = j_Error job \<and>
         (\<exists>data path. sent = Inr data \<and> dial = None \<and> resp = (Inr path, rw_remote w') \<and>
            rw_db w' = snd (CreateEvent g (completed_event (clk 2) job path) (rw_db w)))
     | Some e \<Rightarrow> j_Status j = ''failed'' \<and> j_Error j = e \<and>
         rw_db w' = snd (CreateEvent g (failed_event (clk 3) job e) (rw_db w)) \<and>
         ((\<exists>e'. sent = Inl e' \<and> e = ''btrfs send: '' @ e' \<and> rw_remote w' = rw_remote w) \<or>
          (\<exists>data e'. sent = Inr data \<and> dial = Some e' \<and>
             e = ''conectar a '' @ j_TargetAddress job @ '': '' @ e' \<and> rw_remote w' = rw_remote w) \<or>
          (\<exists>data e'. sent = Inr data \<and> dial = None \<and> resp = (Inl e', rw_remote w') \<and>
             e = ''crear snapshot destino: '' @ e')))"
proof -
  have req: "replica_request off t (start_job u job) = replica_request off t job" for t u
    by (simp add: replica_request_def start_job_def)
  note eq = Replicate_def transfer_def fail_def complete_def start_job_def put_job_def save_event_def
    failed_event_def completed_event_def
  note req' = req [of "clk 1" "clk 0", unfolded start_job_def]
  show ?thesis
  proof (cases "fst (SendSnapshot X (j_SnapshotPath job) (j_ParentPath job) (rw_btrfs w))")
    case (Inl e)
    then show ?thesis using assms(1) unfolding assms(2-4) by (auto simp: eq case_prod_unfold Let_def)
  next
    case (Inr data)
    show ?thesis
    proof (cases "gr_NewClient G (j_TargetAddress job)")
      case None
      obtain a r where r: "gr_CreateSnapshot G (j_TargetAddress job) (replica_request off (clk 1) job) (rw_remote w) = (a, r)"
        by fastforce
      show ?thesis
        using assms(1) None Inr r req' unfolding assms(2-4) by (cases a) (auto simp: eq case_prod_unfold Let_def)
    next
      case (Some e)
      then show ?thesis using assms(1) Inr unfolding assms(2-4) by (auto simp: eq case_prod_unfold Let_def)
    qed
  qed
qed

text \<open>The hypotheses of the next property: the same outcomes, whatever is printed.\<close>

definition same_but_output :: "'x btrfs_cmd \<Rightarrow> 'x btrfs_cmd \<Rightarrow> bool" where
  "same_but_output X Y \<longleftrightarrow> (\<forall>args stdin x.
     cr_fail (fst (X args stdin x)) = cr_fail (fst (Y args stdin x))
     \<and> cr_stderr (fst (X args stdin x)) = cr_stderr (fst (Y args stdin x))
     \<and> snd (X args stdin x) = snd (Y args stdin x))"

text \<open>C33: The data of a snapshot is not replicated. Two runs whose \<open>btrfs send\<close> prints different
  streams, with the same success, make the same remote call, leave the same remote state and
  the same job and event: nothing of the stream reaches the target.\<close>

theorem replica_ignores_data:
  assumes "same_but_output X Y"
  shows "Replicate X G g off clk job w = Replicate Y G g off clk job w"
proof -
  have "fst (SendSnapshot X p q x) = Inl e \<longleftrightarrow> fst (SendSnapshot Y p q x) = Inl e"
    "snd (SendSnapshot X p q x) = snd (SendSnapshot Y p q x)" for p q x e
    using assms
    by (auto simp: same_but_output_def SendSnapshot_def case_prod_unfold Let_def split: option.splits)
  then have "transfer X G off t j v = transfer Y G off t j v" for t j v
    unfolding transfer_def case_prod_unfold Let_def
    by (auto split: sum.split) (metis Inl_Inr_False Inl_inject)+
  then show ?thesis by (simp add: Replicate_def)
qed

section \<open>Jobs side by side\<close>

text \<open>
  Each job runs in a goroutine of its own. What is atomic is a critical section, a command, a call
  of the target, and a statement of the database; a goroutine is cut at these points, and reads the
  clock at most once on the way to the next. It works on the job that it registered itself.
\<close>

datatype repl_task =
    RBegin job
  | RSend job
  | RCall job
  | RFinish job string
  | RMark job
  | RFail job goerror
  | RReport job goerror

fun repl_task_step ::
    "'x btrfs_cmd \<Rightarrow> 'r grpc \<Rightarrow> gorm \<Rightarrow> int \<Rightarrow> time \<Rightarrow> repl_task \<Rightarrow> ('x, 'r) repl_world
     \<Rightarrow> repl_task option \<times> ('x, 'r) repl_world" where
  "repl_task_step X G g off t (RBegin j) w = (Some (RSend (start_job t j)), put_job (start_job t j) w)"
| "repl_task_step X G g off t (RSend j) w =
     (let (sent, x) = SendSnapshot X (j_SnapshotPath j) (j_ParentPath j) (rw_btrfs w)
      in (Some (case sent of Inl e \<Rightarrow> RFail j (''btrfs send: '' @ e) | Inr data \<Rightarrow> RCall j), w\<lparr>rw_btrfs := x\<rparr>))"
| "repl_task_step X G g off t (RCall j) w =
     (case gr_NewClient G (j_TargetAddress j) of
        Some e \<Rightarrow> (Some (RFail j (''conectar a '' @ j_TargetAddress j @ '': '' @ e)), w)
      | None \<Rightarrow>
          (let (resp, r) = gr_CreateSnapshot G (j_TargetAddress j) (replica_request off t j) (rw_remote w)
           in (Some (case resp of Inl e \<Rightarrow> RFail j (''crear snapshot destino: '' @ e) | Inr path \<Rightarrow> RFinish j path),
               w\<lparr>rw_remote := r\<rparr>)))"
| "repl_task_step X G g off t (RFinish j path) w = (Some (RMark j), save_event g (completed_event t j path) w)"
| "repl_task_step X G g off t (RMark j) w = (None, put_job (done_job t j) w)"
| "repl_task_step X G g off t (RFail j e) w = (Some (RReport (failed_job t e j) e), put_job (failed_job t e j) w)"
| "repl_task_step X G g off t (RReport j e) w = (None, save_event g (failed_event t j e) w)"

text \<open>
  The pool: a job is launched, one of the goroutines goes on, or something else changes the local
  file systems, the target or the database.
\<close>

datatype ('x, 'r) repl_event =
    Launch job
  | Go nat time
  | Outside 'x 'r db

fun pool_step ::
    "'x btrfs_cmd \<Rightarrow> 'r grpc \<Rightarrow> gorm \<Rightarrow> int \<Rightarrow> ('x, 'r) repl_event
     \<Rightarrow> ('x, 'r) repl_world \<times> repl_task list \<Rightarrow> unit \<times> ('x, 'r) repl_world \<times> repl_task list" where
  "pool_step X G g off (Launch j) (w, ts) = ((), w, ts @ [RBegin j])"
| "pool_step X G g off (Go k t) (w, ts) =
     (if k < length ts
      then (case repl_task_step X G g off t (ts ! k) w of
              (Some c, w') \<Rightarrow> ((), w', ts[k := c])
            | (None, w') \<Rightarrow> ((), w', take k ts @ drop (Suc k) ts))
      else ((), w, ts))"
| "pool_step X G g off (Outside x r d) (w, ts) = ((), w\<lparr>rw_btrfs := x, rw_remote := r, rw_db := d\<rparr>, ts)"

fun task_job :: "repl_task \<Rightarrow> job" where
  "task_job (RBegin j) = j"
| "task_job (RSend j) = j"
| "task_job (RCall j) = j"
| "task_job (RFinish j _) = j"
| "task_job (RMark j) = j"
| "task_job (RFail j _) = j"
| "task_job (RReport j _) = j"

abbreviation task_id :: "repl_task \<Rightarrow> string" where
  "task_id c \<equiv> j_ID (task_job c)"

text \<open>The handler gives every job a new identifier and no error.\<close>

definition launch_pre :: "('x, 'r) repl_world \<times> repl_task list \<Rightarrow> ('x, 'r) repl_event \<Rightarrow> bool" where
  "launch_pre p e = (case e of
     Launch j \<Rightarrow> rw_jobs (fst p) (j_ID j) = None \<and> j_ID j \<notin> task_id ` set (snd p) \<and> j_Error j = []
   | _ \<Rightarrow> True)"

text \<open>Between the two critical sections of its goroutine a job is being worked on.\<close>

fun works :: "repl_task \<Rightarrow> bool" where
  "works (RBegin _) = False"
| "works (RReport _ _) = False"
| "works _ = True"

definition task_ok :: "jobs \<Rightarrow> repl_task \<Rightarrow> bool" where
  "task_ok m c \<longleftrightarrow>
     (case c of
        RBegin j \<Rightarrow> m (j_ID j) = None \<and> j_Error j = []
      | RReport j e \<Rightarrow> m (j_ID j) = Some j \<and> j_Status j = ''failed'' \<and> j_Error j \<noteq> []
      | _ \<Rightarrow> m (task_id c) = Some (task_job c) \<and> j_Status (task_job c) = ''running'' \<and> j_Error (task_job c) = []) \<and>
     (\<forall>j e. c = RFail j e \<longrightarrow> e \<noteq> [])"

definition job_ok :: "string \<Rightarrow> job \<Rightarrow> bool" where
  "job_ok i j \<longleftrightarrow> j_ID j = i \<and> j_Status j \<in> {''running'', ''done'', ''failed''}
     \<and> (j_Error j \<noteq> [] \<longleftrightarrow> j_Status j = ''failed'')"

definition pool_ok :: "jobs \<Rightarrow> repl_task list \<Rightarrow> bool" where
  "pool_ok m ts \<longleftrightarrow> distinct (map task_id ts) \<and> (\<forall>c \<in> set ts. task_ok m c) \<and>
     (\<forall>i j. m i = Some j \<longrightarrow> job_ok i j \<and>
        (j_Status j = ''running'' \<longrightarrow> (\<exists>c \<in> set ts. works c \<and> task_id c = i)))"

lemma task_ok_other: "m' (task_id c) = m (task_id c) \<Longrightarrow> task_ok m' c \<longleftrightarrow> task_ok m c"
  by (cases c) (simp_all add: task_ok_def)

text \<open>A goroutine touches only its own job, and hands it on as the next point expects it.\<close>

lemma task_step_own:
  assumes "repl_task_step X G g off t c w = (r, w')" "task_ok (rw_jobs w) c"
  shows "i \<noteq> task_id c \<Longrightarrow> rw_jobs w' i = rw_jobs w i"
    "r = Some c' \<Longrightarrow> task_id c' = task_id c \<and> task_ok (rw_jobs w') c'"
    "rw_jobs w' (task_id c) = Some j \<Longrightarrow> job_ok (task_id c) j \<and>
       (j_Status j = ''running'' \<longrightarrow> (\<exists>c'. r = Some c' \<and> works c'))"
    "rw_jobs w (task_id c) = Some j \<Longrightarrow> j_Status j \<noteq> ''running'' \<Longrightarrow> rw_jobs w' (task_id c) = Some j"
  using assms
  by (cases c; auto simp: task_ok_def job_ok_def start_job_def case_prod_unfold Let_def split: option.splits sum.splits)+

lemma pool_ok_go:
  assumes ok: "pool_ok (rw_jobs w) (as @ c # bs)" and st: "repl_task_step X G g off t c w = (r, w')"
  shows "pool_ok (rw_jobs w') (as @ (case r of Some c' \<Rightarrow> [c'] | None \<Rightarrow> []) @ bs)"
proof -
  note o1 = ok [unfolded pool_ok_def]
  have c: "task_ok (rw_jobs w) c" using o1 by simp
  note own = task_step_own [OF st c]
  have "task_id c \<notin> task_id ` set (as @ bs)" using o1 by auto
  then have rest: "task_id d \<noteq> task_id c" if "d \<in> set (as @ bs)" for d using that by (metis image_eqI)
  have "\<forall>d \<in> set (as @ bs). task_ok (rw_jobs w) d" using o1 by simp
  then have others: "\<forall>d \<in> set (as @ bs). task_ok (rw_jobs w') d"
    using own(1) [OF rest] task_ok_other by blast
  have jobs: "job_ok i j \<and> (j_Status j = ''running'' \<longrightarrow>
      (\<exists>d \<in> set (as @ (case r of Some c' \<Rightarrow> [c'] | None \<Rightarrow> []) @ bs). works d \<and> task_id d = i))"
    if j: "rw_jobs w' i = Some j" for i j
  proof (cases "i = task_id c")
    case True
    then show ?thesis using own(3) [of j] own(2) j by (cases r) auto
  next
    case False
    then have "rw_jobs w i = Some j" using own(1) j by simp
    then show ?thesis using o1 False by (fastforce split: option.splits)
  qed
  show ?thesis
    unfolding pool_ok_def
    using o1 others jobs own(2) by (cases r) auto
qed

lemma pool_step_ok:
  assumes "pool_ok (rw_jobs (fst p)) (snd p)" "launch_pre p e"
  shows "pool_ok (rw_jobs (fst (snd (pool_step X G g off e p)))) (snd (snd (pool_step X G g off e p)))"
proof (cases p)
  case (Pair w ts)
  show ?thesis
  proof (cases e)
    case (Launch j)
    have "task_ok (rw_jobs w) (RBegin j)" using assms(2) Launch Pair by (simp add: launch_pre_def task_ok_def)
    then show ?thesis
      using assms Launch Pair by (auto simp: pool_ok_def launch_pre_def)
  next
    case (Go k t)
    show ?thesis
    proof (cases "k < length ts")
      case True
      have ts: "ts = take k ts @ ts ! k # drop (Suc k) ts" by (rule id_take_nth_drop [OF True])
      have ok: "pool_ok (rw_jobs w) (take k ts @ ts ! k # drop (Suc k) ts)" using assms(1) ts Pair by simp
      obtain r w' where st: "repl_task_step X G g off t (ts ! k) w = (r, w')" by fastforce
      from pool_ok_go [OF ok st] show ?thesis
        unfolding Go Pair using True st by (cases r) (simp_all add: upd_conv_take_nth_drop)
    qed (use assms(1) Go Pair in simp)
  next
    case (Outside x r d)
    then show ?thesis using assms(1) Pair by simp
  qed
qed

interpretation jobs: machine "pool_step X G g off" launch_pre "\<lambda>p. pool_ok (rw_jobs (fst p)) (snd p)"
  by unfold_locales (rule pool_step_ok)

lemma pool_step_final:
  assumes "pool_ok (rw_jobs (fst p)) (snd p)" "launch_pre p e" "rw_jobs (fst p) i = Some j" "j_Status j \<noteq> ''running''"
  shows "rw_jobs (fst (snd (pool_step X G g off e p))) i = Some j"
proof (cases "(X, G, g, off, e, p)" rule: pool_step.cases)
  case (2 X' G' g' off' k t w ts)
  show ?thesis
  proof (cases "k < length ts")
    case True
    obtain r w' where st: "repl_task_step X G g off t (ts ! k) w = (r, w')" by fastforce
    have "task_ok (rw_jobs w) (ts ! k)" using assms(1) 2 True by (simp add: pool_ok_def)
    note own = task_step_own(1,4) [OF st this]
    have "rw_jobs w' i = Some j" using own assms(3,4) 2 by (cases "i = task_id (ts ! k)") auto
    then show ?thesis using 2 True st by (auto split: option.split)
  qed (use assms(3) 2 in simp)
qed (use assms(3) in auto)

lemma pool_run_final:
  "pool_ok (rw_jobs (fst p)) (snd p) \<Longrightarrow> valid_run launch_pre (pool_step X G g off) es p \<Longrightarrow>
     rw_jobs (fst p) i = Some j \<Longrightarrow> j_Status j \<noteq> ''running'' \<Longrightarrow>
     rw_jobs (fst (snd (run (pool_step X G g off) es p))) i = Some j"
proof (induction es arbitrary: p)
  case (Cons e es)
  then show ?case
    using pool_step_final [of p e i j X G g off] pool_step_ok [of p e X G g off] by simp
qed simp

text \<open>C31: A job ends once, and it is running only while somebody works on it. Jobs with new
  identifiers and no error are launched at any time, their goroutines take their steps in any order, and the
  file systems, the target and the database change in between as they like. At every moment a
  listed job is running, done or failed and carries an error exactly when it failed; it is running
  exactly when the goroutine that works on it is between its two critical sections, so no job is
  left running when all goroutines are gone; and a job that has ended is never changed again.\<close>

theorem job_lifecycle:
  assumes "rw_jobs w0 = NewManager" "valid_run launch_pre (pool_step X G g off) (acts @ later) (w0, [])"
    and "snd (run (pool_step X G g off) acts (w0, [])) = (w, ts)" "GetJob i (rw_jobs w) = Some j"
  shows "j_ID j = i \<and> j_Status j \<in> {''running'', ''done'', ''failed''} \<and>
    (j_Error j \<noteq> [] \<longleftrightarrow> j_Status j = ''failed'') \<and>
    (j_Status j = ''running'' \<longleftrightarrow> (\<exists>c \<in> set ts. works c \<and> task_id c = i)) \<and>
    (j_Status j \<noteq> ''running'' \<longrightarrow>
       GetJob i (rw_jobs (fst (snd (run (pool_step X G g off) later (w, ts))))) = Some j)"
proof -
  have "pool_ok (rw_jobs (fst (w0, []))) (snd (w0, []))" using assms(1) by (simp add: pool_ok_def NewManager_def)
  with jobs.run_prefix_inv [OF this] assms(2,3) have ok: "pool_ok (rw_jobs w) ts" by (metis fst_conv snd_conv)
  have v: "valid_run launch_pre (pool_step X G g off) later (w, ts)"
    using assms(2,3) by (simp add: valid_run_append)
  have j: "rw_jobs w i = Some j" using assms(4) by (simp add: GetJob_def)
  have "j_Status j = ''running''" if "c \<in> set ts" "works c" "task_id c = i" for c
    using ok that j by (cases c) (auto simp: pool_ok_def task_ok_def)
  moreover have "job_ok i j \<and> (j_Status j = ''running'' \<longrightarrow> (\<exists>c \<in> set ts. works c \<and> task_id c = i))"
    using ok j by (simp add: pool_ok_def)
  moreover have "j_Status j \<noteq> ''running'' \<longrightarrow>
       GetJob i (rw_jobs (fst (snd (run (pool_step X G g off) later (w, ts))))) = Some j"
    using pool_run_final [OF _ v, of i j] ok j by (simp add: GetJob_def)
  ultimately show ?thesis unfolding job_ok_def by blast
qed

text \<open>A goroutine alone does what \<open>Replicate\<close> does.\<close>

fun repl_alone ::
    "'x btrfs_cmd \<Rightarrow> 'r grpc \<Rightarrow> gorm \<Rightarrow> int \<Rightarrow> time list \<Rightarrow> repl_task \<Rightarrow> ('x, 'r) repl_world \<Rightarrow> ('x, 'r) repl_world" where
  "repl_alone X G g off [] c w = w"
| "repl_alone X G g off (t # ts) c w =
     (case repl_task_step X G g off t c w of
        (Some c', w') \<Rightarrow> repl_alone X G g off ts c' w'
      | (None, w') \<Rightarrow> w')"

lemma replicate_alone:
  "\<exists>ts. snd (snd (Replicate X G g off clk job w)) = repl_alone X G g off ts (RBegin job) w"
proof -
  let ?j = "start_job (clk 0) job"
  have frame: "transfer X G off t j (put_job i w) =
      (fst (transfer X G off t j w), put_job i (snd (transfer X G off t j w)))" for t j i
    by (simp add: transfer_def case_prod_unfold Let_def put_job_def split: sum.split option.split)
  note eq = Replicate_def transfer_def fail_def complete_def put_job_def save_event_def start_job_def
  show ?thesis
  proof (cases "fst (SendSnapshot X (j_SnapshotPath ?j) (j_ParentPath ?j) (rw_btrfs w))")
    case (Inl e)
    then show ?thesis
      by (intro exI [of _ "[clk 0, 0, clk 2, clk 3]"])
        (simp add: eq case_prod_unfold Let_def)
  next
    case (Inr data)
    show ?thesis
    proof (cases "gr_NewClient G (j_TargetAddress ?j)")
      case None
      show ?thesis
        by (cases "fst (gr_CreateSnapshot G (j_TargetAddress ?j) (replica_request off (clk 1) ?j) (rw_remote w))";
            insert Inr None; intro exI [of _ "[clk 0, 0, clk 1, clk 2, clk 3]"])
          (simp_all add: eq case_prod_unfold Let_def)
    next
      case (Some e)
      then show ?thesis using Inr
        by (intro exI [of _ "[clk 0, 0, clk 1, clk 2, clk 3]"]) (simp add: eq case_prod_unfold Let_def)
    qed
  qed
qed

section \<open>Examples\<close>

definition ok_world :: "string \<Rightarrow> unit btrfs_cmd" where
  "ok_world out args stdin x =
     (\<lparr>cr_stdout = out, cr_stderr = [], cr_combined = out, cr_fail = None\<rparr>, ())"

definition demo_grpc :: "nat grpc" where
  "demo_grpc = \<lparr>gr_NewClient = (\<lambda>a. if a = [] then Some ''missing address'' else None),
     gr_CreateSnapshot = (\<lambda>a r n. (Inr ''/backup/.snapshots/replica'', Suc n))\<rparr>"

definition demo_job :: job where
  "demo_job = \<lparr>j_ID = ''j1'', j_SnapshotID = ''s1'', j_SnapshotPath = ''/data/.snapshots/a'',
     j_ParentPath = [], j_TargetNodeID = ''n2'', j_TargetAddress = ''10.0.0.2:9090'',
     j_TargetDestPath = ''/backup'', j_Status = ''pending'', j_Error = [], j_StartedAt = zero_time,
     j_FinishedAt = zero_time\<rparr>"

definition demo_repl :: "(unit, nat) repl_world" where
  "demo_repl = \<lparr>rw_btrfs = (), rw_remote = 0, rw_jobs = NewManager, rw_db = empty_db\<rparr>"

lemmas repl_eval = Replicate_def transfer_def demo_grpc_def demo_job_def demo_repl_def ok_world_def
  SendSnapshot_def put_job_def save_event_def complete_def fail_def start_job_def CreateEvent_def
  ref_gorm_def ref_table_def empty_db_def NewManager_def

theorem replication_outcome_witness:
  "let (err, j, w') = Replicate (ok_world ''DATA'') demo_grpc ref_gorm 0 (\<lambda>k. int k) demo_job demo_repl
   in err = None \<and> j_Status j = ''done'' \<and> rw_jobs w' ''j1'' = Some j \<and> rw_remote w' = 1 \<and> length (db_events (rw_db w')) = 1"
proof -
  obtain err j w' where c: "Replicate (ok_world ''DATA'') demo_grpc ref_gorm 0 (\<lambda>k. int k) demo_job demo_repl
      = (err, j, w')" by (metis prod_cases3)
  moreover have "err = None" "length (db_events (rw_db w')) = 1" "rw_remote w' = 1"
    using c by (auto simp: repl_eval Let_def)
  moreover have "j_ID demo_job = ''j1''" by (simp add: demo_job_def)
  ultimately show ?thesis
    using replication_outcome [OF c refl refl refl] by simp
qed

theorem replica_ignores_data_witness:
  "Replicate (ok_world ''DATA'') demo_grpc ref_gorm 0 (\<lambda>k. int k) demo_job demo_repl =
   Replicate (ok_world []) demo_grpc ref_gorm 0 (\<lambda>k. int k) demo_job demo_repl"
  by (rule replica_ignores_data) (simp add: same_but_output_def ok_world_def)

abbreviation demo_gos :: "(unit, nat) repl_event list" where
  "demo_gos \<equiv> [Go 0 1, Go 1 2, Go 1 3, Go 0 4, Go 1 5, Go 1 6, Go 1 7]"

abbreviation demo_acts :: "(unit, nat) repl_event list" where
  "demo_acts \<equiv> Launch demo_job # Launch (demo_job\<lparr>j_ID := ''j2'', j_TargetAddress := []\<rparr>) # demo_gos"

lemma valid_gos: "list_all (\<lambda>e. case e of Launch _ \<Rightarrow> False | _ \<Rightarrow> True) es \<Longrightarrow> valid_run launch_pre st es p"
  by (induction es arbitrary: p) (auto simp: launch_pre_def split: repl_event.splits)

lemma run_Cons_snd: "snd (run st (e # es) s) = snd (run st es (snd (st e s)))"
  by simp

lemma start_job_fields:
  "j_ID (start_job t j) = j_ID j" "j_TargetAddress (start_job t j) = j_TargetAddress j" "j_Status (start_job t j) = ''running''"
  by (simp_all add: start_job_def)

lemma demo_run:
  assumes "\<And>p q x. SendSnapshot X p q x = (Inr data, x)" "gr_NewClient G (j_TargetAddress b) = Some e"
    and "j_ID a \<noteq> j_ID b"
  shows "\<exists>w' d. snd (run (pool_step X G g off) demo_gos (w, [RBegin a, RBegin b])) = (w', [RCall (start_job 1 a)]) \<and>
    rw_jobs w' (j_ID a) = Some (start_job 1 a) \<and> rw_jobs w' (j_ID b) = Some (failed_job 6 d (start_job 2 b))"
proof -
  let ?a = "start_job 1 a" and ?b = "start_job 2 b" and ?st = "\<lambda>e p. snd (pool_step X G g off e p)"
  have 1: "?st (Go 0 1) (w, [RBegin a, c]) = (put_job ?a w, [RSend ?a, c])" for w c by simp
  have 2: "?st (Go 1 2) (w, [c, RBegin b]) = (put_job ?b w, [c, RSend ?b])" for w c by simp
  have 3: "?st (Go 1 3) (w, [c, RSend ?b]) = (w, [c, RCall ?b])" for w c using assms(1) by simp
  have 4: "?st (Go 0 4) (w, [RSend ?a, c]) = (w, [RCall ?a, c])" for w c using assms(1) by simp
  obtain d where 5: "\<And>w c. ?st (Go 1 5) (w, [c, RCall ?b]) = (w, [c, RFail ?b d])"
    using assms(2) by (simp add: start_job_fields)
  have 6: "?st (Go 1 6) (w, [c, RFail ?b d]) = (put_job (failed_job 6 d ?b) w, [c, RReport (failed_job 6 d ?b) d])" for w c
    by (simp del: failed_job_def)
  have 7: "?st (Go 1 7) (w, [c, RReport j d]) = (save_event g (failed_event 7 j d) w, [c])" for w c j by simp
  let ?w = "save_event g (failed_event 7 (failed_job 6 d ?b) d) (put_job (failed_job 6 d ?b) (put_job ?b (put_job ?a w)))"
  have "snd (run (pool_step X G g off) demo_gos (w, [RBegin a, RBegin b])) = (?w, [RCall ?a])"
    unfolding run_Cons_snd 1 2 3 4 5 6 7 by simp
  moreover have "rw_jobs ?w (j_ID a) = Some ?a" "rw_jobs ?w (j_ID b) = Some (failed_job 6 d ?b)"
    using assms(3) by (simp_all add: start_job_fields)
  ultimately show ?thesis by blast
qed

lemma valid_two:
  "pre p a \<Longrightarrow> pre (snd (st a p)) b \<Longrightarrow> (\<And>q. valid_run pre st es q) \<Longrightarrow> valid_run pre st (a # b # es) p"
  by simp

theorem job_lifecycle_witness:
  "let (w, ts) = snd (run (pool_step (ok_world ''DATA'') demo_grpc ref_gorm 0) demo_acts (demo_repl, []))
   in \<exists>j j2. GetJob ''j1'' (rw_jobs w) = Some j \<and> j_Status j = ''running'' \<and>
      GetJob ''j2'' (rw_jobs w) = Some j2 \<and> j_Status j2 = ''failed'' \<and> j_Error j2 \<noteq> [] \<and> length ts = 1"
proof -
  let ?st = "pool_step (ok_world ''DATA'') demo_grpc ref_gorm 0"
  obtain w ts where r: "snd (run ?st demo_acts (demo_repl, [])) = (w, ts)" by (metis prod.collapse)
  have sn: "SendSnapshot (ok_world ''DATA'') p q x = (Inr ''DATA'', ())" for p q x
    by (simp add: SendSnapshot_def ok_world_def)
  have d: "gr_NewClient demo_grpc [] = Some ''missing address''" "j_ID demo_job = ''j1''" "j_Error demo_job = []"
    "rw_jobs demo_repl = NewManager"
    by (simp_all add: demo_grpc_def demo_job_def demo_repl_def)
  note ev = sn d start_job_def GetJob_def NewManager_def
  have "valid_run launch_pre ?st demo_gos p" for p by (rule valid_gos) simp
  then have v: "valid_run launch_pre ?st (demo_acts @ []) (demo_repl, [])"
    unfolding append_Nil2 by (rule valid_two [rotated 2]) (simp_all add: launch_pre_def ev)
  let ?b = "demo_job\<lparr>j_ID := ''j2'', j_TargetAddress := []\<rparr>"
  have "\<exists>w' e. snd (run ?st demo_gos (demo_repl, [RBegin demo_job, RBegin ?b])) = (w', [RCall (start_job 1 demo_job)]) \<and>
    rw_jobs w' (j_ID demo_job) = Some (start_job 1 demo_job) \<and> rw_jobs w' (j_ID ?b) = Some (failed_job 6 e (start_job 2 ?b))"
    by (rule demo_run [where data = "''DATA''" and e = "''missing address''"]) (simp_all add: sn d)
  moreover have "snd (run ?st demo_acts (demo_repl, [])) = snd (run ?st demo_gos (demo_repl, [RBegin demo_job, RBegin ?b]))"
    by (simp only: run_Cons_snd pool_step.simps append.simps snd_conv)
  ultimately obtain j j2 where j: "GetJob ''j1'' (rw_jobs w) = Some j" "j_Status j = ''running''"
      "GetJob ''j2'' (rw_jobs w) = Some j2" "j_Status j2 = ''failed''" "length ts = 1"
    using r by (auto simp: GetJob_def d start_job_fields)
  have "j_Error j2 \<noteq> []" using job_lifecycle [OF d(4) v r j(3)] j(4) by simp
  then show ?thesis using r j by simp
qed

end
