(* ===== verification/Deploy.thy ===== *)
theory Deploy
  imports GoStd
begin

text \<open>
  \<open>internal/config\<close>, \<open>internal/tlsconfig\<close>, the transport security of the server's gRPC
  endpoint (\<open>cmd/server\<close>) and the agent (\<open>cmd/agent\<close>). The configuration library (viper),
  the certificate functions of the Go library and the file system are arguments: \<open>V\<close>, \<open>L\<close>
  and \<open>stat\<close>.
\<close>

section \<open>Configuration\<close>

record server_config =
  cs_Host :: string
  cs_Port :: int
  cs_GRPCPort :: int
  cs_TLSEnabled :: bool
  cs_TLSCert :: string
  cs_TLSKey :: string
  cs_TLSCACert :: string

record database_config =
  cd_Driver :: string
  cd_Host :: string
  cd_Port :: int
  cd_User :: string
  cd_Password :: string
  cd_Database :: string

record auth_config =
  ca_JWTSecret :: string
  ca_TokenExpiry :: int
  ca_MTLSEnabled :: bool

record btrfs_config =
  cb_DefaultSnapshotDir :: string
  cb_MaxSnapshotSizeGB :: int

record agent_config =
  cg_ServerAddress :: string
  cg_NodeID :: string
  cg_Token :: string
  cg_HeartbeatSec :: int
  cg_TLSCert :: string
  cg_TLSKey :: string
  cg_TLSCACert :: string

record config =
  cf_Server :: server_config
  cf_Database :: database_config
  cf_Auth :: auth_config
  cf_Btrfs :: btrfs_config
  cf_Agent :: agent_config

datatype setting = SStr string | SInt int

datatype read_error = ConfigFileNotFound goerror | ReadError goerror

text \<open>
  Reading a file gives its settings; decoding takes the prefix for environment variables, the
  defaults and the settings.
\<close>

record 'v viper =
  vp_empty :: 'v
  vp_ReadInConfig :: "string \<Rightarrow> read_error + 'v"
  vp_Unmarshal :: "string \<Rightarrow> (string \<times> setting) list \<Rightarrow> 'v \<Rightarrow> goerror + config"

definition config_defaults :: "(string \<times> setting) list" where
  "config_defaults =
     [(''server.host'', SStr ''0.0.0.0''), (''server.port'', SInt 8080), (''server.grpc_port'', SInt 9090),
      (''database.driver'', SStr ''sqlite''), (''btrfs.default_snapshot_dir'', SStr ''.snapshots''),
      (''agent.heartbeat_seconds'', SInt 30)]"

definition Load :: "'v viper \<Rightarrow> string \<Rightarrow> goerror + config" where
  "Load V path =
     (case vp_ReadInConfig V path of
        Inl (ReadError e) \<Rightarrow> Inl (''error leyendo config: '' @ e)
      | Inl (ConfigFileNotFound e) \<Rightarrow>
          (case vp_Unmarshal V ''SNAPAH'' config_defaults (vp_empty V) of
             Inl e \<Rightarrow> Inl (''error parseando config: '' @ e)
           | Inr cfg \<Rightarrow> Inr cfg)
      | Inr v \<Rightarrow>
          (case vp_Unmarshal V ''SNAPAH'' config_defaults v of
             Inl e \<Rightarrow> Inl (''error parseando config: '' @ e)
           | Inr cfg \<Rightarrow> Inr cfg))"

section \<open>TLS\<close>

datatype client_auth = NoClientCert | RequireAndVerifyClientCert

text \<open>A pool is the text of the CA file it was filled from.\<close>

record 'k tls_config =
  tc_Certificates :: "'k list"
  tc_ClientCAs :: "string option"
  tc_ClientAuth :: client_auth
  tc_RootCAs :: "string option"
  tc_MinVersion :: nat

record 'k tls_lib =
  tl_LoadX509KeyPair :: "string \<Rightarrow> string \<Rightarrow> goerror + 'k"
  tl_ReadFile :: "string \<Rightarrow> goerror + string"
  tl_AppendCertsFromPEM :: "string \<Rightarrow> bool"

definition VersionTLS13 :: nat where
  "VersionTLS13 = 0x0304"

definition invalid_ca :: goerror where
  "invalid_ca = ''CA inv'' @ [CHR 0xC3, CHR 0xA1] @ ''lido''"

definition ServerTLS :: "'k tls_lib \<Rightarrow> string \<Rightarrow> string \<Rightarrow> string \<Rightarrow> goerror + 'k tls_config" where
  "ServerTLS L certFile keyFile caFile =
     (case tl_LoadX509KeyPair L certFile keyFile of
        Inl e \<Rightarrow> Inl (''cargar cert servidor: '' @ e)
      | Inr cert \<Rightarrow>
          (case tl_ReadFile L caFile of
             Inl e \<Rightarrow> Inl (''leer CA: '' @ e)
           | Inr ca \<Rightarrow>
               if \<not> tl_AppendCertsFromPEM L ca then Inl invalid_ca
               else Inr \<lparr>tc_Certificates = [cert], tc_ClientCAs = Some ca,
                         tc_ClientAuth = RequireAndVerifyClientCert, tc_RootCAs = None,
                         tc_MinVersion = VersionTLS13\<rparr>))"

definition ClientTLS :: "'k tls_lib \<Rightarrow> string \<Rightarrow> string \<Rightarrow> string \<Rightarrow> goerror + 'k tls_config" where
  "ClientTLS L certFile keyFile caFile =
     (case tl_LoadX509KeyPair L certFile keyFile of
        Inl e \<Rightarrow> Inl (''cargar cert agente: '' @ e)
      | Inr cert \<Rightarrow>
          (case tl_ReadFile L caFile of
             Inl e \<Rightarrow> Inl (''leer CA: '' @ e)
           | Inr ca \<Rightarrow>
               if \<not> tl_AppendCertsFromPEM L ca then Inl invalid_ca
               else Inr \<lparr>tc_Certificates = [cert], tc_ClientCAs = None, tc_ClientAuth = NoClientCert,
                         tc_RootCAs = Some ca, tc_MinVersion = VersionTLS13\<rparr>))"

datatype stat_result = StatOk | StatNotExist | StatError goerror

definition CertsExist :: "(string \<Rightarrow> stat_result) \<Rightarrow> string \<Rightarrow> string \<Rightarrow> string \<Rightarrow> bool" where
  "CertsExist stat certFile keyFile caFile =
     list_all (\<lambda>f. stat f \<noteq> StatNotExist) [certFile, keyFile, caFile]"

text \<open>How the gRPC endpoint of the server is protected, or the error the server stops with.\<close>

datatype 'k transport = MTLS "'k tls_config" | Insecure

definition grpc_transport ::
    "'k tls_lib \<Rightarrow> (string \<Rightarrow> stat_result) \<Rightarrow> server_config \<Rightarrow> goerror + 'k transport" where
  "grpc_transport L stat sc =
     (if cs_TLSEnabled sc \<and> CertsExist stat (cs_TLSCert sc) (cs_TLSKey sc) (cs_TLSCACert sc)
      then (case ServerTLS L (cs_TLSCert sc) (cs_TLSKey sc) (cs_TLSCACert sc) of
              Inl e \<Rightarrow> Inl e
            | Inr c \<Rightarrow> Inr (MTLS c))
      else Inr Insecure)"

section \<open>The agent\<close>

definition agent_config_path :: "(string \<Rightarrow> string) \<Rightarrow> string" where
  "agent_config_path getenv =
     (let p = getenv ''SNAPAH_CONFIG'' in if p = [] then ''config.yaml'' else p)"

definition agent_server :: "(string \<Rightarrow> string) \<Rightarrow> config option \<Rightarrow> string" where
  "agent_server getenv cfg =
     (let a = getenv ''SNAPAH_SERVER'';
          b = (if a = [] then (case cfg of None \<Rightarrow> a | Some c \<Rightarrow> cg_ServerAddress (cf_Agent c)) else a)
      in if b = [] then ''localhost:9090'' else b)"

definition agent_token :: "(string \<Rightarrow> string) \<Rightarrow> config option \<Rightarrow> string" where
  "agent_token getenv cfg =
     (let a = getenv ''SNAPAH_TOKEN'';
          b = (if a = [] then (case cfg of None \<Rightarrow> a | Some c \<Rightarrow> cg_Token (cf_Agent c)) else a)
      in if b = [] then ''demo-token'' else b)"

definition agent_transport ::
    "'k tls_lib \<Rightarrow> (string \<Rightarrow> stat_result) \<Rightarrow> config option \<Rightarrow> 'k transport" where
  "agent_transport L stat cfg =
     (case cfg of
        None \<Rightarrow> Insecure
      | Some c \<Rightarrow>
          if CertsExist stat (cg_TLSCert (cf_Agent c)) (cg_TLSKey (cf_Agent c)) (cg_TLSCACert (cf_Agent c))
          then (case ClientTLS L (cg_TLSCert (cf_Agent c)) (cg_TLSKey (cf_Agent c)) (cg_TLSCACert (cf_Agent c)) of
                  Inl e \<Rightarrow> Insecure
                | Inr t \<Rightarrow> MTLS t)
          else Insecure)"

record register_req =
  rr_Hostname :: string
  rr_Address :: string
  rr_Token :: string

definition agent_registration :: "(string \<Rightarrow> string) \<Rightarrow> string \<Rightarrow> config option \<Rightarrow> register_req" where
  "agent_registration getenv hostname cfg =
     \<lparr>rr_Hostname = hostname, rr_Address = agent_server getenv cfg, rr_Token = agent_token getenv cfg\<rparr>"

definition heartbeat_sec :: "config option \<Rightarrow> int" where
  "heartbeat_sec cfg =
     (case cfg of
        None \<Rightarrow> 30
      | Some c \<Rightarrow> if 0 < cg_HeartbeatSec (cf_Agent c) then cg_HeartbeatSec (cf_Agent c) else 30)"

text \<open>
  The loop of the agent: on each tick one \<open>ListSnapshots\<close> call for its node, whatever the
  answers are, until a signal stops it. The result lists the calls and says whether it stopped.
\<close>

datatype agent_event = ATick | ASignal

fun agent_loop :: "string \<Rightarrow> agent_event list \<Rightarrow> string list \<times> bool" where
  "agent_loop nodeID [] = ([], False)"
| "agent_loop nodeID (ATick # es) = (nodeID # fst (agent_loop nodeID es), snd (agent_loop nodeID es))"
| "agent_loop nodeID (ASignal # es) = ([], True)"

section \<open>What is guaranteed\<close>

text \<open>The security of the gRPC endpoint. Under mutual TLS the endpoint demands client
  certificates signed by the configured CA and TLS 1.3; and the endpoint is left without any
  protection exactly when TLS is off or one of the three files is missing, also if TLS was
  asked for.\<close>

theorem grpc_security:
  "(case grpc_transport L stat sc of
      Inl e \<Rightarrow> cs_TLSEnabled sc
    | Inr Insecure \<Rightarrow> True
    | Inr (MTLS c) \<Rightarrow> cs_TLSEnabled sc \<and> tc_ClientAuth c = RequireAndVerifyClientCert \<and>
        tc_MinVersion c = VersionTLS13 \<and>
        (\<exists>ca. tl_ReadFile L (cs_TLSCACert sc) = Inr ca \<and> tc_ClientCAs c = Some ca)) \<and>
   (grpc_transport L stat sc = Inr Insecure \<longleftrightarrow>
      \<not> (cs_TLSEnabled sc \<and> stat (cs_TLSCert sc) \<noteq> StatNotExist \<and> stat (cs_TLSKey sc) \<noteq> StatNotExist
         \<and> stat (cs_TLSCACert sc) \<noteq> StatNotExist))"
  by (auto simp: grpc_transport_def CertsExist_def ServerTLS_def split: sum.splits)

text \<open>Server and agent agree on the CA. If both ends came up with mutual TLS from the same CA
  file, the agent trusts the CA the server demands client certificates of, with one
  certificate of its own and the same lowest protocol version; if its files cannot be used,
  the agent connects without protection instead of stopping.\<close>

theorem agent_security:
  assumes "cs_TLSCACert sc = cg_TLSCACert (cf_Agent cfg)"
  shows "(case (grpc_transport L stat sc, agent_transport L stat (Some cfg)) of
      (Inr (MTLS s), MTLS c) \<Rightarrow> tc_RootCAs c = tc_ClientCAs s \<and> length (tc_Certificates c) = 1 \<and>
         tc_MinVersion c = tc_MinVersion s
    | _ \<Rightarrow> True) \<and>
   (isl (ClientTLS L (cg_TLSCert (cf_Agent cfg)) (cg_TLSKey (cf_Agent cfg)) (cg_TLSCACert (cf_Agent cfg)))
      \<longrightarrow> agent_transport L stat (Some cfg) = Insecure)"
  using assms
  by (auto simp: grpc_transport_def agent_transport_def ServerTLS_def ClientTLS_def
      split: sum.splits if_splits)

definition demo_config :: config where
  "demo_config =
     \<lparr>cf_Server = \<lparr>cs_Host = ''0.0.0.0'', cs_Port = 8082, cs_GRPCPort = 9091, cs_TLSEnabled = True,
        cs_TLSCert = ''server.crt'', cs_TLSKey = ''server.key'', cs_TLSCACert = ''ca.crt''\<rparr>,
      cf_Database = \<lparr>cd_Driver = ''sqlite'', cd_Host = [], cd_Port = 0, cd_User = [], cd_Password = [],
        cd_Database = []\<rparr>,
      cf_Auth = \<lparr>ca_JWTSecret = ''k'', ca_TokenExpiry = 24, ca_MTLSEnabled = False\<rparr>,
      cf_Btrfs = \<lparr>cb_DefaultSnapshotDir = ''.snapshots'', cb_MaxSnapshotSizeGB = 500\<rparr>,
      cf_Agent = \<lparr>cg_ServerAddress = ''localhost:9090'', cg_NodeID = [], cg_Token = [], cg_HeartbeatSec = 30,
        cg_TLSCert = ''agent.crt'', cg_TLSKey = ''agent.key'', cg_TLSCACert = ''ca.crt''\<rparr>\<rparr>"

definition demo_tls :: "string tls_lib" where
  "demo_tls = \<lparr>tl_LoadX509KeyPair = (\<lambda>c k. Inr c), tl_ReadFile = (\<lambda>f. Inr ''PEM''),
     tl_AppendCertsFromPEM = (\<lambda>s. s \<noteq> [])\<rparr>"

theorem agent_security_witness:
  "\<exists>s c. grpc_transport demo_tls (\<lambda>_. StatOk) (cf_Server demo_config) = Inr (MTLS s)
     \<and> agent_transport demo_tls (\<lambda>_. StatOk) (Some demo_config) = MTLS c \<and> tc_RootCAs c = tc_ClientCAs s"
proof -
  obtain s where s: "grpc_transport demo_tls (\<lambda>_. StatOk) (cf_Server demo_config) = Inr (MTLS s)"
    by (simp add: grpc_transport_def CertsExist_def ServerTLS_def demo_tls_def demo_config_def)
  obtain c where c: "agent_transport demo_tls (\<lambda>_. StatOk) (Some demo_config) = MTLS c"
    by (simp add: agent_transport_def CertsExist_def ClientTLS_def demo_tls_def demo_config_def)
  have "cs_TLSCACert (cf_Server demo_config) = cg_TLSCACert (cf_Agent demo_config)"
    by (simp add: demo_config_def)
  from agent_security [OF this, of demo_tls "\<lambda>_. StatOk"] s c show ?thesis by simp
qed

lemma agent_loop_calls:
  "agent_loop nodeID es =
     (map (\<lambda>_. nodeID) (takeWhile (\<lambda>e. e \<noteq> ASignal) es), ASignal \<in> set es)"
  by (induction nodeID es rule: agent_loop.induct) auto

end
