(* ===== verification/Api.thy ===== *)
theory Api
  imports Storage GoTime Http
begin

text \<open>
  What the server sends: the messages of the gRPC interface (\<open>api/proto\<close>, the fields the
  server fills) and the JSON documents of rows and messages, with the struct tags of
  \<open>internal/storage/models.go\<close> and of the generated messages. A map is encoded with its keys in
  order; an \<open>omitempty\<close> field is left out when it has its zero value; a \<open>json:"-"\<close> field is
  never there.
\<close>

section \<open>Messages\<close>

record pb_node =
  pn_Id :: string
  pn_Hostname :: string
  pn_Address :: string
  pn_Status :: string
  pn_LastSeen :: string

record pb_snapshot =
  ps_Id :: string
  ps_NodeId :: string
  ps_SubvolumePath :: string
  ps_SnapshotPath :: string
  ps_CreatedAt :: string
  ps_IsReadonly :: bool
  ps_Status :: string

record delete_resp =
  dr_Success :: bool
  dr_Message :: string

record pb_event =
  pe_Id :: string
  pe_Type :: string
  pe_NodeId :: string
  pe_Message :: string
  pe_Timestamp :: string
  pe_Severity :: string

definition node_message :: "int \<Rightarrow> node \<Rightarrow> pb_node" where
  "node_message off n =
     \<lparr>pn_Id = n_ID n, pn_Hostname = n_Hostname n, pn_Address = n_Address n, pn_Status = n_Status n,
      pn_LastSeen = fmt_rfc3339 off (n_LastSeen n)\<rparr>"

definition snapshot_message :: "int \<Rightarrow> time \<Rightarrow> snapshot \<Rightarrow> pb_snapshot" where
  "snapshot_message off created s =
     \<lparr>ps_Id = s_ID s, ps_NodeId = s_NodeID s, ps_SubvolumePath = s_SubvolumePath s,
      ps_SnapshotPath = s_SnapshotPath s, ps_CreatedAt = fmt_rfc3339 off created,
      ps_IsReadonly = s_IsReadOnly s, ps_Status = s_Status s\<rparr>"

section \<open>JSON documents\<close>

definition omit_str :: "string \<Rightarrow> string \<Rightarrow> obj" where
  "omit_str name v = (if v = [] then [] else [(name, JStr v)])"

definition omit_bool :: "string \<Rightarrow> bool \<Rightarrow> obj" where
  "omit_bool name b = (if b then [(name, JBool True)] else [])"

definition json_time :: "int \<Rightarrow> time \<Rightarrow> json" where
  "json_time off t = JStr (fmt_rfc3339_nano off t)"

definition omit_time :: "int \<Rightarrow> string \<Rightarrow> time option \<Rightarrow> obj" where
  "omit_time off name t = (case t of None \<Rightarrow> [] | Some u \<Rightarrow> [(name, json_time off u)])"

definition node_json :: "int \<Rightarrow> node \<Rightarrow> json" where
  "node_json off n = JObj
     [(''id'', JStr (n_ID n)), (''hostname'', JStr (n_Hostname n)), (''address'', JStr (n_Address n)),
      (''status'', JStr (n_Status n)), (''last_seen'', json_time off (n_LastSeen n)),
      (''created_at'', json_time off (n_CreatedAt n)), (''updated_at'', json_time off (n_UpdatedAt n))]"

definition snapshot_json :: "int \<Rightarrow> snapshot \<Rightarrow> json" where
  "snapshot_json off s = JObj
     ([(''id'', JStr (s_ID s)), (''node_id'', JStr (s_NodeID s)),
       (''subvolume_path'', JStr (s_SubvolumePath s)), (''snapshot_path'', JStr (s_SnapshotPath s)),
       (''uuid'', JStr (s_UUID s)), (''parent_uuid'', JStr (s_ParentUUID s)),
       (''is_readonly'', JBool (s_IsReadOnly s)), (''size_bytes'', JInt (s_SizeBytes s)),
       (''status'', JStr (s_Status s))]
      @ omit_str ''error_message'' (s_ErrorMessage s)
      @ [(''created_at'', json_time off (s_CreatedAt s))]
      @ omit_time off ''expires_at'' (s_ExpiresAt s))"

definition policy_json :: "int \<Rightarrow> policy_row \<Rightarrow> json" where
  "policy_json off p = JObj
     [(''id'', JStr (p_ID p)), (''name'', JStr (p_Name p)), (''node_id'', JStr (p_NodeID p)),
      (''subvolume_path'', JStr (p_SubvolumePath p)), (''schedule'', JStr (p_Schedule p)),
      (''retention_hourly'', JInt (p_RetentionHourly p)), (''retention_daily'', JInt (p_RetentionDaily p)),
      (''retention_weekly'', JInt (p_RetentionWeekly p)), (''retention_monthly'', JInt (p_RetentionMonthly p)),
      (''readonly'', JBool (p_ReadOnly p)), (''replicate'', JBool (p_Replicate p)),
      (''replicate_target'', JStr (p_ReplicateTarget p)), (''enabled'', JBool (p_Enabled p)),
      (''created_at'', json_time off (p_CreatedAt p)), (''updated_at'', json_time off (p_UpdatedAt p))]"

definition event_json :: "int \<Rightarrow> event \<Rightarrow> json" where
  "event_json off e = JObj
     ([(''id'', JStr (e_ID e)), (''type'', JStr (e_Type e)), (''node_id'', JStr (e_NodeID e))]
      @ omit_str ''snapshot_id'' (e_SnapshotID e)
      @ [(''message'', JStr (e_Message e)), (''severity'', JStr (e_Severity e))]
      @ omit_str ''metadata'' (e_Metadata e)
      @ [(''created_at'', json_time off (e_CreatedAt e))])"

text \<open>A key in the listing: a map, not the row.\<close>

definition key_json :: "int \<Rightarrow> api_key \<Rightarrow> json" where
  "key_json off k = JObj
     ([(''active'', JBool (k_Active k)), (''created_at'', json_time off (k_CreatedAt k))]
      @ omit_time off ''expires_at'' (k_ExpiresAt k)
      @ [(''id'', JStr (k_ID k))]
      @ omit_time off ''last_used_at'' (k_LastUsedAt k)
      @ [(''name'', JStr (k_Name k)), (''prefix'', JStr (k_Prefix k)), (''role'', JStr (k_Role k))])"

definition pb_snapshot_json :: "pb_snapshot \<Rightarrow> json" where
  "pb_snapshot_json p = JObj
     (omit_str ''id'' (ps_Id p) @ omit_str ''node_id'' (ps_NodeId p)
      @ omit_str ''subvolume_path'' (ps_SubvolumePath p) @ omit_str ''snapshot_path'' (ps_SnapshotPath p)
      @ omit_str ''created_at'' (ps_CreatedAt p) @ omit_bool ''is_readonly'' (ps_IsReadonly p)
      @ omit_str ''status'' (ps_Status p))"

definition delete_resp_json :: "delete_resp \<Rightarrow> json" where
  "delete_resp_json d = JObj (omit_bool ''success'' (dr_Success d) @ omit_str ''message'' (dr_Message d))"

section \<open>Writing them\<close>

definition jsonResp :: "json \<Rightarrow> response \<Rightarrow> response" where
  "jsonResp v w = write_chunk (BJson v) (resp_set ''Content-Type'' ''application/json'' w)"

definition error_json :: "string \<Rightarrow> json" where
  "error_json msg = JObj [(''error'', JStr msg)]"

definition httpErr :: "goerror \<Rightarrow> nat \<Rightarrow> response \<Rightarrow> response" where
  "httpErr err code w =
     write_chunk (BJson (error_json err))
       (write_header code (resp_set ''Content-Type'' ''application/json'' w))"

definition forbidden :: "string \<Rightarrow> response \<Rightarrow> response" where
  "forbidden msg w =
     write_chunk (BJson (error_json msg))
       (write_header 403 (resp_set ''Content-Type'' ''application/json'' w))"

lemma httpErr_status [simp]: "rs_status w = None \<Longrightarrow> rs_status (httpErr e c w) = Some c"
  by (simp add: httpErr_def)

lemma forbidden_status [simp]: "rs_status w = None \<Longrightarrow> rs_status (forbidden m w) = Some 403"
  by (simp add: forbidden_def)

lemma jsonResp_status [simp]:
  "rs_status (jsonResp v w) = Some (case rs_status w of None \<Rightarrow> 200 | Some d \<Rightarrow> d)"
  by (simp add: jsonResp_def)

text \<open>The content type is only sent if the status was not written before.\<close>

lemma jsonResp_sent:
  "rs_sent (jsonResp v w) =
     (if rs_status w = None then header_set ''Content-Type'' ''application/json'' (rs_header w) else rs_sent w)"
  by (simp add: jsonResp_def write_chunk_sent)

lemma jsonResp_body [simp]: "rs_body (jsonResp v w) = rs_body w @ [BJson v]"
  by (simp add: jsonResp_def)

end
