(* ===== verification/Server.thy ===== *)
theory Server
  imports RateLimit Auth ApiKeys Scheduler Alerts Hub Replication Deploy Api
begin

text \<open>
  \<open>cmd/server\<close>: the state of the server, its gRPC methods, its HTTP handlers and the table of
  routes with the middleware in front of each. Everything outside the repository that the
  server calls is in one record of parameters; a handler reads the clock through \<open>clk\<close>, the
  k-th reading being \<open>clk k\<close>, and draws identifiers and random bytes through a counter.
\<close>

section \<open>State\<close>

record ('x, 'c) env =
  en_gorm :: gorm
  en_jwt :: jwt
  en_bcrypt :: bcrypt
  en_salt :: "nat \<Rightarrow> string"
  en_hash :: "string \<Rightarrow> string"
  en_btrfs :: "'x btrfs_cmd"
  en_cron :: "'c cron"
  en_uuid :: "nat \<Rightarrow> string"
  en_rand :: "nat \<Rightarrow> goerror + string"
  en_getenv :: "string \<Rightarrow> string"
  en_off :: int

text \<open>
  \<open>sv_launched\<close> are the replication jobs handed to goroutines and \<open>sv_sent\<close> the alert
  deliveries started; \<open>sv_login\<close> and \<open>sv_api\<close> are the two limiters; \<open>sv_created\<close> and
  \<open>sv_deleted\<close> the two counters of \<open>internal/metrics\<close> that the server increments.
\<close>

record ('x, 'c) server =
  sv_config :: config
  sv_db :: db
  sv_btrfs :: 'x
  sv_scheduler :: "'c scheduler"
  sv_auth :: auth_manager
  sv_users :: user_store
  sv_jobs :: jobs
  sv_launched :: "job list"
  sv_alerts :: alert_config
  sv_sent :: "delivery list"
  sv_watchdog :: watchdog
  sv_hub :: hub
  sv_created :: nat
  sv_deleted :: nat
  sv_draws :: nat
  sv_login :: limiter
  sv_api :: limiter

definition generateID :: "('x, 'c) env \<Rightarrow> ('x, 'c) server \<Rightarrow> string \<times> ('x, 'c) server" where
  "generateID E s = (en_uuid E (sv_draws s), s\<lparr>sv_draws := Suc (sv_draws s)\<rparr>)"

definition initial_users :: "('x, 'c) env \<Rightarrow> user_store" where
  "initial_users E =
     (let p = en_getenv E ''SNAPAH_ADMIN_PASSWORD'';
          adminPass = (if p = [] then ''admin123'' else p);
          us1 = snd (AddUser (en_bcrypt E) (en_salt E 0) (en_uuid E 0) ''admin'' adminPass ''admin'' NewUserStore)
      in snd (AddUser (en_bcrypt E) (en_salt E 1) (en_uuid E 1) ''operator'' ''operator123'' ''operator'' us1))"

definition newServer :: "('x, 'c) env \<Rightarrow> config \<Rightarrow> db \<Rightarrow> 'x \<Rightarrow> ('x, 'c) server" where
  "newServer E cfg d x =
     \<lparr>sv_config = cfg, sv_db = d, sv_btrfs = x, sv_scheduler = NewScheduler (en_cron E),
      sv_auth = NewAuthManager (ca_JWTSecret (cf_Auth cfg)) (ca_TokenExpiry (cf_Auth cfg)),
      sv_users = initial_users E, sv_jobs = NewManager, sv_launched = [],
      sv_alerts = ConfigFromEnv (en_getenv E), sv_sent = [], sv_watchdog = NewWatchdog (60 * second),
      sv_hub = Hub.New, sv_created = 0, sv_deleted = 0, sv_draws = 2,
      sv_login = RateLimit.New 10 minute, sv_api = RateLimit.New 200 minute\<rparr>"

section \<open>gRPC methods\<close>

definition rpc_RegisterNode ::
    "('x, 'c) env \<Rightarrow> (nat \<Rightarrow> time) \<Rightarrow> register_req \<Rightarrow> ('x, 'c) server \<Rightarrow> (goerror + pb_node) \<times> ('x, 'c) server" where
  "rpc_RegisterNode E clk req s =
     (let (i, s1) = generateID E s;
          n = \<lparr>n_ID = i, n_Hostname = rr_Hostname req, n_Address = rr_Address req, n_Status = ''online'',
               n_LastSeen = clk 0, n_CreatedAt = zero_time, n_UpdatedAt = zero_time, n_DeletedAt = None\<rparr>;
          (err, n', d) = CreateNode (en_gorm E) n (sv_db s1); s2 = s1\<lparr>sv_db := d\<rparr>
      in case err of
           Some e \<Rightarrow> (Inl e, s2)
         | None \<Rightarrow> (Inr (node_message (en_off E) n'), s2))"

definition rpc_ListNodes :: "('x, 'c) env \<Rightarrow> ('x, 'c) server \<Rightarrow> goerror + pb_node list" where
  "rpc_ListNodes E s =
     (case ListNodes (en_gorm E) (sv_db s) of
        Inl e \<Rightarrow> Inl e | Inr nodes \<Rightarrow> Inr (map (node_message (en_off E)) nodes))"

definition rpc_CreateSnapshot ::
    "('x, 'c) env \<Rightarrow> (nat \<Rightarrow> time) \<Rightarrow> create_req \<Rightarrow> ('x, 'c) server \<Rightarrow> (goerror + pb_snapshot) \<times> ('x, 'c) server" where
  "rpc_CreateSnapshot E clk req s =
     (let snapPath = SnapshotPath (en_off E) (clk 0) (cq_SubvolumePath req) (cq_SnapshotName req);
          (err, x) = CreateSnapshot (en_btrfs E) (cq_SubvolumePath req) snapPath (cq_Readonly req) (sv_btrfs s);
          s1 = s\<lparr>sv_btrfs := x\<rparr>
      in case err of
           Some e \<Rightarrow> (Inl e, s1)
         | None \<Rightarrow>
             (let (i, s2) = generateID E s1;
                  (err', snap, d) = CreateSnapshotRow (en_gorm E)
                    (new_snapshot i (cq_NodeId req) (cq_SubvolumePath req) snapPath (cq_Readonly req)) (sv_db s2);
                  s3 = s2\<lparr>sv_db := d\<rparr>
              in case err' of
                   Some e \<Rightarrow> (Inl e, s3)
                 | None \<Rightarrow> (Inr (snapshot_message (en_off E) (clk 1) snap),
                            s3\<lparr>sv_created := Suc (sv_created s3)\<rparr>)))"

definition rpc_ListSnapshots ::
    "('x, 'c) env \<Rightarrow> string \<Rightarrow> ('x, 'c) server \<Rightarrow> goerror + pb_snapshot list" where
  "rpc_ListSnapshots E nodeID s =
     (case ListSnapshotRows (en_gorm E) nodeID (sv_db s) of
        Inl e \<Rightarrow> Inl e
      | Inr snaps \<Rightarrow> Inr (map (\<lambda>snap. snapshot_message (en_off E) (s_CreatedAt snap) snap) snaps))"

definition rpc_DeleteSnapshot ::
    "('x, 'c) env \<Rightarrow> string \<Rightarrow> ('x, 'c) server \<Rightarrow> delete_resp \<times> ('x, 'c) server" where
  "rpc_DeleteSnapshot E snapshotID s =
     (case GetSnapshot (en_gorm E) snapshotID (sv_db s) of
        Inl _ \<Rightarrow> (\<lparr>dr_Success = False, dr_Message = ''snapshot not found''\<rparr>, s)
      | Inr snap \<Rightarrow>
          (let (err, x) = DeleteSnapshot (en_btrfs E) (s_SnapshotPath snap) (sv_btrfs s);
               s1 = s\<lparr>sv_btrfs := x\<rparr>
           in case err of
                Some e \<Rightarrow> (\<lparr>dr_Success = False, dr_Message = e\<rparr>, s1)
              | None \<Rightarrow>
                  (let s2 = s1\<lparr>sv_db := snd (DeleteSnapshotRow (en_gorm E) snapshotID (sv_db s1))\<rparr>
                   in (\<lparr>dr_Success = True, dr_Message = ''deleted''\<rparr>,
                       s2\<lparr>sv_deleted := Suc (sv_deleted s2)\<rparr>))))"

text \<open>
  \<open>StreamEvents\<close> sends one event when it starts, marks the node online, and then sends one
  every ten seconds until the client leaves; \<open>beats\<close> are the instants of these.
\<close>

definition stream_event :: "('x, 'c) env \<Rightarrow> string \<Rightarrow> string \<Rightarrow> string \<Rightarrow> time \<Rightarrow> ('x, 'c) server
     \<Rightarrow> pb_event \<times> ('x, 'c) server" where
  "stream_event E typ nodeID msg t s =
     (let (i, s1) = generateID E s
      in (\<lparr>pe_Id = i, pe_Type = typ, pe_NodeId = nodeID, pe_Message = msg,
           pe_Timestamp = fmt_rfc3339 (en_off E) t, pe_Severity = ''info''\<rparr>, s1))"

primrec stream_beats :: "('x, 'c) env \<Rightarrow> string \<Rightarrow> time list \<Rightarrow> ('x, 'c) server
     \<Rightarrow> pb_event list \<times> ('x, 'c) server" where
  "stream_beats E nodeID [] s = ([], s)"
| "stream_beats E nodeID (t # ts) s =
     (let (ev, s1) = stream_event E ''heartbeat'' nodeID ''ping'' t s;
          (evs, s2) = stream_beats E nodeID ts s1
      in (ev # evs, s2))"

definition rpc_StreamEvents :: "('x, 'c) env \<Rightarrow> (nat \<Rightarrow> time) \<Rightarrow> string \<Rightarrow> time list \<Rightarrow> ('x, 'c) server
     \<Rightarrow> pb_event list \<times> ('x, 'c) server" where
  "rpc_StreamEvents E clk nodeID beats s =
     (let (ev, s1) = stream_event E ''connection'' nodeID ''Stream iniciado'' (clk 0) s;
          s2 = (if nodeID \<noteq> []
                then s1\<lparr>sv_db := snd (UpdateNodeStatus (en_gorm E) (clk 1) nodeID ''online'' (sv_db s1))\<rparr>
                else s1);
          (evs, s3) = stream_beats E nodeID beats s2
      in (ev # evs, s3))"

section \<open>HTTP handlers\<close>

type_synonym ('x, 'c) server_handler = "('x, 'c) server handler"

definition handleLogin :: "('x, 'c) env \<Rightarrow> (nat \<Rightarrow> time) \<Rightarrow> ('x, 'c) server_handler" where
  "handleLogin E clk r s w =
     (if rq_method r \<noteq> ''POST'' then (s, write_header 405 w)
      else case ebind (body_members (rq_body r)) (\<lambda>ms.
               ebind (str_field ''username'' ms) (\<lambda>u.
               ebind (str_field ''password'' ms) (\<lambda>p. Inr (u, p)))) of
          Inl e \<Rightarrow> (s, httpErr e 400 w)
        | Inr (username, password) \<Rightarrow>
            (case Authenticate (en_bcrypt E) username password (sv_users s) of
               Inl _ \<Rightarrow> (s, httpErr ''credenciales invalidas'' 401 w)
             | Inr u \<Rightarrow>
                 (case GenerateToken (en_jwt E) (clk 0) (clk 1) (u_ID u) (u_Username u) (u_Role u) (sv_auth s) of
                    Inl e \<Rightarrow> (s, httpErr e 500 w)
                  | Inr token \<Rightarrow>
                      (s, jsonResp (JObj [(''role'', JStr (u_Role u)), (''token'', JStr token),
                                          (''username'', JStr (u_Username u))]) w))))"

definition handleNodes :: "('x, 'c) env \<Rightarrow> ('x, 'c) server_handler" where
  "handleNodes E r s w =
     (case ListNodes (en_gorm E) (sv_db s) of
        Inl e \<Rightarrow> (s, httpErr e 500 w)
      | Inr nodes \<Rightarrow>
          (s, jsonResp (JObj [(''count'', JInt (int (length nodes))),
                              (''nodes'', JArr (map (node_json (en_off E)) nodes))]) w))"

definition handleSnapshots :: "('x, 'c) env \<Rightarrow> (nat \<Rightarrow> time) \<Rightarrow> ('x, 'c) server_handler" where
  "handleSnapshots E clk r s w =
     (if rq_method r = ''GET'' then
        (case ListSnapshotRows (en_gorm E) (query_get r ''node_id'') (sv_db s) of
           Inl e \<Rightarrow> (s, httpErr e 500 w)
         | Inr snaps \<Rightarrow>
             (s, jsonResp (JObj [(''count'', JInt (int (length snaps))),
                                 (''snapshots'', JArr (map (snapshot_json (en_off E)) snaps))]) w))
      else if rq_method r = ''POST'' then
        (case ebind (body_members (rq_body r)) (\<lambda>ms.
               ebind (str_field ''node_id'' ms) (\<lambda>n.
               ebind (str_field ''subvolume_path'' ms) (\<lambda>p.
               ebind (str_field ''snapshot_name'' ms) (\<lambda>m.
               ebind (bool_field ''readonly'' ms) (\<lambda>ro.
                 Inr \<lparr>cq_NodeId = n, cq_SubvolumePath = p, cq_SnapshotName = m, cq_Readonly = ro\<rparr>))))) of
           Inl e \<Rightarrow> (s, httpErr e 400 w)
         | Inr req \<Rightarrow>
             (let (resp, s') = rpc_CreateSnapshot E clk req s
              in case resp of
                   Inl e \<Rightarrow> (s', httpErr e 500 w)
                 | Inr snap \<Rightarrow> (s', jsonResp (pb_snapshot_json snap) (write_header 201 w))))
      else (s, write_header 405 w))"

definition staff :: "string \<Rightarrow> bool" where
  "staff role \<longleftrightarrow> role = ''admin'' \<or> role = ''operator''"

definition handleDeleteSnapshot :: "('x, 'c) env \<Rightarrow> ('x, 'c) server_handler" where
  "handleDeleteSnapshot E r s w =
     (if rq_method r \<noteq> ''POST'' then (s, write_header 405 w)
      else if \<not> staff (get_header r ''X-User-Role'')
      then (s, forbidden ''permisos insuficientes para eliminar snapshots'' w)
      else case ebind (body_members (rq_body r)) (\<lambda>ms.
               ebind (str_field ''snapshot_id'' ms) (\<lambda>i.
               ebind (bool_field ''force'' ms) (\<lambda>force. Inr i))) of
          Inl e \<Rightarrow> (s, httpErr e 400 w)
        | Inr i \<Rightarrow>
            (let (resp, s') = rpc_DeleteSnapshot E i s in (s', jsonResp (delete_resp_json resp) w)))"

definition handleEvents :: "('x, 'c) env \<Rightarrow> ('x, 'c) server_handler" where
  "handleEvents E r s w =
     (case ListEvents (en_gorm E) 50 (sv_db s) of
        Inl e \<Rightarrow> (s, httpErr e 500 w)
      | Inr events \<Rightarrow>
          (s, jsonResp (JObj [(''count'', JInt (int (length events))),
                              (''events'', JArr (map (event_json (en_off E)) events))]) w))"

fun as_time :: "json \<Rightarrow> time option" where
  "as_time (JStr s) = parse_rfc3339 s"
| "as_time _ = None"

definition policy_of_json :: "obj \<Rightarrow> goerror + policy_row" where
  "policy_of_json ms =
     ebind (str_field ''id'' ms) (\<lambda>i. ebind (str_field ''name'' ms) (\<lambda>name.
     ebind (str_field ''node_id'' ms) (\<lambda>node. ebind (str_field ''subvolume_path'' ms) (\<lambda>path.
     ebind (str_field ''schedule'' ms) (\<lambda>sched. ebind (int_field ''retention_hourly'' ms) (\<lambda>rh.
     ebind (int_field ''retention_daily'' ms) (\<lambda>rd. ebind (int_field ''retention_weekly'' ms) (\<lambda>rw.
     ebind (int_field ''retention_monthly'' ms) (\<lambda>rm. ebind (bool_field ''readonly'' ms) (\<lambda>ro.
     ebind (bool_field ''replicate'' ms) (\<lambda>rep. ebind (str_field ''replicate_target'' ms) (\<lambda>tgt.
     ebind (bool_field ''enabled'' ms) (\<lambda>en. ebind (decode_field as_time ''created_at'' ms zero_time) (\<lambda>ca.
     ebind (decode_field as_time ''updated_at'' ms zero_time) (\<lambda>ua.
       Inr \<lparr>p_ID = i, p_Name = name, p_NodeID = node, p_SubvolumePath = path, p_Schedule = sched,
            p_RetentionHourly = rh, p_RetentionDaily = rd, p_RetentionWeekly = rw, p_RetentionMonthly = rm,
            p_ReadOnly = ro, p_Replicate = rep, p_ReplicateTarget = tgt, p_Enabled = en,
            p_CreatedAt = ca, p_UpdatedAt = ua, p_DeletedAt = None\<rparr>)))))))))))))))"

definition policy_of_row :: "policy_row \<Rightarrow> policy" where
  "policy_of_row p =
     \<lparr>sp_ID = p_ID p, sp_Name = p_Name p, sp_NodeID = p_NodeID p, sp_SubvolumePath = p_SubvolumePath p,
      sp_Schedule = p_Schedule p, sp_RetentionHourly = p_RetentionHourly p,
      sp_RetentionDaily = p_RetentionDaily p, sp_RetentionWeekly = p_RetentionWeekly p,
      sp_RetentionMonthly = p_RetentionMonthly p, sp_ReadOnly = p_ReadOnly p, sp_Replicate = p_Replicate p,
      sp_Enabled = p_Enabled p\<rparr>"

definition handlePolicies :: "('x, 'c) env \<Rightarrow> ('x, 'c) server_handler" where
  "handlePolicies E r s w =
     (if rq_method r = ''GET'' then
        (case ListPolicyRows (en_gorm E) (query_get r ''node_id'') (sv_db s) of
           Inl e \<Rightarrow> (s, httpErr e 500 w)
         | Inr policies \<Rightarrow>
             (s, jsonResp (JObj [(''count'', JInt (int (length policies))),
                                 (''policies'', JArr (map (policy_json (en_off E)) policies))]) w))
      else if rq_method r = ''POST'' then
        (if get_header r ''X-User-Role'' \<noteq> ''admin''
         then (s, forbidden ''solo admin puede crear politicas'' w)
         else case ebind (body_members (rq_body r)) policy_of_json of
             Inl e \<Rightarrow> (s, httpErr e 400 w)
           | Inr p0 \<Rightarrow>
               (let (i, s1) = generateID E s;
                    (err, p, d) = CreatePolicy (en_gorm E) (p0\<lparr>p_ID := i\<rparr>) (sv_db s1);
                    s2 = s1\<lparr>sv_db := d\<rparr>
                in case err of
                     Some e \<Rightarrow> (s2, httpErr e 500 w)
                   | None \<Rightarrow>
                       (s2\<lparr>sv_scheduler := snd (AddPolicy (en_cron E) (policy_of_row p) (sv_scheduler s2))\<rparr>,
                        jsonResp (policy_json (en_off E) p) (write_header 201 w))))
      else (s, write_header 405 w))"

definition handleRestore :: "('x, 'c) env \<Rightarrow> ('x, 'c) server_handler" where
  "handleRestore E r s w =
     (if rq_method r \<noteq> ''POST'' then (s, write_header 405 w)
      else if \<not> staff (get_header r ''X-User-Role'')
      then (s, forbidden ''solo admin u operator puede restaurar snapshots'' w)
      else case ebind (body_members (rq_body r)) (\<lambda>ms.
               ebind (str_field ''snapshot_id'' ms) (\<lambda>i.
               ebind (str_field ''restore_path'' ms) (\<lambda>p. Inr (i, p)))) of
          Inl e \<Rightarrow> (s, httpErr e 400 w)
        | Inr (i, path) \<Rightarrow>
            if i = [] \<or> path = []
            then (s, httpErr ''snapshot_id y restore_path son requeridos'' 400 w)
            else (case GetSnapshot (en_gorm E) i (sv_db s) of
                Inl e \<Rightarrow> (s, httpErr (''snapshot no encontrado: '' @ e) 404 w)
              | Inr snap \<Rightarrow>
                  (let (err, x) = CreateSnapshot (en_btrfs E) (s_SnapshotPath snap) path False (sv_btrfs s);
                       s1 = s\<lparr>sv_btrfs := x\<rparr>
                   in case err of
                        Some e \<Rightarrow> (s1, httpErr (''error restaurando: '' @ e) 500 w)
                      | None \<Rightarrow>
                          (let (evID, s2) = generateID E s1;
                               ev = \<lparr>e_ID = evID, e_Type = ''snapshot_restored'', e_NodeID = s_NodeID snap,
                                     e_SnapshotID = [],
                                     e_Message = ''Snapshot restaurado: '' @ s_SnapshotPath snap @ '' -> '' @ path,
                                     e_Severity = ''info'', e_Metadata = [], e_CreatedAt = zero_time,
                                     e_DeletedAt = None\<rparr>;
                               s3 = s2\<lparr>sv_db := snd (CreateEvent (en_gorm E) ev (sv_db s2))\<rparr>
                           in (s3, jsonResp (JObj
                                 [(''message'', JStr (''Snapshot restaurado exitosamente en '' @ path)),
                                  (''restore_path'', JStr path), (''snapshot_path'', JStr (s_SnapshotPath snap)),
                                  (''success'', JBool True)]) w)))))"

definition handleAPIKeys :: "('x, 'c) env \<Rightarrow> (nat \<Rightarrow> time) \<Rightarrow> ('x, 'c) server_handler" where
  "handleAPIKeys E clk r s w =
     (if rq_method r = ''GET'' then
        (if get_header r ''X-User-Role'' \<noteq> ''admin''
         then (s, forbidden ''solo admin puede listar API keys'' w)
         else case ListKeys (en_gorm E) (sv_db s) of
             Inl e \<Rightarrow> (s, httpErr e 500 w)
           | Inr keys \<Rightarrow>
               (s, jsonResp (JObj [(''count'', JInt (int (length keys))),
                                   (''keys'', JArr (map (key_json (en_off E)) keys))]) w))
      else if rq_method r = ''POST'' then
        (if get_header r ''X-User-Role'' \<noteq> ''admin''
         then (s, forbidden ''solo admin puede crear API keys'' w)
         else case ebind (body_members (rq_body r)) (\<lambda>ms.
               ebind (str_field ''name'' ms) (\<lambda>n. ebind (str_field ''role'' ms) (\<lambda>ro.
               ebind (int_field ''expires_days'' ms) (\<lambda>days. Inr (n, ro, days))))) of
             Inl e \<Rightarrow> (s, httpErr e 400 w)
           | Inr (n, ro, days) \<Rightarrow>
               (let (name, s1) = (if n = [] then let (i, s') = generateID E s in (''api-key-'' @ take 6 i, s')
                                  else (n, s));
                    role = (if ro = [] then ''operator'' else ro);
                    raw = en_rand E (sv_draws s1); s2 = s1\<lparr>sv_draws := Suc (sv_draws s1)\<rparr>;
                    (res, d) = GenerateKey (en_gorm E) (en_hash E) (\<lambda>_. en_off E) raw (clk 0) (clk 1) name role days (sv_db s2);
                    s3 = s2\<lparr>sv_db := d\<rparr>
                in case res of
                     Inl e \<Rightarrow> (s3, httpErr e 500 w)
                   | Inr (plaintext, k) \<Rightarrow>
                       (s3, jsonResp (JObj
                          [(''active'', JBool (k_Active k)), (''created_at'', json_time (en_off E) (k_CreatedAt k)),
                           (''id'', JStr (k_ID k)), (''key'', JStr plaintext), (''name'', JStr (k_Name k)),
                           (''prefix'', JStr (k_Prefix k)), (''role'', JStr (k_Role k)),
                           (''warning'', JStr ''Guarda esta key ahora. No se puede recuperar despues.'')])
                          (write_header 201 w))))
      else (s, write_header 405 w))"

definition handleRevokeAPIKey :: "('x, 'c) env \<Rightarrow> ('x, 'c) server_handler" where
  "handleRevokeAPIKey E r s w =
     (if rq_method r \<noteq> ''POST'' then (s, write_header 405 w)
      else if get_header r ''X-User-Role'' \<noteq> ''admin''
      then (s, forbidden ''solo admin puede revocar API keys'' w)
      else case ebind (body_members (rq_body r)) (str_field ''id'') of
          Inl e \<Rightarrow> (s, httpErr e 400 w)
        | Inr i \<Rightarrow>
            (let (ok, d) = RevokeKey (en_gorm E) i (sv_db s)
             in (s\<lparr>sv_db := d\<rparr>, jsonResp (JObj [(''id'', JStr i), (''success'', JBool ok)]) w)))"

definition or_default :: "string \<Rightarrow> string \<Rightarrow> string" where
  "or_default v d = (if v = [] then d else v)"

definition handleAlertTest :: "('x, 'c) env \<Rightarrow> (nat \<Rightarrow> time) \<Rightarrow> ('x, 'c) server_handler" where
  "handleAlertTest E clk r s w =
     (if rq_method r \<noteq> ''POST'' then (s, write_header 405 w)
      else if get_header r ''X-User-Role'' \<noteq> ''admin''
      then (s, forbidden ''solo admin puede enviar alertas de prueba'' w)
      else case ebind (body_members (rq_body r)) (\<lambda>ms.
               ebind (str_field ''level'' ms) (\<lambda>l. ebind (str_field ''title'' ms) (\<lambda>t.
               ebind (str_field ''message'' ms) (\<lambda>m. Inr (l, t, m))))) of
          Inl e \<Rightarrow> (s, httpErr e 400 w)
        | Inr (l, t, m) \<Rightarrow>
            (let level = or_default l ''info'';
                 a = \<lparr>al_Level = level, al_Title = or_default t ''Alerta de prueba'',
                      al_Message = or_default m ''Test desde snapah-pow'', al_NodeID = ''manual'',
                      al_Time = zero_time\<rparr>
             in (s\<lparr>sv_sent := sv_sent s @ Send (sv_alerts s) (clk 0) a\<rparr>,
                 jsonResp (JObj [(''level'', JStr level), (''status'', JStr ''alerta enviada'')]) w)))"

definition handleAlertConfig :: "('x, 'c) env \<Rightarrow> ('x, 'c) server_handler" where
  "handleAlertConfig E r s w =
     (if get_header r ''X-User-Role'' \<noteq> ''admin'' then (s, forbidden ''solo admin'' w)
      else let cfg = ConfigFromEnv (en_getenv E)
           in (s, jsonResp (JObj [(''email_enabled'', JBool (ac_EmailEnabled cfg)),
                                  (''smtp_from'', JStr (ac_SMTPFrom cfg)),
                                  (''smtp_host'', JStr (ac_SMTPHost cfg)),
                                  (''webhook_enabled'', JBool (ac_WebhookEnabled cfg))]) w))"

definition handleReplicate :: "('x, 'c) env \<Rightarrow> ('x, 'c) server_handler" where
  "handleReplicate E r s w =
     (if rq_method r \<noteq> ''POST'' then (s, write_header 405 w)
      else if \<not> staff (get_header r ''X-User-Role'') then (s, forbidden ''permisos insuficientes'' w)
      else case ebind (body_members (rq_body r)) (\<lambda>ms.
               ebind (str_field ''snapshot_id'' ms) (\<lambda>i. ebind (str_field ''target_node_id'' ms) (\<lambda>n.
               ebind (str_field ''target_address'' ms) (\<lambda>a. ebind (str_field ''target_dest_path'' ms) (\<lambda>p.
               ebind (str_field ''parent_path'' ms) (\<lambda>pp. Inr (i, n, a, p, pp))))))) of
          Inl e \<Rightarrow> (s, httpErr e 400 w)
        | Inr (i, n, a, p, pp) \<Rightarrow>
            (case GetSnapshot (en_gorm E) i (sv_db s) of
               Inl e \<Rightarrow> (s, httpErr (''snapshot no encontrado: '' @ e) 404 w)
             | Inr snap \<Rightarrow>
                 (let (jobID, s1) = generateID E s;
                      j = \<lparr>j_ID = jobID, j_SnapshotID = s_ID snap, j_SnapshotPath = s_SnapshotPath snap,
                           j_ParentPath = pp, j_TargetNodeID = n, j_TargetAddress = a,
                           j_TargetDestPath = p, j_Status = ''pending'', j_Error = [],
                           j_StartedAt = zero_time, j_FinishedAt = zero_time\<rparr>
                  in (s1\<lparr>sv_launched := sv_launched s1 @ [j]\<rparr>,
                      jsonResp (JObj [(''job_id'', JStr jobID), (''status'', JStr ''started'')])
                        (write_header 202 w)))))"

text \<open>A job has no struct tags: its keys are the field names.\<close>

definition job_json :: "int \<Rightarrow> job \<Rightarrow> json" where
  "job_json off j = JObj
     [(''ID'', JStr (j_ID j)), (''SnapshotID'', JStr (j_SnapshotID j)),
      (''SnapshotPath'', JStr (j_SnapshotPath j)), (''ParentPath'', JStr (j_ParentPath j)),
      (''TargetNodeID'', JStr (j_TargetNodeID j)), (''TargetAddress'', JStr (j_TargetAddress j)),
      (''TargetDestPath'', JStr (j_TargetDestPath j)), (''Status'', JStr (j_Status j)),
      (''Error'', JStr (j_Error j)), (''StartedAt'', json_time off (j_StartedAt j)),
      (''FinishedAt'', json_time off (j_FinishedAt j))]"

definition handleReplicationJobs :: "('x, 'c) env \<Rightarrow> string list \<Rightarrow> ('x, 'c) server_handler" where
  "handleReplicationJobs E order r s w =
     (let jobs = ListJobs order (sv_jobs s)
      in (s, jsonResp (JObj [(''count'', JInt (int (length jobs))),
                             (''jobs'', JArr (map (job_json (en_off E)) jobs))]) w))"

definition handleHealth :: "string \<Rightarrow> ('x, 'c) server_handler" where
  "handleHealth version r s w =
     (s, jsonResp (JObj [(''status'', JStr ''ok''), (''version'', JStr version)]) w)"

section \<open>Background work\<close>

definition broadcastEvent :: "nat list \<Rightarrow> (nat \<Rightarrow> time) \<Rightarrow> string \<Rightarrow> json \<Rightarrow> ('x, 'c) server \<Rightarrow> ('x, 'c) server" where
  "broadcastEvent order clk eventType payload s =
     s\<lparr>sv_hub := Broadcast order (clk 0) eventType payload (sv_hub s)\<rparr>"

text \<open>A tick of the watchdog, and a launched replication on the state of the server.\<close>

definition watchdog_tick :: "('x, 'c) env \<Rightarrow> time \<Rightarrow> ('x, 'c) server \<Rightarrow> ('x, 'c) server" where
  "watchdog_tick E now s =
     (let (alerts, wd, d) = check (en_gorm E) now (sv_watchdog s, sv_db s)
      in s\<lparr>sv_watchdog := wd, sv_db := d,
          sv_sent := sv_sent s @ concat (map (Send (sv_alerts s) now) alerts)\<rparr>)"

definition run_replication ::
    "('x, 'c) env \<Rightarrow> 'r grpc \<Rightarrow> (nat \<Rightarrow> time) \<Rightarrow> job \<Rightarrow> ('x, 'c) server \<times> 'r \<Rightarrow> ('x, 'c) server \<times> 'r" where
  "run_replication E G clk j sr =
     (let (s, remote) = sr;
          (err, j', w) = Replicate (en_btrfs E) G (en_gorm E) (en_off E) clk j
             \<lparr>rw_btrfs = sv_btrfs s, rw_remote = remote, rw_jobs = sv_jobs s, rw_db = sv_db s\<rparr>
      in (s\<lparr>sv_btrfs := rw_btrfs w, sv_jobs := rw_jobs w, sv_db := rw_db w\<rparr>, rw_remote w))"

text \<open>The gauges the server sets every thirty seconds; a listing that fails leaves its gauge.\<close>

record gauges =
  ga_NodesOnline :: nat
  ga_SnapshotsTotal :: nat
  ga_PoliciesActive :: nat

definition refresh_gauges :: "('x, 'c) env \<Rightarrow> db \<Rightarrow> gauges \<Rightarrow> gauges" where
  "refresh_gauges E d ga =
     (let ga1 = (case ListNodes (en_gorm E) d of
                   Inl _ \<Rightarrow> ga
                 | Inr nodes \<Rightarrow> ga\<lparr>ga_NodesOnline := length (filter (\<lambda>n. n_Status n = ''online'') nodes)\<rparr>);
          ga2 = (case ListSnapshotRows (en_gorm E) [] d of
                   Inl _ \<Rightarrow> ga1 | Inr snaps \<Rightarrow> ga1\<lparr>ga_SnapshotsTotal := length snaps\<rparr>)
      in (case ListPolicyRows (en_gorm E) [] d of
            Inl _ \<Rightarrow> ga2 | Inr pols \<Rightarrow> ga2\<lparr>ga_PoliciesActive := length pols\<rparr>))"

section \<open>Routes\<close>

definition later :: "nat \<Rightarrow> (nat \<Rightarrow> time) \<Rightarrow> nat \<Rightarrow> time" where
  "later n clk k = clk (n + k)"

definition with_auth :: "('x, 'c) env \<Rightarrow> (nat \<Rightarrow> time) \<Rightarrow> ('x, 'c) server_handler \<Rightarrow> ('x, 'c) server_handler" where
  "with_auth E clk h r s w = AuthMiddleware (en_jwt E) (clk 2) (sv_auth s) [] h r s w"

definition api_limit :: "(nat \<Rightarrow> time) \<Rightarrow> ('x, 'c) server_handler \<Rightarrow> ('x, 'c) server_handler" where
  "api_limit clk = Middleware sv_api (\<lambda>l s. s\<lparr>sv_api := l\<rparr>) (clk 0) (clk 1)"

definition login_limit :: "(nat \<Rightarrow> time) \<Rightarrow> ('x, 'c) server_handler \<Rightarrow> ('x, 'c) server_handler" where
  "login_limit clk = Middleware sv_login (\<lambda>l s. s\<lparr>sv_login := l\<rparr>) (clk 0) (clk 1)"

definition protected :: "('x, 'c) env \<Rightarrow> (nat \<Rightarrow> time) \<Rightarrow> ('x, 'c) server_handler \<Rightarrow> ('x, 'c) server_handler" where
  "protected E clk h = api_limit clk (with_auth E clk h)"

text \<open>The handlers behind the limiter and the token check.\<close>

definition api_handlers ::
    "('x, 'c) env \<Rightarrow> (nat \<Rightarrow> time) \<Rightarrow> string list \<Rightarrow> (string \<times> ('x, 'c) server_handler) list" where
  "api_handlers E clk order =
     [(''/api/nodes'', handleNodes E),
      (''/api/snapshots'', handleSnapshots E (later 3 clk)),
      (''/api/snapshots/delete'', handleDeleteSnapshot E),
      (''/api/events'', handleEvents E),
      (''/api/policies'', handlePolicies E),
      (''/api/restore'', handleRestore E),
      (''/api/keys'', handleAPIKeys E (later 3 clk)),
      (''/api/keys/revoke'', handleRevokeAPIKey E),
      (''/api/alerts/test'', handleAlertTest E (later 3 clk)),
      (''/api/alerts/config'', handleAlertConfig E),
      (''/api/replicate'', handleReplicate E),
      (''/api/replication/jobs'', handleReplicationJobs E order)]"

text \<open>
  The whole multiplexer. \<open>files\<close> is the file server behind every other path, \<open>ws\<close> the
  upgrade to a websocket, which has neither middleware.
\<close>

definition dispatch ::
    "('x, 'c) env \<Rightarrow> ('x, 'c) server_handler \<Rightarrow> ('x, 'c) server_handler \<Rightarrow> string \<Rightarrow> (nat \<Rightarrow> time)
     \<Rightarrow> string list \<Rightarrow> string \<Rightarrow> ('x, 'c) server_handler" where
  "dispatch E files ws version clk order path =
     (if path = ''/health'' then handleHealth version
      else if path = ''/api/auth/login'' then login_limit clk (handleLogin E (later 2 clk))
      else if path = ''/ws/events'' then ws
      else case map_of (api_handlers E clk order) path of
          Some h \<Rightarrow> protected E clk h
        | None \<Rightarrow> files)"

section \<open>The protected routes are guarded twice\<close>

definition session_of :: "('x, 'c) env \<Rightarrow> (nat \<Rightarrow> time) \<Rightarrow> request \<Rightarrow> ('x, 'c) server \<Rightarrow> (nat \<times> string) + claims" where
  "session_of E clk r s = authorize (en_jwt E) (clk 2) (sv_auth s) [] r"

interpretation token: guard
  "with_auth E clk"
  "\<lambda>r s. \<not> isl (session_of E clk r s)"
  "\<lambda>r s. identify_as (projr (session_of E clk r s)) r"
  "\<lambda>r s. s"
  "\<lambda>r s. http_Error (snd (projl (session_of E clk r s))) (fst (projl (session_of E clk r s)))"
  for E :: "('x, 'c) env" and clk
  by unfold_locales (simp_all add: with_auth_def session_of_def am.outcome)

definition limited :: "(nat \<Rightarrow> time) \<Rightarrow> request \<Rightarrow> ('x, 'c) server \<Rightarrow> bool" where
  "limited clk r s \<longleftrightarrow> \<not> fst (Allow (clk 0) (clk 1) (client_key r) (sv_api s))"

definition count_request :: "(nat \<Rightarrow> time) \<Rightarrow> request \<Rightarrow> ('x, 'c) server \<Rightarrow> ('x, 'c) server" where
  "count_request clk r s = s\<lparr>sv_api := snd (Allow (clk 0) (clk 1) (client_key r) (sv_api s))\<rparr>"

interpretation api: guard_chain
  "api_limit clk" "\<lambda>r s. \<not> limited clk r s" "\<lambda>r s. r" "\<lambda>r s. count_request clk r s" "\<lambda>r s. too_many"
  "with_auth E clk"
  "\<lambda>r s. \<not> isl (session_of E clk r s)"
  "\<lambda>r s. identify_as (projr (session_of E clk r s)) r"
  "\<lambda>r s. s"
  "\<lambda>r s. http_Error (snd (projl (session_of E clk r s))) (fst (projl (session_of E clk r s)))"
  for E :: "('x, 'c) env" and clk
proof -
  have "guard (api_limit clk) (\<lambda>r s. \<not> limited clk r s) (\<lambda>r s. r)
      (\<lambda>r s. count_request clk r s) (\<lambda>r (s::('x, 'c) server). too_many)" for clk
    by unfold_locales (simp_all add: api_limit_def rl.outcome limited_def count_request_def)
  then show "guard_chain (api_limit clk) (\<lambda>r s. \<not> limited clk r s) (\<lambda>r s. r)
      (\<lambda>r s. count_request clk r s) (\<lambda>r s. too_many) (with_auth E clk)
      (\<lambda>r s. \<not> isl (session_of E clk r s)) (\<lambda>r s. identify_as (projr (session_of E clk r s)) r)
      (\<lambda>r s. s)
      (\<lambda>r s. http_Error (snd (projl (session_of E clk r s))) (fst (projl (session_of E clk r s))))"
    for E :: "('x, 'c) env" and clk
    using token.guard_axioms by (intro guard_chain.intro)
qed

lemma session_after_count [simp]: "session_of E clk r (count_request clk' r' s) = session_of E clk r s"
  by (simp add: session_of_def count_request_def)

lemma protected_outcome:
  "protected E clk h r s w =
     (let s' = count_request clk r s
      in if limited clk r s then (s', too_many w)
         else case session_of E clk r s of
             Inl e \<Rightarrow> (s', http_Error (snd e) (fst e) w)
           | Inr c \<Rightarrow> h (identify_as c r) s' w)"
  unfolding protected_def Let_def api.both.outcome
  by (simp split: sum.split)

lemma session_codes: "session_of E clk r s = Inl e \<Longrightarrow> fst e = 401"
  by (auto simp: session_of_def authorize_def role_allowed_def split: if_splits sum.splits)

lemma too_many_status [simp]: "rs_status w = None \<Longrightarrow> rs_status (too_many w) = Some 429"
  by (simp add: too_many_def)

lemma api_paths:
  "map_of (api_handlers E clk order) path = Some h \<Longrightarrow>
     path \<noteq> ''/health'' \<and> path \<noteq> ''/api/auth/login'' \<and> path \<noteq> ''/ws/events''"
  by (auto simp: api_handlers_def split: if_splits)

lemma dispatch_api:
  "map_of (api_handlers E clk order) path = Some h \<Longrightarrow>
     dispatch E files ws version clk order path = protected E clk h"
  using api_paths [of E clk order path h] by (simp add: dispatch_def)

end
