(* ===== verification/Access.thy ===== *)
theory Access
  imports Server
begin

text \<open>
  Access control of the HTTP interface: who may do what on the protected routes, and what a
  request that may not leaves behind. The reference is the table \<open>required\<close>.
\<close>

section \<open>Roles\<close>

text \<open>The roles that may use a path with a method; an empty list means every session.\<close>

definition required :: "string \<Rightarrow> string \<Rightarrow> string list" where
  "required path meth =
     (if path = ''/api/alerts/config'' then [''admin'']
      else if meth = ''POST'' \<and> path \<in> {''/api/snapshots/delete'', ''/api/restore'', ''/api/replicate''}
      then [''admin'', ''operator'']
      else if meth = ''POST'' \<and> path \<in> {''/api/policies'', ''/api/keys'', ''/api/keys/revoke'', ''/api/alerts/test''}
      then [''admin'']
      else if meth = ''GET'' \<and> path = ''/api/keys'' then [''admin'']
      else [])"

lemma identify_as_simps [simp]:
  "get_header (identify_as c r) ''X-User-Role'' = cl_Role c"
  "rq_method (identify_as c r) = rq_method r" "rq_body (identify_as c r) = rq_body r"
  "rq_query (identify_as c r) = rq_query r"
  by (simp_all add: identify_as_def)

lemmas role_checked_defs = handleDeleteSnapshot_def handlePolicies_def handleRestore_def handleAPIKeys_def
  handleRevokeAPIKey_def handleAlertTest_def handleAlertConfig_def handleReplicate_def staff_def

text \<open>A handler turns away a session whose role is not in the table, and touches nothing.\<close>

lemma handler_forbids:
  assumes "map_of (api_handlers E clk order) path = Some h" "required path (rq_method r) \<noteq> []"
    and "get_header r ''X-User-Role'' \<notin> set (required path (rq_method r))"
  shows "\<exists>msg. h r s w = (s, forbidden msg w)"
  using assms
  by (auto simp: api_handlers_def required_def role_checked_defs split: if_splits)

text \<open>C1: Roles are enforced on every route. Whoever sends a request to a protected route with a
  method that needs a role, without a token whose role is one of those in the table, gets 401,
  403 or 429, and nothing in the server changes but the count of the rate limiter.\<close>

theorem roles_enforced:
  assumes "map_of (api_handlers E clk order) path = Some h" "required path (rq_method r) \<noteq> []"
    and "\<And>c. session_of E clk r s = Inr c \<Longrightarrow> cl_Role c \<notin> set (required path (rq_method r))"
    and "rs_status w = None"
  shows "\<exists>w'. dispatch E files ws version clk order path r s w = (count_request clk r s, w')
    \<and> rs_status w' \<in> {Some 401, Some 403, Some 429}"
proof (cases "limited clk r s")
  case True
  with assms(1,4) show ?thesis
    by (simp add: dispatch_api protected_outcome)
next
  case False
  show ?thesis
  proof (cases "session_of E clk r s")
    case (Inl e)
    with False assms(1,4) session_codes [OF Inl] show ?thesis
      by (simp add: dispatch_api protected_outcome)
  next
    case (Inr c)
    from handler_forbids [OF assms(1), of "identify_as c r" "count_request clk r s" w]
      assms(2) assms(3) [OF Inr]
    obtain msg where "h (identify_as c r) (count_request clk r s) w = (count_request clk r s, forbidden msg w)"
      by auto
    with Inr False assms(1,4) show ?thesis
      by (simp add: dispatch_api protected_outcome)
  qed
qed

section \<open>Sessions that are allowed are served\<close>

definition serves :: "('x, 'c) server_handler \<Rightarrow> request \<Rightarrow> bool" where
  "serves h r \<longleftrightarrow> (\<forall>s w. rs_status w = None \<longrightarrow>
     rs_status (snd (h r s w)) \<in> {Some 200, Some 201, Some 202, Some 400, Some 404, Some 405, Some 500})"

lemmas handler_status_simps = case_prod_unfold Let_def jsonResp_status httpErr_status write_header_status

lemma serves_read:
  "serves (handleNodes E) r" "serves (handleEvents E) r" "serves (handleSnapshots E clk) r"
  "serves (handleReplicationJobs E order) r"
  unfolding serves_def handleNodes_def handleEvents_def handleSnapshots_def handleReplicationJobs_def
  by (auto simp: handler_status_simps split: sum.split)

lemma serves_staff:
  assumes "rq_method r = ''POST'' \<Longrightarrow> staff (get_header r ''X-User-Role'')"
  shows "serves (handleDeleteSnapshot E) r" "serves (handleRestore E) r" "serves (handleReplicate E) r"
  using assms
  unfolding serves_def handleDeleteSnapshot_def handleRestore_def handleReplicate_def
  by (auto simp: handler_status_simps split: sum.split option.split)

lemma serves_admin:
  assumes "rq_method r \<in> {''GET'', ''POST''} \<Longrightarrow> get_header r ''X-User-Role'' = ''admin''"
  shows "serves (handleAPIKeys E clk) r"
proof -
  have "rq_method r = ''GET'' \<Longrightarrow> serves (handleAPIKeys E clk) r"
    using assms unfolding serves_def handleAPIKeys_def
    by (simp add: handler_status_simps split: sum.split)
  moreover have "rq_method r = ''POST'' \<Longrightarrow> serves (handleAPIKeys E clk) r"
    using assms unfolding serves_def handleAPIKeys_def
    by (simp add: handler_status_simps split: sum.split split del: if_split)
  moreover have "rq_method r \<noteq> ''GET'' \<Longrightarrow> rq_method r \<noteq> ''POST'' \<Longrightarrow> serves (handleAPIKeys E clk) r"
    unfolding serves_def handleAPIKeys_def by simp
  ultimately show ?thesis by blast
qed

lemma serves_admin_post:
  assumes "rq_method r = ''POST'' \<Longrightarrow> get_header r ''X-User-Role'' = ''admin''"
  shows "serves (handlePolicies E) r" "serves (handleRevokeAPIKey E) r" "serves (handleAlertTest E clk) r"
  using assms unfolding serves_def handlePolicies_def handleRevokeAPIKey_def handleAlertTest_def
  by (auto simp: handler_status_simps split: sum.split option.split)

lemma serves_config:
  "get_header r ''X-User-Role'' = ''admin'' \<Longrightarrow> serves (handleAlertConfig E) r"
  unfolding serves_def handleAlertConfig_def by (simp add: Let_def)

lemma handlers_serve:
  assumes "map_of (api_handlers E clk order) path = Some h"
    and "required path (rq_method r) = [] \<or> get_header r ''X-User-Role'' \<in> set (required path (rq_method r))"
  shows "serves h r"
  using assms
  by (auto simp: api_handlers_def required_def staff_def split: if_splits
      intro!: serves_read serves_staff serves_admin serves_admin_post serves_config)

text \<open>C4: The right role suffices. A request within the rate limit whose token has a role the
  table asks for (any role where it asks for none) is never refused: the handler behind the
  route answers it, and not with 401, 403 or 429.\<close>

theorem right_role_served:
  assumes "map_of (api_handlers E clk order) path = Some h" "\<not> limited clk r s"
    and "session_of E clk r s = Inr c"
    and "required path (rq_method r) = [] \<or> cl_Role c \<in> set (required path (rq_method r))"
    and "rs_status w = None"
  shows "rs_status (snd (dispatch E files ws version clk order path r s w))
      \<in> {Some 200, Some 201, Some 202, Some 400, Some 404, Some 405, Some 500}"
proof -
  have "serves h (identify_as c r)"
    by (rule handlers_serve [OF assms(1)]) (use assms(4) in simp)
  then show ?thesis
    using assms(1,2,3,5) by (simp add: dispatch_api protected_outcome serves_def)
qed

section \<open>Sessions come from tokens\<close>

text \<open>C2: No token, no handler. On every protected route a request without a token the manager
  accepts is answered with 401 (or 429) whatever handler is behind it, and only the rate
  limiter has changed.\<close>

theorem no_token_no_access:
  assumes "map_of (api_handlers E clk order) path = Some h"
    and "extractToken r = [] \<or> isl (Validate (en_jwt E) (clk 2) (extractToken r) (sv_auth s))"
    and "rs_status w = None"
  shows "fst (dispatch E files ws version clk order path r s w) = count_request clk r s \<and>
    rs_status (snd (dispatch E files ws version clk order path r s w)) =
      Some (if limited clk r s then 429 else 401)"
proof -
  have "isl (session_of E clk r s)"
    using assms(2) by (auto simp: session_of_def authorize_def split: sum.split)
  then obtain e where e: "session_of E clk r s = Inl e" by (cases "session_of E clk r s") auto
  with assms(1,3) session_codes [OF e] show ?thesis
    by (simp add: dispatch_api protected_outcome)
qed

lemma client_key_ignores: "identity_header k \<Longrightarrow> client_key (set_req_header k v r) = client_key r"
  by (auto simp: identity_header_def client_key_def header_get_set role_key_canon canonical_key_def
      upper_def lower_def char_of_eq_iff Let_def)

text \<open>C3: Roles cannot be forged over HTTP. On every protected route, adding or replacing one of
  the headers that carry the caller's identity changes neither the answer nor the effect of a
  request.\<close>

theorem forged_identity_ignored:
  assumes "map_of (api_handlers E clk order) path = Some h" "identity_header k"
  shows "dispatch E files ws version clk order path (set_req_header k v r) s w =
    dispatch E files ws version clk order path r s w"
proof -
  have "session_of E clk (set_req_header k v r) s = session_of E clk r s"
    by (simp add: session_of_def authorize_ignores [OF assms(2)])
  moreover have "limited clk (set_req_header k v r) s = limited clk r s"
    "count_request clk (set_req_header k v r) s = count_request clk r s"
    by (simp_all add: limited_def count_request_def client_key_ignores [OF assms(2)])
  moreover have "identify_as c (set_req_header k v r) = identify_as c r" for c
    by (simp add: identify_as_def identify_overrides [OF assms(2)])
  ultimately show ?thesis
    using assms(1) by (simp add: dispatch_api protected_outcome Let_def split: sum.split)
qed

section \<open>A concrete server\<close>

abbreviation nowhere :: "('x, 'c) server_handler" where
  "nowhere \<equiv> \<lambda>_ s w. (s, w)"

definition demo_env :: "claims \<Rightarrow> (unit, nat \<times> (nat \<rightharpoonup> policy)) env" where
  "demo_env c =
     \<lparr>en_gorm = ref_gorm, en_jwt = ref_jwt c ''k'', en_bcrypt = ref_bcrypt, en_salt = (\<lambda>_. ''s''),
      en_hash = ref_hash, en_btrfs = ok_world [], en_cron = ref_cron,
      en_uuid = (\<lambda>n. ''uuid-'' @ dec_nat n), en_rand = (\<lambda>n. Inr (replicate 32 (char_of n))),
      en_getenv = (\<lambda>_. []), en_off = 0\<rparr>"

definition demo_server :: "claims \<Rightarrow> (unit, nat \<times> (nat \<rightharpoonup> policy)) server" where
  "demo_server c = newServer (demo_env c) demo_config two_snapshots ()"

lemma demo_session:
  assumes "get_header r ''Authorization'' = ''Bearer h.c.s''" "cl_ExpiresAt c = Some e" "clk 2 < e"
  shows "session_of (demo_env c) clk r (demo_server c) = Inr c"
proof -
  have "extractToken r = ''h.c.s''" by (rule extract_bearer) (simp add: assms(1))
  then show ?thesis
    using assms(2,3)
    by (simp add: session_of_def authorize_def demo_env_def demo_server_def newServer_def demo_config_def
        NewAuthManager_def Validate_def ref_jwt_def role_allowed_def)
qed

lemma demo_not_limited: "\<not> limited clk r (demo_server c)"
  by (simp add: limited_def demo_server_def newServer_def RateLimit.New_def Allow_def)

lemma api_delete: "map_of (api_handlers E clk order) ''/api/snapshots/delete'' = Some (handleDeleteSnapshot E)"
  by (simp add: api_handlers_def)

definition delete_request :: "string \<Rightarrow> request" where
  "delete_request i = bearer_request\<lparr>rq_method := ''POST'', rq_body := Inr (JObj [(''snapshot_id'', JStr i)])\<rparr>"

lemma delete_request_simps [simp]:
  "rq_method (delete_request i) = ''POST''"
  "get_header (delete_request i) ''Authorization'' = ''Bearer h.c.s''"
  "get_header (delete_request i) ''X-Forwarded-For'' = []"
  by (simp_all add: delete_request_def bearer_request_def plain_request_def header_get_set canonical_key_def
      upper_def lower_def char_of_eq_iff) (simp add: header_get_def)

lemma viewer_session: "session_of (demo_env viewer_claims) (\<lambda>_. 0) (delete_request i) (demo_server viewer_claims)
    = Inr viewer_claims"
  by (rule demo_session [where e = "100 * second"]) (simp_all add: viewer_claims_def time_units)

lemma admin_session: "session_of (demo_env admin_claims) (\<lambda>_. 0) (delete_request i) (demo_server admin_claims)
    = Inr admin_claims"
  by (rule demo_session [where e = "24 * hour"]) (simp_all add: admin_claims_def time_units)

theorem roles_enforced_witness:
  "\<exists>w'. dispatch (demo_env viewer_claims) nowhere nowhere ''1'' (\<lambda>_. 0) [] ''/api/snapshots/delete''
      (delete_request ''s1'') (demo_server viewer_claims) fresh_response
    = (count_request (\<lambda>_. 0) (delete_request ''s1'') (demo_server viewer_claims), w')
    \<and> rs_status w' \<in> {Some 401, Some 403, Some 429}"
proof (rule roles_enforced [OF api_delete])
  show "cl_Role c \<notin> set (required ''/api/snapshots/delete'' (rq_method (delete_request ''s1'')))"
    if "session_of (demo_env viewer_claims) (\<lambda>_. 0) (delete_request ''s1'') (demo_server viewer_claims) = Inr c" for c
    using that by (auto simp: viewer_session required_def) (simp_all add: viewer_claims_def)
qed (simp_all add: required_def)

theorem right_role_served_witness:
  "rs_status (snd (dispatch (demo_env admin_claims) nowhere nowhere ''1'' (\<lambda>_. 0) [] ''/api/snapshots/delete''
      (delete_request ''s1'') (demo_server admin_claims) fresh_response))
    \<in> {Some 200, Some 201, Some 202, Some 400, Some 404, Some 405, Some 500}"
  by (rule right_role_served [OF api_delete demo_not_limited admin_session])
    (simp_all add: required_def admin_claims_def)

theorem no_token_no_access_witness:
  "rs_status (snd (dispatch (demo_env viewer_claims) nowhere nowhere ''1'' (\<lambda>_. 0) [] ''/api/snapshots/delete''
      (plain_request ''POST'' (\<lambda>_. [])) (demo_server viewer_claims) fresh_response)) = Some 401"
proof -
  have "extractToken (plain_request ''POST'' (\<lambda>_. [])) = []"
    by (simp add: extractToken_def plain_request_def header_get_def hasPrefix_def query_get_def)
  from no_token_no_access [OF api_delete disjI1 [OF this], where w = fresh_response and clk = "\<lambda>_. 0"
      and E = "demo_env viewer_claims" and s = "demo_server viewer_claims"]
  show ?thesis by (simp add: demo_not_limited)
qed

theorem forged_identity_ignored_witness:
  "dispatch (demo_env viewer_claims) nowhere nowhere ''1'' (\<lambda>_. 0) [] ''/api/snapshots/delete''
      (set_req_header ''X-User-Role'' ''admin'' (delete_request ''s1'')) (demo_server viewer_claims) fresh_response
   = dispatch (demo_env viewer_claims) nowhere nowhere ''1'' (\<lambda>_. 0) [] ''/api/snapshots/delete''
      (delete_request ''s1'') (demo_server viewer_claims) fresh_response"
  by (rule forged_identity_ignored [OF api_delete]) (simp add: identity_header_def)

end
