(* ===== verification/Service.thy ===== *)
theory Service
  imports Access
begin

text \<open>
  What the handlers of the server do: their answers, the commands and rows behind them, the
  users a server starts with and the sessions they open.
\<close>

section \<open>Content types\<close>

definition typed_right :: "('x, 'c) server_handler \<Rightarrow> request \<Rightarrow> bool" where
  "typed_right h r \<longleftrightarrow> (\<forall>s. let w = snd (h r s fresh_response) in
     header_get (rs_sent w) ''Content-Type'' =
       (if rs_status w \<in> {Some 200, Some 400, Some 403, Some 404, Some 500}
        then ''application/json'' else []))"

lemma sent_simps:
  "rs_sent (httpErr e c fresh_response) = header_set ''Content-Type'' ''application/json'' (\<lambda>_. [])"
  "rs_sent (forbidden m fresh_response) = header_set ''Content-Type'' ''application/json'' (\<lambda>_. [])"
  "rs_sent (jsonResp v fresh_response) = header_set ''Content-Type'' ''application/json'' (\<lambda>_. [])"
  "rs_sent (write_header c fresh_response) = (\<lambda>_. [])"
  "rs_sent (jsonResp v (write_header c fresh_response)) = (\<lambda>_. [])"
  by (simp_all add: httpErr_def forbidden_def jsonResp_def write_chunk_sent write_header_sent)

lemma no_header [simp]: "header_get (\<lambda>_. []) k = []"
  by (simp add: header_get_def)

lemmas typed_simps = typed_right_def sent_simps case_prod_unfold Let_def

lemma typed_handlers:
  "typed_right (handleNodes E) r" "typed_right (handleEvents E) r"
  "typed_right (handleSnapshots E clk) r" "typed_right (handleDeleteSnapshot E) r"
  "typed_right (handleRestore E) r" "typed_right (handlePolicies E) r"
  "typed_right (handleRevokeAPIKey E) r" "typed_right (handleAlertTest E clk) r"
  "typed_right (handleAlertConfig E) r" "typed_right (handleReplicate E) r"
  "typed_right (handleReplicationJobs E order) r"
  unfolding handleNodes_def handleEvents_def handleSnapshots_def handleDeleteSnapshot_def handleRestore_def
    handlePolicies_def handleRevokeAPIKey_def handleAlertTest_def handleAlertConfig_def handleReplicate_def
    handleReplicationJobs_def
  by (simp_all add: typed_simps split: sum.split option.split)

lemma typed_keys: "typed_right (handleAPIKeys E clk) r"
  unfolding handleAPIKeys_def typed_simps
  by (cases "rq_method r = ''GET''"; cases "rq_method r = ''POST''"; cases "get_header r ''X-User-Role'' = ''admin''")
    (simp_all add: sent_simps split: sum.split split del: if_split)

text \<open>Which answers are labelled as JSON. Behind every protected route, the answer is sent
  with the content type of JSON exactly when its status is 200, 400, 403, 404 or 500. The JSON
  of a 201 or a 202 goes out without a content type, because the status is written before the
  header is set.\<close>

theorem json_content_type:
  assumes "map_of (api_handlers E clk order) path = Some h"
    and "(s', w') = h r s fresh_response"
  shows "header_get (rs_sent w') ''Content-Type'' =
    (if rs_status w' \<in> {Some 200, Some 400, Some 403, Some 404, Some 500} then ''application/json'' else [])"
proof -
  have "typed_right h r"
    using assms(1) by (auto simp: api_handlers_def typed_handlers typed_keys split: if_splits)
  then show ?thesis
    using assms(2) by (simp add: typed_right_def Let_def split_beta) (metis snd_conv)
qed

section \<open>Deleting a snapshot\<close>

text \<open>A snapshot is deleted from the file system first. The method reports success exactly
  when the row exists and the command for its path succeeded; only then is the row deleted, and
  the counter goes up by one. Without a row no command runs, and when the command fails the
  database is left alone.\<close>

theorem delete_file_before_row:
  assumes "rpc_DeleteSnapshot E i s = (resp, s')"
  shows "case GetSnapshot (en_gorm E) i (sv_db s) of
      Inl _ \<Rightarrow> \<not> dr_Success resp \<and> s' = s
    | Inr snap \<Rightarrow>
        (let (err, x) = DeleteSnapshot (en_btrfs E) (s_SnapshotPath snap) (sv_btrfs s)
         in (dr_Success resp \<longleftrightarrow> err = None) \<and> sv_btrfs s' = x \<and>
            (if err = None
             then sv_db s' = snd (DeleteSnapshotRow (en_gorm E) i (sv_db s)) \<and> sv_deleted s' = Suc (sv_deleted s)
             else sv_db s' = sv_db s \<and> sv_deleted s' = sv_deleted s))"
  using assms
  by (auto simp: rpc_DeleteSnapshot_def case_prod_unfold Let_def split: sum.splits option.splits)

text \<open>A failed deletion is answered with 200. For an identifier that is not stored, a member
  of staff gets status 200 and a document without a \<open>success\<close> member.\<close>

theorem failed_delete_looks_fine:
  assumes "rq_method r = ''POST''" "staff (get_header r ''X-User-Role'')"
    and "body_members (rq_body r) = Inr ms" "str_field ''snapshot_id'' ms = Inr i"
    and "bool_field ''force'' ms = Inr f" "isl (GetSnapshot (en_gorm E) i (sv_db s))"
  shows "handleDeleteSnapshot E r s fresh_response =
      (s, jsonResp (JObj [(''message'', JStr ''snapshot not found'')]) fresh_response) \<and>
    rs_status (snd (handleDeleteSnapshot E r s fresh_response)) = Some 200"
  using assms
  by (auto simp: handleDeleteSnapshot_def rpc_DeleteSnapshot_def delete_resp_json_def omit_bool_def
      omit_str_def isl_def)

section \<open>Accounts and sessions\<close>

definition admin_password :: "('x, 'c) env \<Rightarrow> string" where
  "admin_password E =
     (let p = en_getenv E ''SNAPAH_ADMIN_PASSWORD'' in if p = [] then ''admin123'' else p)"

text \<open>Documented: bcrypt refuses the passwords of more than 72 bytes, and no other.\<close>

definition bcrypt_total :: "bcrypt \<Rightarrow> bool" where
  "bcrypt_total B \<longleftrightarrow> (\<forall>salt pw. isl (bc_Generate B salt pw) \<longleftrightarrow> 72 < length pw)"

lemma AddUser_hash:
  assumes "bcrypt_ok B" "bcrypt_total B" "bcrypt_pw pw"
  shows "\<exists>h. (\<forall>i name role us. AddUser B salt i name pw role us =
      (None, us(name \<mapsto> \<lparr>u_ID = i, u_Username = name, u_PasswordHash = h, u_Role = role\<rparr>)))
    \<and> (\<forall>pw'. bcrypt_pw pw' \<longrightarrow> (bc_Compare B h pw' = None \<longleftrightarrow> pw' = pw))"
proof -
  have "\<not> isl (bc_Generate B salt pw)"
    using assms(2,3) by (simp add: bcrypt_total_def bcrypt_pw_def)
  then obtain h where h: "bc_Generate B salt pw = Inr h" by (cases "bc_Generate B salt pw") auto
  with assms(1,3) have "\<forall>pw'. bcrypt_pw pw' \<longrightarrow> (bc_Compare B h pw' = None \<longleftrightarrow> pw' = pw)"
    using assms(1) [unfolded bcrypt_ok_def, THEN spec, THEN spec, THEN spec, of salt pw h] h by simp
  with h show ?thesis by (auto simp: AddUser_def)
qed

text \<open>C7: The accounts of a new server. A server starts with the account \<open>operator\<close>, with the fixed
  password \<open>operator123\<close>, which no setting changes, and the account \<open>admin\<close>, with the configured
  password or \<open>admin123\<close> when none is configured, and with no other; but when the configured
  password has more than 72 bytes there is no \<open>admin\<close> either, since the error of adding it is
  ignored. A configured password comes from the environment and has no zero byte; the passwords
  tried have none either and at most 72 bytes.\<close>

theorem initial_accounts:
  assumes "bcrypt_ok (en_bcrypt E)" "bcrypt_total (en_bcrypt E)" "CHR 0x00 \<notin> set (admin_password E)" "bcrypt_pw pw"
  shows "(\<exists>u. Authenticate (en_bcrypt E) name pw (sv_users (newServer E cfg d x)) = Inr u \<and> u_Role u = role) \<longleftrightarrow>
    (name = ''admin'' \<and> length (admin_password E) \<le> 72 \<and> pw = admin_password E \<and> role = ''admin'') \<or>
    (name = ''operator'' \<and> pw = ''operator123'' \<and> role = ''operator'')"
proof -
  let ?B = "en_bcrypt E" and ?short = "length (admin_password E) \<le> 72"
  let ?adm = "\<lambda>h. \<lparr>u_ID = en_uuid E 0, u_Username = ''admin'', u_PasswordHash = h, u_Role = ''admin''\<rparr>"
  have op: "bcrypt_pw ''operator123''" by (simp add: bcrypt_pw_def)
  obtain h1 where h1: "snd (AddUser ?B (en_salt E 0) (en_uuid E 0) ''admin'' (admin_password E) ''admin'' us) =
      (if ?short then us(''admin'' \<mapsto> ?adm h1) else us)"
    "?short \<Longrightarrow> bc_Compare ?B h1 pw = None \<longleftrightarrow> pw = admin_password E" for us
  proof (cases ?short)
    case True
    then have "bcrypt_pw (admin_password E)" using assms(3) by (simp add: bcrypt_pw_def)
    from AddUser_hash [OF assms(1,2) this, of "en_salt E 0"] obtain h where
      "\<And>us. AddUser ?B (en_salt E 0) (en_uuid E 0) ''admin'' (admin_password E) ''admin'' us = (None, us(''admin'' \<mapsto> ?adm h))"
      "bc_Compare ?B h pw = None \<longleftrightarrow> pw = admin_password E"
      using assms(4) by blast
    then show thesis using that [of h] True by simp
  next
    case False
    then have "isl (bc_Generate ?B (en_salt E 0) (admin_password E))" using assms(2) by (simp add: bcrypt_total_def)
    then show thesis using that False by (auto simp: AddUser_def isl_def)
  qed
  obtain h2 where h2: "AddUser ?B (en_salt E 1) (en_uuid E 1) ''operator'' ''operator123'' ''operator'' us =
      (None, us(''operator'' \<mapsto> \<lparr>u_ID = en_uuid E 1, u_Username = ''operator'', u_PasswordHash = h2, u_Role = ''operator''\<rparr>))"
    "bc_Compare ?B h2 pw = None \<longleftrightarrow> pw = ''operator123''" for us
    using AddUser_hash [OF assms(1,2) op, of "en_salt E 1"] assms(4) by metis
  have users: "initial_users E = (if ?short then NewUserStore(''admin'' \<mapsto> ?adm h1) else NewUserStore)
      (''operator'' \<mapsto> \<lparr>u_ID = en_uuid E 1, u_Username = ''operator'', u_PasswordHash = h2, u_Role = ''operator''\<rparr>)"
    unfolding initial_users_def admin_password_def [symmetric, unfolded Let_def] Let_def h1(1) snd_conv h2(1) ..
  have "sv_users (newServer E cfg d x) = initial_users E" by (simp add: newServer_def)
  note lookup = Authenticate_def this users NewUserStore_def
  have adm: "(\<exists>u. Authenticate ?B ''admin'' pw (sv_users (newServer E cfg d x)) = Inr u \<and> u_Role u = role) \<longleftrightarrow>
      ?short \<and> pw = admin_password E \<and> role = ''admin''"
    using h1(2) by (cases "bc_Compare ?B h1 pw"; cases ?short) (auto simp: lookup)
  have opr: "(\<exists>u. Authenticate ?B ''operator'' pw (sv_users (newServer E cfg d x)) = Inr u \<and> u_Role u = role) \<longleftrightarrow>
      pw = ''operator123'' \<and> role = ''operator''"
    using h2(2) by (cases "bc_Compare ?B h2 pw") (auto simp: lookup)
  have oth: "\<not> (\<exists>u. Authenticate ?B name pw (sv_users (newServer E cfg d x)) = Inr u \<and> u_Role u = role)"
    if "name \<noteq> ''admin''" "name \<noteq> ''operator''"
    using that by (simp add: lookup)
  show ?thesis
  proof (cases "name = ''admin''")
    case True
    then show ?thesis using adm by simp
  next
    case False
    then show ?thesis
      using opr oth by (cases "name = ''operator''") simp_all
  qed
qed

lemma handleLogin_token:
  assumes "handleLogin E clk r s fresh_response = (s', w)"
    and "rs_body w = [BJson (JObj [(''role'', JStr role), (''token'', JStr tok), (''username'', JStr name)])]"
  shows "s' = s \<and> (\<exists>u \<in> ran (sv_users s). u_Role u = role \<and> u_Username u = name \<and>
    GenerateToken (en_jwt E) (clk 0) (clk 1) (u_ID u) name role (sv_auth s) = Inr tok)"
  using assms
  by (auto simp: handleLogin_def httpErr_def jsonResp_def error_json_def Authenticate_def ran_def
      split: if_splits sum.splits option.splits) blast

text \<open>A token that was signed opens a session until it expires.\<close>

lemma token_session:
  assumes "jwt_ok (en_jwt E)" "GenerateToken (en_jwt E) t1 t2 uid name role (sv_auth s) = Inr tok"
    and "ascii uid" "ascii name" "ascii role" "get_header r ''Authorization'' = ''Bearer '' @ tok"
    and "clk 2 < jw_NumericDate (en_jwt E) (t1 + wrap64 (am_expiryHours (sv_auth s) * hour))"
  shows "session_of E clk r s = Inr (token_claims (en_jwt E) t1 t2 uid name role (sv_auth s))"
proof -
  note v = token_validity [OF assms(1-5) refl]
  show ?thesis
    using v(1) v(2) [OF assms(7)] extract_bearer [OF assms(6)]
    by (simp add: session_of_def authorize_def role_allowed_def)
qed

text \<open>C5: A login opens a session. If a login answers with a token, the state of the server is
  unchanged, and the token, sent as a bearer token to a protected route within the rate limit
  and before it expires, runs the handler of that route as a stored user with the name and the
  role of the answer.\<close>

theorem login_opens_session:
  assumes "jwt_ok (en_jwt E)" "handleLogin E clk r s fresh_response = (s1, w1)"
    and "rs_body w1 = [BJson (JObj [(''role'', JStr role), (''token'', JStr tok), (''username'', JStr name)])]"
    and "\<forall>u \<in> ran (sv_users s). ascii (u_ID u) \<and> ascii (u_Username u) \<and> ascii (u_Role u)"
    and "map_of (api_handlers E clk' order) path = Some h" "sv_auth s' = sv_auth s"
    and "get_header r' ''Authorization'' = ''Bearer '' @ tok" "\<not> limited clk' r' s'"
    and "clk' 2 < jw_NumericDate (en_jwt E) (clk 0 + wrap64 (am_expiryHours (sv_auth s) * hour))"
  shows "s1 = s \<and> (\<exists>u \<in> ran (sv_users s). u_Username u = name \<and> u_Role u = role \<and>
    dispatch E files ws version clk' order path r' s' w =
      h (identify (u_ID u) name role r') (count_request clk' r' s') w)"
proof -
  obtain u where u: "s1 = s" "u \<in> ran (sv_users s)" "u_Role u = role" "u_Username u = name"
    and tok: "GenerateToken (en_jwt E) (clk 0) (clk 1) (u_ID u) name role (sv_auth s) = Inr tok"
    using handleLogin_token [OF assms(2,3)] by blast
  from assms(4) u have "ascii (u_ID u)" "ascii name" "ascii role" by auto
  with tok assms(6) have "session_of E clk' r' s' =
      Inr (token_claims (en_jwt E) (clk 0) (clk 1) (u_ID u) name role (sv_auth s'))"
    using token_session [OF assms(1) _ _ _ _ assms(7)] assms(9) by simp
  then have "dispatch E files ws version clk' order path r' s' w =
      h (identify (u_ID u) name role r') (count_request clk' r' s') w"
    using assms(5,8) by (simp add: dispatch_api protected_outcome identify_as_def token_claims_def)
  with u show ?thesis by blast
qed

section \<open>Created snapshots are listed\<close>

lemma snap_normD:
  "snap_norm a = snap_norm b \<Longrightarrow> s_ID a = s_ID b \<and> s_NodeID a = s_NodeID b \<and>
     s_SubvolumePath a = s_SubvolumePath b \<and> s_SnapshotPath a = s_SnapshotPath b \<and>
     s_IsReadOnly a = s_IsReadOnly b \<and> s_Status a = s_Status b \<and> s_DeletedAt a = s_DeletedAt b"
  by (cases a; cases b) (simp add: snap_norm_def)

text \<open>C15: A created snapshot is listed. When \<open>CreateSnapshot\<close> succeeds on a database that is up, the
  snapshot it returns is, but for the time of its creation, in the listing of its node and in the
  full one: active, with the requested node, subvolume and write protection, at the path made of
  the subvolume and the requested name. No row of another snapshot is lost.\<close>

theorem created_snapshot_listed:
  assumes "gorm_ok (en_gorm E)" "table_up (\<lambda>s. s_DeletedAt s = None) (g_snaps (en_gorm E))"
    and "rpc_CreateSnapshot E clk req s = (Inr p, s')" "nodeID \<in> {[], cq_NodeId req}"
  shows "\<exists>ps q. rpc_ListSnapshots E nodeID s' = Inr ps \<and> q \<in> set ps \<and>
      q\<lparr>ps_CreatedAt := ps_CreatedAt p\<rparr> = p \<and> ps_NodeId q = cq_NodeId req \<and>
      ps_SubvolumePath q = cq_SubvolumePath req \<and> ps_IsReadonly q = cq_Readonly req \<and> ps_Status q = ''active'' \<and>
      ps_SnapshotPath q = SnapshotPath (en_off E) (clk 0) (cq_SubvolumePath req) (cq_SnapshotName req) \<and>
      set (db_snaps (sv_db s)) \<subseteq> set (db_snaps (sv_db s'))"
proof -
  let ?path = "SnapshotPath (en_off E) (clk 0) (cq_SubvolumePath req) (cq_SnapshotName req)"
  let ?row = "\<lambda>i. new_snapshot i (cq_NodeId req) (cq_SubvolumePath req) ?path (cq_Readonly req)"
  obtain i snap rows where c: "g_Create (g_snaps (en_gorm E)) (?row i) (db_snaps (sv_db s)) = (None, snap, rows)"
    and p: "p = snapshot_message (en_off E) (clk 1) snap" and s': "sv_db s' = (sv_db s)\<lparr>db_snaps := rows\<rparr>"
    using assms(3)
    by (auto simp: rpc_CreateSnapshot_def CreateSnapshotRow_def generateID_def case_prod_unfold Let_def
        prod_eq_iff split: option.splits)
  note r = table_create [OF gorm_okD(2) [OF assms(1)] c]
  from r have "snap_norm snap = snap_norm (?row i)" by blast
  from snap_normD [OF this] have snap: "s_NodeID snap = cq_NodeId req" "s_SnapshotPath snap = ?path"
    "s_DeletedAt snap = None" "s_SubvolumePath snap = cq_SubvolumePath req" "s_IsReadOnly snap = cq_Readonly req"
    "s_Status snap = ''active''" by (simp_all add: new_snapshot_def)
  obtain rs where rs: "ListSnapshotRows (en_gorm E) nodeID (sv_db s') = Inr rs"
    using table_up_calls(4) [OF assms(2)] unfolding ListSnapshotRows_def by blast
  then have "snap \<in> set rs"
    using table_find_set [OF gorm_okD(2) [OF assms(1)]] r snap assms(4)
    by (auto simp: ListSnapshotRows_def s')
  let ?q = "snapshot_message (en_off E) (s_CreatedAt snap) snap"
  have "rpc_ListSnapshots E nodeID s' =
      Inr (map (\<lambda>snap. snapshot_message (en_off E) (s_CreatedAt snap) snap) rs)"
    by (simp add: rpc_ListSnapshots_def rs)
  moreover have "?q \<in> set (map (\<lambda>snap. snapshot_message (en_off E) (s_CreatedAt snap) snap) rs)"
    using \<open>snap \<in> set rs\<close> by auto
  moreover have "?q\<lparr>ps_CreatedAt := ps_CreatedAt p\<rparr> = p" "ps_NodeId ?q = cq_NodeId req" "ps_SnapshotPath ?q = ?path"
    "ps_SubvolumePath ?q = cq_SubvolumePath req" "ps_IsReadonly ?q = cq_Readonly req" "ps_Status ?q = ''active''"
    using snap by (simp_all add: p snapshot_message_def)
  moreover have "set (db_snaps (sv_db s)) \<subseteq> set (db_snaps (sv_db s'))"
    using r by (auto simp: s')
  ultimately show ?thesis by blast
qed

section \<open>Policies\<close>

text \<open>C18: A policy can be created and never run. An admin who posts an enabled policy without a
  schedule is answered with 201 and the row is stored, but the scheduler has no job for it.\<close>

theorem created_policy_never_runs:
  assumes "cron_ok (en_cron E)" "seconds_law (en_cron E)" "entries_owned (en_cron E) (sv_scheduler s)"
    and "gorm_ok (en_gorm E)" "rq_method r = ''POST''" "get_header r ''X-User-Role'' = ''admin''"
    and "body_members (rq_body r) = Inr ms" "policy_of_json ms = Inr p" "p_Enabled p" "p_Schedule p = []"
    and "sc_policies (sv_scheduler s) (en_uuid E (sv_draws s)) = None"
    and "fst (g_Create (g_policies (en_gorm E)) (p\<lparr>p_ID := en_uuid E (sv_draws s)\<rparr>) (db_policies (sv_db s))) = None"
  shows "case handlePolicies E r s fresh_response of (s', w) \<Rightarrow>
    rs_status w = Some 201 \<and> length (db_policies (sv_db s')) = Suc (length (db_policies (sv_db s))) \<and>
    NextRun (en_cron E) (en_uuid E (sv_draws s)) (sv_scheduler s') = None \<and>
    (\<forall>e q. cron_entries (en_cron E) (sc_cron (sv_scheduler s')) e = Some q \<longrightarrow> sp_ID q \<noteq> en_uuid E (sv_draws s))"
proof -
  let ?i = "en_uuid E (sv_draws s)"
  obtain p' rows where c: "g_Create (g_policies (en_gorm E)) (p\<lparr>p_ID := ?i\<rparr>) (db_policies (sv_db s)) = (None, p', rows)"
    using assms(12) by (metis prod.collapse)
  note r = table_create [OF gorm_okD(3) [OF assms(4)] c]
  have n: "policy_norm p' = policy_norm (p\<lparr>p_ID := ?i\<rparr>)" using r by blast
  have p': "p_ID p' = ?i" "p_Enabled p'" "p_Schedule p' = []"
    using n assms(9,10) by (cases p'; cases p; simp add: policy_norm_def)+
  let ?q = "policy_of_row p'"
  have q: "sp_ID ?q = ?i" "sp_Enabled ?q" "sp_Schedule ?q = []" "sc_policies (sv_scheduler s) (sp_ID ?q) = None"
    using p' assms(11) by (simp_all add: policy_of_row_def)
  from add_default_schedule [OF assms(1,2,3) q(2,3,4)] q(1) r assms(5-8) show ?thesis
    by (simp add: handlePolicies_def generateID_def CreatePolicy_def c)
qed

section \<open>Examples\<close>

abbreviation "E0 \<equiv> demo_env (admin_claims\<lparr>cl_UserID := ''uuid-0''\<rparr>)"
abbreviation "S0 \<equiv> demo_server (admin_claims\<lparr>cl_UserID := ''uuid-0''\<rparr>)"

lemma E0_simps [simp]:
  "en_gorm E0 = ref_gorm" "en_bcrypt E0 = ref_bcrypt" "en_cron E0 = ref_cron" "en_btrfs E0 = ok_world []"
  "sv_db S0 = two_snapshots" "sv_draws S0 = 2" "sv_scheduler S0 = NewScheduler ref_cron"
  "sv_auth S0 = NewAuthManager ''k'' 24" "en_off E0 = 0"
  by (simp_all add: demo_env_def demo_server_def newServer_def demo_config_def)

theorem json_content_type_witness:
  "header_get (rs_sent (snd (handleNodes E0 (delete_request ''x'') S0 fresh_response))) ''Content-Type''
     = ''application/json''"
proof -
  have "map_of (api_handlers E0 (\<lambda>_. 0) []) ''/api/nodes'' = Some (handleNodes E0)"
    by (simp add: api_handlers_def)
  moreover have "rs_status (snd (handleNodes E0 (delete_request ''x'') S0 fresh_response)) = Some 200"
    by (simp add: handleNodes_def ListNodes_def ref_gorm_def ref_table_def)
  ultimately show ?thesis
    using json_content_type [OF _ prod.collapse] by fastforce
qed

theorem delete_file_before_row_witness:
  "sv_deleted (snd (rpc_DeleteSnapshot E0 ''s1'' S0)) = Suc (sv_deleted S0)
     \<and> length (db_snaps (sv_db (snd (rpc_DeleteSnapshot E0 ''s1'' S0)))) = 1"
proof -
  have g: "GetSnapshot ref_gorm ''s1'' two_snapshots = Inr (new_snapshot ''s1'' ''n1'' ''/data'' ''/data/.snapshots/a'' True)"
    by (simp add: GetSnapshot_def ref_gorm_def ref_table_def two_snapshots_def new_snapshot_def)
  have d: "DeleteSnapshot (ok_world []) p x = (None, ())" for p x
    by (simp add: DeleteSnapshot_def ok_world_def)
  have "length (db_snaps (snd (DeleteSnapshotRow ref_gorm ''s1'' two_snapshots))) = 1"
    by (simp add: DeleteSnapshotRow_def ref_gorm_def ref_table_def two_snapshots_def new_snapshot_def)
  with delete_file_before_row [OF prod.collapse [symmetric], of E0 "''s1''" S0] g d show ?thesis
    by simp
qed

theorem failed_delete_looks_fine_witness:
  "rs_status (snd (handleDeleteSnapshot E0 (set_req_header ''X-User-Role'' ''admin'' (delete_request ''zz'')) S0 fresh_response))
    = Some 200"
proof -
  let ?r = "set_req_header ''X-User-Role'' ''admin'' (delete_request ''zz'')"
  have b: "body_members (rq_body ?r) = Inr [(''snapshot_id'', JStr ''zz'')]"
    by (simp add: delete_request_def)
  have f: "str_field ''snapshot_id'' [(''snapshot_id'', JStr ''zz'')] = Inr ''zz''"
    "bool_field ''force'' [(''snapshot_id'', JStr ''zz'')] = Inr False"
    by (simp_all add: str_field_def bool_field_def names_field_def lower_def)
  have g: "isl (GetSnapshot (en_gorm E0) ''zz'' (sv_db S0))"
    by (simp add: GetSnapshot_def ref_gorm_def ref_table_def two_snapshots_def new_snapshot_def)
  have "rq_method ?r = ''POST''" "staff (get_header ?r ''X-User-Role'')"
    by (simp_all add: staff_def header_get_set)
  from failed_delete_looks_fine [OF this b f g] show ?thesis by simp
qed

lemma ref_bcrypt_total: "bcrypt_total ref_bcrypt"
  by (simp add: bcrypt_total_def ref_bcrypt_def)

lemma E0_password: "admin_password E0 = ''admin123''"
  by (simp add: admin_password_def demo_env_def)

theorem initial_accounts_witness:
  "\<exists>u. Authenticate ref_bcrypt ''operator'' ''operator123'' (sv_users (newServer E0 demo_config empty_db ())) = Inr u
     \<and> u_Role u = ''operator''"
  using initial_accounts [of E0 "''operator123''" "''operator''" demo_config empty_db "()" "''operator''"]
  by (simp add: ref_bcrypt_ok ref_bcrypt_total E0_password bcrypt_pw_def)

definition login_request :: request where
  "login_request = (plain_request ''POST'' (\<lambda>_. []))\<lparr>rq_body :=
     Inr (JObj [(''username'', JStr ''admin''), (''password'', JStr ''admin123'')])\<rparr>"

lemma login_fields:
  "str_field ''username'' [(''username'', JStr ''admin''), (''password'', JStr ''admin123'')] = Inr ''admin''"
  "str_field ''password'' [(''username'', JStr ''admin''), (''password'', JStr ''admin123'')] = Inr ''admin123''"
  by (simp_all add: str_field_def names_field_def lower_def)

lemma uuid_digits: "char_of (48::nat) = CHR ''0''" "char_of (49::nat) = CHR ''1''"
  by (simp_all add: char_of_eq_iff)

lemma E0_users: "sv_users S0 = NewUserStore
    (''admin'' \<mapsto> \<lparr>u_ID = ''uuid-0'', u_Username = ''admin'', u_PasswordHash = ''$admin123'', u_Role = ''admin''\<rparr>,
     ''operator'' \<mapsto> \<lparr>u_ID = ''uuid-1'', u_Username = ''operator'', u_PasswordHash = ''$operator123'', u_Role = ''operator''\<rparr>)"
  by (simp add: demo_server_def newServer_def initial_users_def demo_env_def AddUser_def ref_bcrypt_def
      dec_nat.simps digit_char_def uuid_digits)

lemma E0_token:
  "GenerateToken (en_jwt E0) 0 0 ''uuid-0'' ''admin'' ''admin'' (NewAuthManager ''k'' 24) = Inr ''h.c.s''"
  by (simp add: GenerateToken_def demo_env_def ref_jwt_def token_claims_def NewAuthManager_def admin_claims_def
      duration_bounds time_units)

theorem login_opens_session_witness:
  "handleLogin E0 (\<lambda>_. 0) login_request S0 fresh_response = (S0, jsonResp (JObj
      [(''role'', JStr ''admin''), (''token'', JStr ''h.c.s''), (''username'', JStr ''admin'')]) fresh_response) \<and>
   dispatch E0 nowhere nowhere ''1'' (\<lambda>_. 0) [] ''/api/snapshots/delete'' (delete_request ''s1'') S0 fresh_response =
     handleDeleteSnapshot E0 (identify ''uuid-0'' ''admin'' ''admin'' (delete_request ''s1''))
       (count_request (\<lambda>_. 0) (delete_request ''s1'') S0) fresh_response"
proof -
  have login: "handleLogin E0 (\<lambda>_. 0) login_request S0 fresh_response = (S0, jsonResp (JObj
      [(''role'', JStr ''admin''), (''token'', JStr ''h.c.s''), (''username'', JStr ''admin'')]) fresh_response)"
    by (simp add: handleLogin_def login_request_def plain_request_def login_fields Authenticate_def E0_users
        ref_bcrypt_def E0_token)
  have u: "u = \<lparr>u_ID = ''uuid-0'', u_Username = ''admin'', u_PasswordHash = ''$admin123'', u_Role = ''admin''\<rparr>"
    if "u \<in> ran (sv_users S0)" "u_Username u = ''admin''" for u
    using that by (auto simp: E0_users ran_def NewUserStore_def split: if_splits)
  have ascii: "\<forall>u \<in> ran (sv_users S0). ascii (u_ID u) \<and> ascii (u_Username u) \<and> ascii (u_Role u)"
    by (auto simp: E0_users ran_def NewUserStore_def ascii_def split: if_splits)
  have jw: "jwt_ok (en_jwt E0)" by (simp add: demo_env_def ref_jwt_ok)
  have "(0::time) < jw_NumericDate (en_jwt E0) (0 + wrap64 (am_expiryHours (sv_auth S0) * hour))"
    by (simp add: NewAuthManager_def) (simp add: demo_env_def ref_jwt_def duration_bounds time_units)
  from login_opens_session [OF jw login _ ascii api_delete refl _ demo_not_limited this, of "''admin''" "''h.c.s''" "''admin''"]
  have "\<exists>u \<in> ran (sv_users S0). u_Username u = ''admin'' \<and> u_Role u = ''admin'' \<and>
      dispatch E0 nowhere nowhere ''1'' (\<lambda>_. 0) [] ''/api/snapshots/delete'' (delete_request ''s1'') S0 fresh_response =
      handleDeleteSnapshot E0 (identify (u_ID u) ''admin'' ''admin'' (delete_request ''s1''))
        (count_request (\<lambda>_. 0) (delete_request ''s1'') S0) fresh_response"
    by (simp add: jsonResp_body)
  then show ?thesis using login u by fastforce
qed

theorem created_snapshot_listed_witness:
  "let req = \<lparr>cq_NodeId = ''n1'', cq_SubvolumePath = ''/data'', cq_SnapshotName = ''web'', cq_Readonly = True\<rparr>;
       (res, s') = rpc_CreateSnapshot E0 (\<lambda>_. 0) req S0
   in \<exists>p ps q. res = Inr p \<and> rpc_ListSnapshots E0 ''n1'' s' = Inr ps \<and> q \<in> set ps \<and> ps_NodeId q = ''n1''"
proof -
  let ?req = "\<lparr>cq_NodeId = ''n1'', cq_SubvolumePath = ''/data'', cq_SnapshotName = ''web'', cq_Readonly = True\<rparr>"
  have g: "gorm_ok (en_gorm E0)" "table_up (\<lambda>s. s_DeletedAt s = None) (g_snaps (en_gorm E0))"
    by (simp_all add: ref_gorm_ok) (simp add: ref_gorm_def ref_table_up)
  have "\<not> isl (fst (rpc_CreateSnapshot E0 (\<lambda>_. 0) ?req S0))"
    by (simp add: rpc_CreateSnapshot_def CreateSnapshot_def ok_world_def generateID_def CreateSnapshotRow_def
        ref_gorm_def ref_table_def case_prod_unfold Let_def two_snapshots_def new_snapshot_def demo_env_def
        dec_nat.simps)
  then obtain p where p: "rpc_CreateSnapshot E0 (\<lambda>_. 0) ?req S0 = (Inr p, snd (rpc_CreateSnapshot E0 (\<lambda>_. 0) ?req S0))"
    by (metis prod.collapse sum.collapse(2))
  from created_snapshot_listed [OF g p, of "''n1''"] p show ?thesis
    by (simp add: case_prod_unfold) (metis fst_conv)
qed

definition policy_body :: obj where
  "policy_body = [(''name'', JStr ''web''), (''subvolume_path'', JStr ''/data''), (''enabled'', JBool True)]"

definition empty_policy :: policy_row where
  "empty_policy = \<lparr>p_ID = [], p_Name = ''web'', p_NodeID = [], p_SubvolumePath = ''/data'', p_Schedule = [],
     p_RetentionHourly = 0, p_RetentionDaily = 0, p_RetentionWeekly = 0, p_RetentionMonthly = 0,
     p_ReadOnly = False, p_Replicate = False, p_ReplicateTarget = [], p_Enabled = True,
     p_CreatedAt = zero_time, p_UpdatedAt = zero_time, p_DeletedAt = None\<rparr>"

lemma policy_body_decodes: "policy_of_json policy_body = Inr empty_policy"
  by (simp add: policy_of_json_def policy_body_def empty_policy_def str_field_def bool_field_def int_field_def
      names_field_def lower_def)

theorem created_policy_never_runs_witness:
  "let r = set_req_header ''X-User-Role'' ''admin'' ((plain_request ''POST'' (\<lambda>_. []))\<lparr>rq_body := Inr (JObj policy_body)\<rparr>);
       (s', w) = handlePolicies E0 r S0 fresh_response
   in rs_status w = Some 201 \<and> NextRun ref_cron (en_uuid E0 2) (sv_scheduler s') = None"
proof -
  let ?r = "set_req_header ''X-User-Role'' ''admin'' ((plain_request ''POST'' (\<lambda>_. []))\<lparr>rq_body := Inr (JObj policy_body)\<rparr>)"
  have r: "rq_method ?r = ''POST''" "get_header ?r ''X-User-Role'' = ''admin''"
    "body_members (rq_body ?r) = Inr policy_body"
    by (simp_all add: plain_request_def)
  have e: "p_Enabled empty_policy" "p_Schedule empty_policy = []" by (simp_all add: empty_policy_def)
  have k: "cron_ok (en_cron E0)" "seconds_law (en_cron E0)" "entries_owned (en_cron E0) (sv_scheduler S0)"
    "gorm_ok (en_gorm E0)" "sc_policies (sv_scheduler S0) (en_uuid E0 (sv_draws S0)) = None"
    "fst (g_Create (g_policies (en_gorm E0)) (empty_policy\<lparr>p_ID := en_uuid E0 (sv_draws S0)\<rparr>)
       (db_policies (sv_db S0))) = None"
    subgoal by (simp add: ref_cron_ok)
    subgoal by (simp add: ref_cron_ok)
    subgoal by (simp add: ref_cron_ok NewScheduler_owned)
    subgoal by (simp add: ref_gorm_ok)
    subgoal by (simp add: NewScheduler_def)
    subgoal by (simp add: ref_gorm_def ref_table_def two_snapshots_def empty_db_def)
    done
  from created_policy_never_runs [OF k(1-4) r policy_body_decodes e k(5,6)] show ?thesis
    by (simp add: case_prod_unfold)
qed

end
