(* ===== verification/Fleet.thy ===== *)
theory Fleet
  imports Service
begin

text \<open>
  Behaviour that spans the components: a node from its registration over its heartbeats to the
  watchdog, and what the state of a running server keeps through every request.
\<close>

section \<open>Heartbeats and the watchdog\<close>

text \<open>A heartbeat of an agent, as the server serves it: one listing.\<close>

definition serve_heartbeat ::
    "('x, 'c) env \<Rightarrow> string \<Rightarrow> ('x, 'c) server \<Rightarrow> (goerror + pb_snapshot list) \<times> ('x, 'c) server" where
  "serve_heartbeat E nodeID s = (rpc_ListSnapshots E nodeID s, s)"

definition serve_heartbeats :: "('x, 'c) env \<Rightarrow> string list \<Rightarrow> ('x, 'c) server \<Rightarrow> ('x, 'c) server" where
  "serve_heartbeats E calls s = fold (\<lambda>i s. snd (serve_heartbeat E i s)) calls s"

lemma serve_heartbeats_idle: "serve_heartbeats E calls s = s"
  unfolding serve_heartbeats_def by (induction calls) (simp_all add: serve_heartbeat_def)

text \<open>C27: Heartbeats do not keep a node alive. An agent registers and then sends heartbeats for as
  long as it likes, all of them served. More than two minutes after the registration, the next
  check of the watchdog sends the critical alert that this node is offline.\<close>

theorem heartbeats_do_not_count:
  assumes "gorm_ok (en_gorm E)" "table_up (\<lambda>n. n_DeletedAt n = None) (g_nodes (en_gorm E))"
    and "rpc_RegisterNode E clk req s = (Inr p, s1)" "distinct (map n_ID (db_nodes (sv_db s)))"
    and "prev_status (sv_watchdog s) (pn_Id p) \<noteq> ''offline''"
    and "s2 = serve_heartbeats E (fst (agent_loop (pn_Id p) evs)) s1"
    and "offlineThreshold < time_sub now (clk 0)"
    and "check (en_gorm E) now (sv_watchdog s2, sv_db s2) = (alerts, wd, d)"
  shows "\<exists>a \<in> set alerts. al_Level a = ''critical'' \<and> al_NodeID a = pn_Id p"
proof -
  let ?n = "\<lparr>n_ID = en_uuid E (sv_draws s), n_Hostname = rr_Hostname req, n_Address = rr_Address req,
    n_Status = ''online'', n_LastSeen = clk 0, n_CreatedAt = zero_time, n_UpdatedAt = zero_time,
    n_DeletedAt = None\<rparr>"
  obtain n' rows where c: "g_Create (g_nodes (en_gorm E)) ?n (db_nodes (sv_db s)) = (None, n', rows)"
    and p: "p = node_message (en_off E) n'" and s1: "sv_db s1 = (sv_db s)\<lparr>db_nodes := rows\<rparr>"
    and w1: "sv_watchdog s1 = sv_watchdog s"
    using assms(3)
    by (auto simp: rpc_RegisterNode_def CreateNode_def generateID_def case_prod_unfold Let_def
        prod_eq_iff split: option.splits)
  note r = table_create [OF gorm_okD(1) [OF assms(1)] c]
  from r have "node_norm n' = node_norm ?n" by blast
  from node_normD [OF this] have n': "n_ID n' = n_ID ?n" "n_LastSeen n' = clk 0" "n_DeletedAt n' = None"
    by simp_all
  have s2: "sv_db s2 = sv_db s1" "sv_watchdog s2 = sv_watchdog s"
    using assms(6) w1 by (simp_all add: serve_heartbeats_idle)
  have dist: "distinct (map n_ID (db_nodes (sv_db s2)))"
    using r assms(4) n'(1) by (simp add: s2 s1)
  obtain ns where ns: "ListNodes (en_gorm E) (sv_db s2) = Inr ns"
    using table_up_calls(4) [OF assms(2)] unfolding ListNodes_def by blast
  have "n' \<in> set ns"
    using ListNodes_set [OF assms(1) ns] r n'(3) by (simp add: s2 s1)
  moreover have "is_offline now n'" "\<not> down (sv_watchdog s2) (n_ID n')"
    using assms(5,7) n' by (simp_all add: is_offline_def down_def s2 p node_message_def)
  ultimately have "offline_alert n' \<in> set alerts"
    using check_nodes_eq [OF ListNodes_distinct [OF assms(1) dist ns], of "en_gorm E" now "(sv_watchdog s2, sv_db s2)"]
      assms(8) by (force simp: check_def ns verdict_def)
  then show ?thesis
    by (intro bexI [of _ "offline_alert n'"]) (simp_all add: offline_alert_def p node_message_def)
qed

definition demo_register :: register_req where
  "demo_register = \<lparr>rr_Hostname = ''web'', rr_Address = ''10.0.0.1:9090'', rr_Token = []\<rparr>"

theorem heartbeats_do_not_count_witness:
  "let (res, s1) = rpc_RegisterNode E0 (\<lambda>_. 0) demo_register S0;
       s2 = serve_heartbeats E0 (fst (agent_loop ''uuid-2'' [ATick, ATick, ATick, ATick, ASignal])) s1
   in \<exists>a \<in> set (fst (check ref_gorm (180 * second) (sv_watchdog s2, sv_db s2))).
        al_Level a = ''critical'' \<and> al_NodeID a = ''uuid-2''"
proof -
  let ?r = "rpc_RegisterNode E0 (\<lambda>_. 0) demo_register S0"
  have eval: "\<exists>p. fst ?r = Inr p \<and> pn_Id p = ''uuid-2''"
    by (simp add: rpc_RegisterNode_def demo_register_def generateID_def CreateNode_def ref_gorm_def ref_table_def
        two_snapshots_def empty_db_def node_message_def case_prod_unfold Let_def demo_env_def dec_nat.simps
        digit_char_def char_of_eq_iff)
  then obtain p where r: "?r = (Inr p, snd ?r)" and i: "pn_Id p = ''uuid-2''"
    by (metis prod.collapse)
  have k: "gorm_ok (en_gorm E0)" "table_up (\<lambda>n. n_DeletedAt n = None) (g_nodes (en_gorm E0))"
    "distinct (map n_ID (db_nodes (sv_db S0)))" "prev_status (sv_watchdog S0) (pn_Id p) \<noteq> ''offline''"
    "offlineThreshold < time_sub (180 * second) 0"
    subgoal by (simp add: ref_gorm_ok)
    subgoal by (simp add: ref_gorm_def ref_table_up)
    subgoal by (simp add: two_snapshots_def empty_db_def)
    subgoal by (simp add: demo_server_def newServer_def NewWatchdog_def prev_status_def)
    subgoal by (simp add: offlineThreshold_def time_sub_def duration_bounds time_units)
    done
  let ?s2 = "serve_heartbeats E0 (fst (agent_loop (pn_Id p) [ATick, ATick, ATick, ATick, ASignal])) (snd ?r)"
  obtain as wd d where c: "check (en_gorm E0) (180 * second) (sv_watchdog ?s2, sv_db ?s2) = (as, wd, d)"
    by (metis prod_cases3)
  from heartbeats_do_not_count [OF k(1,2) r k(3,4) refl k(5) c] c i show ?thesis
    by (simp add: case_prod_unfold Let_def)
qed

end
