(* ===== verification/Cli.thy ===== *)
theory Cli
  imports Api
begin

text \<open>
  \<open>cmd/cli/main.go\<close>: the interactive client, a state machine of screens fed with messages, and
  the small command line. A command (\<open>tea.Cmd\<close>) is a value that says what to do; \<open>exec\<close> does it
  against an HTTP client and gives the message for the next update. The widgets (text fields and
  tables), the rendering of styles and the HTTP client are parameters. An index out of range and
  a nil dereference, which stop the program, are the result \<open>None\<close>.
\<close>

section \<open>Characters of the texts\<close>

abbreviation i_acute :: string where
  "i_acute \<equiv> [CHR 0xC3, CHR 0xAD]"

abbreviation o_acute :: string where
  "o_acute \<equiv> [CHR 0xC3, CHR 0xB3]"

abbreviation u_acute :: string where
  "u_acute \<equiv> [CHR 0xC3, CHR 0xBA]"

abbreviation U_acute :: string where
  "U_acute \<equiv> [CHR 0xC3, CHR 0x9A]"

abbreviation n_tilde :: string where
  "n_tilde \<equiv> [CHR 0xC3, CHR 0xB1]"

abbreviation mid_dot :: string where
  "mid_dot \<equiv> [CHR 0xC2, CHR 0xB7]"

abbreviation up_arrow :: string where
  "up_arrow \<equiv> [CHR 0xE2, CHR 0x86, CHR 0x91]"

abbreviation down_arrow :: string where
  "down_arrow \<equiv> [CHR 0xE2, CHR 0x86, CHR 0x93]"

abbreviation right_mark :: string where
  "right_mark \<equiv> [CHR 0xE2, CHR 0x96, CHR 0xB6]"

abbreviation bar_char :: string where
  "bar_char \<equiv> [CHR 0xE2, CHR 0x96, CHR 0xAC]"

abbreviation em_dash :: string where
  "em_dash \<equiv> [CHR 0xE2, CHR 0x80, CHR 0x94]"

abbreviation ellipsis :: string where
  "ellipsis \<equiv> [CHR 0xE2, CHR 0x80, CHR 0xA6]"

abbreviation cross_mark :: string where
  "cross_mark \<equiv> [CHR 0xE2, CHR 0x9C, CHR 0x97]"

abbreviation check_mark :: string where
  "check_mark \<equiv> [CHR 0xE2, CHR 0x9C, CHR 0x93]"

abbreviation computer_char :: string where
  "computer_char \<equiv> [CHR 0xF0, CHR 0x9F, CHR 0x96, CHR 0xA5, CHR 0xEF, CHR 0xB8, CHR 0x8F]"

abbreviation camera_char :: string where
  "camera_char \<equiv> [CHR 0xF0, CHR 0x9F, CHR 0x93, CHR 0xB8]"

abbreviation clipboard_char :: string where
  "clipboard_char \<equiv> [CHR 0xF0, CHR 0x9F, CHR 0x93, CHR 0x8B]"

abbreviation calendar_char :: string where
  "calendar_char \<equiv> [CHR 0xF0, CHR 0x9F, CHR 0x93, CHR 0x85]"

abbreviation exit_char :: string where
  "exit_char \<equiv> [CHR 0xE2, CHR 0x9D, CHR 0x8C]"

section \<open>Styles\<close>

datatype attr =
    Bold bool
  | Foreground string
  | Background string
  | MarginBottom nat
  | Border string
  | BorderForeground string
  | BorderBottom bool
  | Padding nat nat

type_synonym style = "attr list"

definition styleTitle :: style where
  "styleTitle = [Bold True, Foreground ''#f5c800'', MarginBottom 1]"

definition styleBar :: style where
  "styleBar = [Foreground ''#22a64a'']"

definition styleSelected :: style where
  "styleSelected = [Foreground ''#f5c800'', Bold True]"

definition styleMuted :: style where
  "styleMuted = [Foreground ''#666688'']"

definition styleSuccess :: style where
  "styleSuccess = [Foreground ''#22a64a'']"

definition styleError :: style where
  "styleError = [Foreground ''#e8360a'']"

definition styleBox :: style where
  "styleBox = [Border ''rounded'', BorderForeground ''#2a2a4a'', Padding 0 1]"

record table_styles =
  ts_Header :: style
  ts_Cell :: style
  ts_Selected :: style

definition tableStyles :: "table_styles \<Rightarrow> table_styles" where
  "tableStyles def =
     def\<lparr>ts_Header := ts_Header def @ [Border ''normal'', BorderForeground ''#2a2a4a'', BorderBottom True,
           Bold True, Foreground ''#f5c800''],
         ts_Selected := ts_Selected def @ [Foreground ''#f5c800'', Background ''#1a1a35'', Bold True]\<rparr>"

section \<open>Screens, messages, commands\<close>

datatype screen = ScreenLogin | ScreenMenu | ScreenNodes | ScreenSnapshots | ScreenEvents | ScreenPolicies

text \<open>The constants are numbered by \<open>iota\<close>; screens are ordered by their numbers.\<close>

fun screen_number :: "screen \<Rightarrow> nat" where
  "screen_number ScreenLogin = 0"
| "screen_number ScreenMenu = 1"
| "screen_number ScreenNodes = 2"
| "screen_number ScreenSnapshots = 3"
| "screen_number ScreenEvents = 4"
| "screen_number ScreenPolicies = 5"

lemma screen_number_inj: "screen_number a = screen_number b \<longleftrightarrow> a = b"
  by (cases a; cases b) simp_all

instantiation screen :: linorder
begin

definition less_eq_screen :: "screen \<Rightarrow> screen \<Rightarrow> bool" where
  "a \<le> b \<longleftrightarrow> screen_number a \<le> screen_number b"

definition less_screen :: "screen \<Rightarrow> screen \<Rightarrow> bool" where
  "a < b \<longleftrightarrow> screen_number a < screen_number b"

instance
  by standard (auto simp: less_eq_screen_def less_screen_def screen_number_inj)

end

type_synonym row = "string list"

datatype key_type =
    KeyCtrlC | KeyEsc | KeyTab | KeyUp | KeyDown | KeyEnter | KeyBackspace | KeyRunes | KeyOther nat

record key_msg =
  km_Type :: key_type
  km_Runes :: string

datatype msg =
    WindowSize int int
  | KeyMsg key_msg
  | LoginDone string string string
  | ErrMsg string
  | NodesDone "row list"
  | SnapsDone "row list"
  | EventsDone "row list"
  | PoliciesDone "row list"
  | OtherMsg

datatype 'w cmd =
    NoCmd
  | Quit
  | Blink
  | WidgetCmd 'w
  | DoLogin string string
  | FetchNodes string
  | FetchSnapshots string
  | FetchEvents string
  | FetchPolicies string

record column =
  co_Title :: string
  co_Width :: nat

record ('i, 't, 'w) tui =
  ti_New :: 'i
  ti_Placeholder :: "string \<Rightarrow> 'i \<Rightarrow> 'i"
  ti_Width :: "nat \<Rightarrow> 'i \<Rightarrow> 'i"
  ti_EchoPassword :: "'i \<Rightarrow> 'i"
  ti_Focus :: "'i \<Rightarrow> 'i"
  ti_Blur :: "'i \<Rightarrow> 'i"
  ti_Value :: "'i \<Rightarrow> string"
  ti_Update :: "key_msg \<Rightarrow> 'i \<Rightarrow> 'i \<times> 'w option"
  ti_View :: "'i \<Rightarrow> string"
  tb_Zero :: 't
  tb_DefaultStyles :: table_styles
  tb_New :: "column list \<Rightarrow> row list \<Rightarrow> bool \<Rightarrow> nat \<Rightarrow> 't"
  tb_SetStyles :: "table_styles \<Rightarrow> 't \<Rightarrow> 't"
  tb_Update :: "key_msg \<Rightarrow> 't \<Rightarrow> 't \<times> 'w option"
  tb_View :: "'t \<Rightarrow> string"
  tu_Render :: "style \<Rightarrow> string \<Rightarrow> string"

section \<open>The model and its initial value\<close>

record ('i, 't) model =
  m_screen :: screen
  m_token :: string
  m_user :: string
  m_role :: string
  m_msg :: string
  m_err :: string
  m_loading :: bool
  m_cursor :: nat
  m_inputs :: "'i list"
  m_focused :: nat
  m_nodesTable :: 't
  m_snapshotsTable :: 't
  m_eventsTable :: 't
  m_policiesTable :: 't
  m_width :: int
  m_height :: int

definition initialModel :: "('i, 't, 'w) tui \<Rightarrow> ('i, 't) model" where
  "initialModel L =
     (let u = ti_Width L 30 (ti_Focus L (ti_Placeholder L ''admin'' (ti_New L)));
          p = ti_Width L 30 (ti_EchoPassword L (ti_Placeholder L (''contrase'' @ n_tilde @ ''a'') (ti_New L)))
      in \<lparr>m_screen = ScreenLogin, m_token = [], m_user = [], m_role = [], m_msg = [], m_err = [],
          m_loading = False, m_cursor = 0, m_inputs = [u, p], m_focused = 0,
          m_nodesTable = tb_Zero L, m_snapshotsTable = tb_Zero L, m_eventsTable = tb_Zero L,
          m_policiesTable = tb_Zero L, m_width = 0, m_height = 0\<rparr>)"

definition Init :: "('i, 't) model \<Rightarrow> 'w cmd" where
  "Init m = Blink"

section \<open>Update\<close>

text \<open>\<open>m.inputs[i]\<close>, which panics out of range.\<close>

definition at :: "'a list \<Rightarrow> nat \<Rightarrow> 'a option" where
  "at xs i = (if i < length xs then Some (xs ! i) else None)"

definition widget_cmd :: "'w option \<Rightarrow> 'w cmd" where
  "widget_cmd c = (case c of None \<Rightarrow> NoCmd | Some w \<Rightarrow> WidgetCmd w)"

definition focus_only :: "('i, 't, 'w) tui \<Rightarrow> nat \<Rightarrow> 'i list \<Rightarrow> 'i list" where
  "focus_only L f ws = map (\<lambda>(i, w). if i = f then ti_Focus L w else ti_Blur L w) (enumerate 0 ws)"

definition updateLogin ::
    "('i, 't, 'w) tui \<Rightarrow> key_msg \<Rightarrow> ('i, 't) model \<Rightarrow> (('i, 't) model \<times> 'w cmd) option" where
  "updateLogin L k m =
     (if km_Type k \<in> {KeyCtrlC, KeyEsc} then Some (m, Quit)
      else if km_Type k \<in> {KeyTab, KeyDown} then
        (if m_inputs m = [] then None
         else let f = (m_focused m + 1) mod length (m_inputs m)
              in Some (m\<lparr>m_focused := f, m_inputs := focus_only L f (m_inputs m)\<rparr>, NoCmd))
      else if km_Type k = KeyEnter then
        (case (at (m_inputs m) 0, at (m_inputs m) 1) of
           (Some u, Some p) \<Rightarrow>
             if m_focused m = 0
             then Some (m\<lparr>m_focused := 1, m_inputs := (m_inputs m)[0 := ti_Blur L u, 1 := ti_Focus L p]\<rparr>, NoCmd)
             else Some (m\<lparr>m_loading := True, m_err := []\<rparr>, DoLogin (ti_Value L u) (ti_Value L p))
         | _ \<Rightarrow> None)
      else
        (case at (m_inputs m) (m_focused m) of
           None \<Rightarrow> None
         | Some w \<Rightarrow>
             (let (w', c) = ti_Update L k w
              in Some (m\<lparr>m_inputs := (m_inputs m)[m_focused m := w']\<rparr>, widget_cmd c))))"

definition menuItems :: "string list" where
  "menuItems =
     [computer_char @ ''  Nodos'', camera_char @ ''  Snapshots'', clipboard_char @ ''  Eventos'',
      calendar_char @ ''  Pol'' @ i_acute @ ''ticas'', exit_char @ ''  Salir'']"

definition updateMenu :: "key_msg \<Rightarrow> ('i, 't) model \<Rightarrow> ('i, 't) model \<times> 'w cmd" where
  "updateMenu k m =
     (case km_Type k of
        KeyCtrlC \<Rightarrow> (m, Quit)
      | KeyEsc \<Rightarrow> (m, Quit)
      | KeyUp \<Rightarrow> (if m_cursor m > 0 then m\<lparr>m_cursor := m_cursor m - 1\<rparr> else m, NoCmd)
      | KeyDown \<Rightarrow> (if m_cursor m < length menuItems - 1 then m\<lparr>m_cursor := m_cursor m + 1\<rparr> else m, NoCmd)
      | KeyEnter \<Rightarrow>
          (if m_cursor m = 0 then (m\<lparr>m_loading := True\<rparr>, FetchNodes (m_token m))
           else if m_cursor m = 1 then (m\<lparr>m_loading := True\<rparr>, FetchSnapshots (m_token m))
           else if m_cursor m = 2 then (m\<lparr>m_loading := True\<rparr>, FetchEvents (m_token m))
           else if m_cursor m = 3 then (m\<lparr>m_loading := True\<rparr>, FetchPolicies (m_token m))
           else if m_cursor m = 4 then (m, Quit)
           else (m, NoCmd))
      | _ \<Rightarrow> (m, NoCmd))"

definition updateTable ::
    "('i, 't, 'w) tui \<Rightarrow> key_msg \<Rightarrow> ('i, 't) model \<Rightarrow> ('i, 't) model \<times> 'w cmd" where
  "updateTable L k m =
     (if km_Type k \<in> {KeyEsc, KeyBackspace} then (m\<lparr>m_screen := ScreenMenu, m_cursor := 0\<rparr>, NoCmd)
      else if km_Type k = KeyCtrlC then (m, Quit)
      else case m_screen m of
          ScreenNodes \<Rightarrow> (let (t, c) = tb_Update L k (m_nodesTable m) in (m\<lparr>m_nodesTable := t\<rparr>, widget_cmd c))
        | ScreenSnapshots \<Rightarrow> (let (t, c) = tb_Update L k (m_snapshotsTable m) in (m\<lparr>m_snapshotsTable := t\<rparr>, widget_cmd c))
        | ScreenEvents \<Rightarrow> (let (t, c) = tb_Update L k (m_eventsTable m) in (m\<lparr>m_eventsTable := t\<rparr>, widget_cmd c))
        | ScreenPolicies \<Rightarrow> (let (t, c) = tb_Update L k (m_policiesTable m) in (m\<lparr>m_policiesTable := t\<rparr>, widget_cmd c))
        | _ \<Rightarrow> (m, NoCmd))"

definition columns :: "(string \<times> nat) list \<Rightarrow> column list" where
  "columns cs = map (\<lambda>(t, w). \<lparr>co_Title = t, co_Width = w\<rparr>) cs"

definition new_table :: "('i, 't, 'w) tui \<Rightarrow> (string \<times> nat) list \<Rightarrow> row list \<Rightarrow> 't" where
  "new_table L cs rows =
     tb_SetStyles L (tableStyles (tb_DefaultStyles L)) (tb_New L (columns cs) rows True 10)"

definition Update ::
    "('i, 't, 'w) tui \<Rightarrow> msg \<Rightarrow> ('i, 't) model \<Rightarrow> (('i, 't) model \<times> 'w cmd) option" where
  "Update L msg m =
     (case msg of
        WindowSize w h \<Rightarrow> Some (m\<lparr>m_width := w, m_height := h\<rparr>, NoCmd)
      | KeyMsg k \<Rightarrow>
          (case m_screen m of
             ScreenLogin \<Rightarrow> updateLogin L k m
           | ScreenMenu \<Rightarrow> Some (updateMenu k m)
           | _ \<Rightarrow> Some (updateTable L k m))
      | LoginDone token user role \<Rightarrow>
          Some (m\<lparr>m_loading := False, m_token := token, m_user := user, m_role := role,
                  m_screen := ScreenMenu, m_cursor := 0, m_err := []\<rparr>, NoCmd)
      | NodesDone rows \<Rightarrow>
          Some (m\<lparr>m_loading := False, m_nodesTable := new_table L
                  [(''ID'', 10), (''Hostname'', 20), (''Direcci'' @ o_acute @ ''n'', 22), (''Estado'', 10),
                   (U_acute @ ''ltimo visto'', 20)] rows,
                  m_screen := ScreenNodes\<rparr>, NoCmd)
      | SnapsDone rows \<Rightarrow>
          Some (m\<lparr>m_loading := False, m_snapshotsTable := new_table L
                  [(''ID'', 10), (''Path'', 30), (''RO'', 6), (''Estado'', 10), (''Creado'', 20)] rows,
                  m_screen := ScreenSnapshots\<rparr>, NoCmd)
      | EventsDone rows \<Rightarrow>
          Some (m\<lparr>m_loading := False, m_eventsTable := new_table L
                  [(''Tipo'', 22), (''Mensaje'', 40), (''Severity'', 10), (''Hora'', 20)] rows,
                  m_screen := ScreenEvents\<rparr>, NoCmd)
      | PoliciesDone rows \<Rightarrow>
          Some (m\<lparr>m_loading := False, m_policiesTable := new_table L
                  [(''Nombre'', 18), (''Schedule'', 14), (''Path'', 24), (''Retenci'' @ o_acute @ ''n'', 12),
                   (''Activa'', 8)] rows,
                  m_screen := ScreenPolicies\<rparr>, NoCmd)
      | ErrMsg e \<Rightarrow> Some (m\<lparr>m_loading := False, m_err := e\<rparr>, NoCmd)
      | OtherMsg \<Rightarrow> Some (m, NoCmd))"

section \<open>View\<close>

definition line :: "string list \<Rightarrow> string" where
  "line parts = concat parts @ [newline]"

definition viewLogin :: "('i, 't, 'w) tui \<Rightarrow> ('i, 't) model \<Rightarrow> string option" where
  "viewLogin L m =
     (case (at (m_inputs m) 0, at (m_inputs m) 1) of
        (Some u, Some p) \<Rightarrow>
          Some (tu_Render L styleBox
            ([newline]
             @ line [''  '', tu_Render L styleMuted ''Usuario'']
             @ line [''  '', ti_View L u, [newline]]
             @ line [''  '', tu_Render L styleMuted (''Contrase'' @ n_tilde @ ''a'')]
             @ line [''  '', ti_View L p, [newline]]
             @ line [''  '', tu_Render L styleMuted
                 (''Tab/'' @ down_arrow @ '' cambiar campo  '' @ mid_dot @ ''  Enter iniciar sesi'' @ o_acute @ ''n  '' @ mid_dot @ ''  Esc salir'')]))
      | _ \<Rightarrow> None)"

definition menu_line :: "('i, 't, 'w) tui \<Rightarrow> nat \<Rightarrow> nat \<times> string \<Rightarrow> string" where
  "menu_line L cursor it =
     (if fst it = cursor
      then line [''  '', tu_Render L styleSelected (right_mark @ '' '' @ snd it)]
      else line [''    '', tu_Render L styleMuted (snd it)])"

definition viewMenu :: "('i, 't, 'w) tui \<Rightarrow> ('i, 't) model \<Rightarrow> string" where
  "viewMenu L m =
     tu_Render L styleBox
       (line [[newline], ''  '', tu_Render L styleMuted ''Conectado como '', tu_Render L styleSelected (m_user m),
              '' ('', m_role m, '')'', [newline]]
        @ concat (map (menu_line L (m_cursor m)) (enumerate 0 menuItems))
        @ line [[newline], ''  '', tu_Render L styleMuted
            (up_arrow @ ''/'' @ down_arrow @ '' navegar  '' @ mid_dot @ ''  Enter seleccionar  '' @ mid_dot @ ''  Esc salir'')])"

definition viewTable :: "('i, 't, 'w) tui \<Rightarrow> string \<Rightarrow> 't \<Rightarrow> string" where
  "viewTable L title t =
     line [tu_Render L styleTitle (''  '' @ title)]
     @ line [tb_View L t]
     @ line [tu_Render L styleMuted (''  '' @ up_arrow @ ''/'' @ down_arrow @ '' navegar  '' @ mid_dot @ ''  Esc volver al men'' @ u_acute)]"

definition view_body :: "('i, 't, 'w) tui \<Rightarrow> ('i, 't) model \<Rightarrow> string option" where
  "view_body L m =
     (case m_screen m of
        ScreenLogin \<Rightarrow> viewLogin L m
      | ScreenMenu \<Rightarrow> Some (viewMenu L m)
      | ScreenNodes \<Rightarrow> Some (viewTable L ''Nodos'' (m_nodesTable m))
      | ScreenSnapshots \<Rightarrow> Some (viewTable L ''Snapshots'' (m_snapshotsTable m))
      | ScreenEvents \<Rightarrow> Some (viewTable L ''Eventos'' (m_eventsTable m))
      | ScreenPolicies \<Rightarrow> Some (viewTable L (''Pol'' @ i_acute @ ''ticas'') (m_policiesTable m)))"

definition view_footer :: "('i, 't, 'w) tui \<Rightarrow> ('i, 't) model \<Rightarrow> string" where
  "view_footer L m =
     (if m_msg m \<noteq> [] then newline # tu_Render L styleSuccess (''  '' @ check_mark @ '' '' @ m_msg m)
      else if m_err m \<noteq> [] then newline # tu_Render L styleError (''  '' @ cross_mark @ '' '' @ m_err m)
      else [])"

definition View :: "('i, 't, 'w) tui \<Rightarrow> ('i, 't) model \<Rightarrow> string option" where
  "View L m =
     (let header = line [tu_Render L styleTitle ''snapah pow'', ''  '', tu_Render L styleBar (bar_char @ bar_char @ bar_char)]
      in if m_loading m then Some (header @ line [tu_Render L styleMuted ''  cargando...''])
         else map_option (\<lambda>body. header @ body @ view_footer L m @ [newline]) (view_body L m))"

end
