(* ===== verification/CliApi.thy ===== *)
theory CliApi
  imports Cli
begin

text \<open>
  \<open>cmd/cli/main.go\<close>, second part: the calls of the HTTP interface behind the commands, the
  decoding of the answers into structs, the rows of the tables, and the plain command line.

  \<open>json.Unmarshal\<close> and \<open>Decode\<close> are used with their errors ignored, so what they leave in the
  struct matters: a value of the wrong type is skipped, and only a time that cannot be read stops
  the decoding. The decoders here give the value and whether decoding goes on.
\<close>

section \<open>Decoding into structs\<close>

type_synonym 's setter = "json \<Rightarrow> 's \<Rightarrow> 's \<times> bool"

definition set_string :: "string setter" where
  "set_string j v = (case j of JStr s \<Rightarrow> s | _ \<Rightarrow> v, True)"

definition set_bool :: "bool setter" where
  "set_bool j v = (case j of JBool b \<Rightarrow> b | _ \<Rightarrow> v, True)"

definition set_int :: "int setter" where
  "set_int j v = (case j of JInt i \<Rightarrow> if min_duration \<le> i \<and> i \<le> max_duration then i else v | _ \<Rightarrow> v, True)"

text \<open>A time with the offset it was written with; a failed \<open>UnmarshalJSON\<close> leaves the zero time.\<close>

definition set_time :: "(time \<times> int) setter" where
  "set_time j v =
     (case j of
        JNull \<Rightarrow> (v, True)
      | JStr s \<Rightarrow> (case parse_rfc3339_in s of Some t \<Rightarrow> (t, True) | None \<Rightarrow> ((zero_time, 0), False))
      | _ \<Rightarrow> (v, False))"

fun set_members :: "(string \<Rightarrow> 's setter) \<Rightarrow> obj \<Rightarrow> 's \<Rightarrow> 's \<times> bool" where
  "set_members f [] s = (s, True)"
| "set_members f ((k, j) # ms) s =
     (let (s', ok) = f k j s in if ok then set_members f ms s' else (s', False))"

text \<open>A struct; every other JSON value leaves it.\<close>

definition set_struct :: "(string \<Rightarrow> 's setter) \<Rightarrow> 's setter" where
  "set_struct f j s = (case j of JObj ms \<Rightarrow> set_members f ms s | _ \<Rightarrow> (s, True))"

text \<open>
  A slice: element by element, over the elements that are there, then over zero values; the slice
  gets the length of the array unless the decoding stops. \<open>null\<close> makes it nil.
\<close>

fun set_elements :: "'s setter \<Rightarrow> 's \<Rightarrow> json list \<Rightarrow> 's list \<Rightarrow> 's list \<times> bool" where
  "set_elements f z [] old = ([], True)"
| "set_elements f z (j # js) old =
     (let (e, ok) = f j (case old of [] \<Rightarrow> z | o' # _ \<Rightarrow> o')
      in if ok then let (es, ok') = set_elements f z js (tl old) in (e # es, ok')
         else (e # tl old, False))"

definition set_slice :: "'s setter \<Rightarrow> 's \<Rightarrow> 's list setter" where
  "set_slice f z j old =
     (case j of JArr js \<Rightarrow> set_elements f z js old | JNull \<Rightarrow> ([], True) | _ \<Rightarrow> (old, True))"

text \<open>\<open>json.Unmarshal(data, &resp)\<close> into a struct with one slice, the error ignored.\<close>

definition unmarshal_slice :: "string \<Rightarrow> 's setter \<Rightarrow> 's \<Rightarrow> goerror + json \<Rightarrow> 's list" where
  "unmarshal_slice name f z data =
     (case data of
        Inl _ \<Rightarrow> []
      | Inr j \<Rightarrow> fst (set_struct (\<lambda>k v s. if names_field k name then set_slice f z v s else (s, True)) j []))"

text \<open>\<open>map[string]string\<close>: keys are exact; a value that is no string becomes the empty string.\<close>

definition string_map :: "goerror + json \<Rightarrow> string \<Rightarrow> string" where
  "string_map data k =
     (case data of
        Inr (JObj ms) \<Rightarrow> (case map_of (rev ms) k of Some (JStr s) \<Rightarrow> s | _ \<Rightarrow> [])
      | _ \<Rightarrow> [])"

section \<open>Structs of the answers\<close>

record node_view =
  nv_ID :: string
  nv_Hostname :: string
  nv_Address :: string
  nv_Status :: string
  nv_LastSeen :: "time \<times> int"

definition set_node :: "node_view setter" where
  "set_node = set_struct (\<lambda>k j s.
     if names_field k ''id'' then (let (x, ok) = set_string j (nv_ID s) in (s\<lparr>nv_ID := x\<rparr>, ok))
     else if names_field k ''hostname'' then (let (x, ok) = set_string j (nv_Hostname s) in (s\<lparr>nv_Hostname := x\<rparr>, ok))
     else if names_field k ''address'' then (let (x, ok) = set_string j (nv_Address s) in (s\<lparr>nv_Address := x\<rparr>, ok))
     else if names_field k ''status'' then (let (x, ok) = set_string j (nv_Status s) in (s\<lparr>nv_Status := x\<rparr>, ok))
     else if names_field k ''last_seen'' then (let (x, ok) = set_time j (nv_LastSeen s) in (s\<lparr>nv_LastSeen := x\<rparr>, ok))
     else (s, True))"

definition no_node :: node_view where
  "no_node = \<lparr>nv_ID = [], nv_Hostname = [], nv_Address = [], nv_Status = [], nv_LastSeen = (zero_time, 0)\<rparr>"

record snapshot_view =
  sn_ID :: string
  sn_SnapshotPath :: string
  sn_IsReadOnly :: bool
  sn_Status :: string
  sn_CreatedAt :: "time \<times> int"

definition set_snapshot :: "snapshot_view setter" where
  "set_snapshot = set_struct (\<lambda>k j s.
     if names_field k ''id'' then (let (x, ok) = set_string j (sn_ID s) in (s\<lparr>sn_ID := x\<rparr>, ok))
     else if names_field k ''snapshot_path'' then (let (x, ok) = set_string j (sn_SnapshotPath s) in (s\<lparr>sn_SnapshotPath := x\<rparr>, ok))
     else if names_field k ''is_readonly'' then (let (x, ok) = set_bool j (sn_IsReadOnly s) in (s\<lparr>sn_IsReadOnly := x\<rparr>, ok))
     else if names_field k ''status'' then (let (x, ok) = set_string j (sn_Status s) in (s\<lparr>sn_Status := x\<rparr>, ok))
     else if names_field k ''created_at'' then (let (x, ok) = set_time j (sn_CreatedAt s) in (s\<lparr>sn_CreatedAt := x\<rparr>, ok))
     else (s, True))"

definition no_snapshot :: snapshot_view where
  "no_snapshot = \<lparr>sn_ID = [], sn_SnapshotPath = [], sn_IsReadOnly = False, sn_Status = [], sn_CreatedAt = (zero_time, 0)\<rparr>"

record event_view =
  ev_Type :: string
  ev_Message :: string
  ev_Severity :: string
  ev_CreatedAt :: "time \<times> int"

definition set_event :: "event_view setter" where
  "set_event = set_struct (\<lambda>k j s.
     if names_field k ''type'' then (let (x, ok) = set_string j (ev_Type s) in (s\<lparr>ev_Type := x\<rparr>, ok))
     else if names_field k ''message'' then (let (x, ok) = set_string j (ev_Message s) in (s\<lparr>ev_Message := x\<rparr>, ok))
     else if names_field k ''severity'' then (let (x, ok) = set_string j (ev_Severity s) in (s\<lparr>ev_Severity := x\<rparr>, ok))
     else if names_field k ''created_at'' then (let (x, ok) = set_time j (ev_CreatedAt s) in (s\<lparr>ev_CreatedAt := x\<rparr>, ok))
     else (s, True))"

definition no_event :: event_view where
  "no_event = \<lparr>ev_Type = [], ev_Message = [], ev_Severity = [], ev_CreatedAt = (zero_time, 0)\<rparr>"

record policy_view =
  pv_Name :: string
  pv_Schedule :: string
  pv_SubvolumePath :: string
  pv_RetentionDaily :: int
  pv_RetentionWeekly :: int
  pv_Enabled :: bool

definition set_policy :: "policy_view setter" where
  "set_policy = set_struct (\<lambda>k j s.
     if names_field k ''name'' then (let (x, ok) = set_string j (pv_Name s) in (s\<lparr>pv_Name := x\<rparr>, ok))
     else if names_field k ''schedule'' then (let (x, ok) = set_string j (pv_Schedule s) in (s\<lparr>pv_Schedule := x\<rparr>, ok))
     else if names_field k ''subvolume_path'' then (let (x, ok) = set_string j (pv_SubvolumePath s) in (s\<lparr>pv_SubvolumePath := x\<rparr>, ok))
     else if names_field k ''retention_daily'' then (let (x, ok) = set_int j (pv_RetentionDaily s) in (s\<lparr>pv_RetentionDaily := x\<rparr>, ok))
     else if names_field k ''retention_weekly'' then (let (x, ok) = set_int j (pv_RetentionWeekly s) in (s\<lparr>pv_RetentionWeekly := x\<rparr>, ok))
     else if names_field k ''enabled'' then (let (x, ok) = set_bool j (pv_Enabled s) in (s\<lparr>pv_Enabled := x\<rparr>, ok))
     else (s, True))"

definition no_policy :: policy_view where
  "no_policy = \<lparr>pv_Name = [], pv_Schedule = [], pv_SubvolumePath = [], pv_RetentionDaily = 0,
     pv_RetentionWeekly = 0, pv_Enabled = False\<rparr>"

section \<open>Rows\<close>

definition short_id :: "string \<Rightarrow> string" where
  "short_id i = (if length i > 8 then take 8 i @ ''...'' else i)"

definition short_msg :: "string \<Rightarrow> string" where
  "short_msg s = (if length s > 38 then take 38 s @ ellipsis else s)"

text \<open>A time is shown on the clock of the offset it was written with.\<close>

definition show_time :: "time \<times> int \<Rightarrow> string" where
  "show_time v = fmt_short (civil_of (snd v) (fst v))"

definition or_empty :: "row \<Rightarrow> row list \<Rightarrow> row list" where
  "or_empty r rows = (if rows = [] then [r] else rows)"

definition node_row :: "node_view \<Rightarrow> row" where
  "node_row n = [short_id (nv_ID n), nv_Hostname n, nv_Address n, nv_Status n, show_time (nv_LastSeen n)]"

definition snapshot_row :: "snapshot_view \<Rightarrow> row" where
  "snapshot_row s =
     [short_id (sn_ID s), sn_SnapshotPath s, if sn_IsReadOnly s then ''RO'' else ''RW'', sn_Status s,
      show_time (sn_CreatedAt s)]"

definition event_row :: "event_view \<Rightarrow> row" where
  "event_row e = [ev_Type e, short_msg (ev_Message e), ev_Severity e, show_time (ev_CreatedAt e)]"

definition pol_row :: "policy_view \<Rightarrow> row" where
  "pol_row p =
     [pv_Name p, pv_Schedule p, pv_SubvolumePath p,
      dec_int (pv_RetentionDaily p) @ ''d/'' @ dec_int (pv_RetentionWeekly p) @ ''w'',
      if pv_Enabled p then ''s'' @ i_acute else ''no'']"

definition node_rows :: "goerror + json \<Rightarrow> row list" where
  "node_rows data =
     or_empty [em_dash, ''Sin nodos'', [], [], []]
       (map node_row (unmarshal_slice ''nodes'' set_node no_node data))"

definition snapshot_rows :: "goerror + json \<Rightarrow> row list" where
  "snapshot_rows data =
     or_empty [em_dash, ''Sin snapshots'', [], [], []]
       (map snapshot_row (unmarshal_slice ''snapshots'' set_snapshot no_snapshot data))"

definition event_rows :: "goerror + json \<Rightarrow> row list" where
  "event_rows data =
     or_empty [em_dash, ''Sin eventos'', [], []]
       (map event_row (unmarshal_slice ''events'' set_event no_event data))"

definition policy_rows :: "goerror + json \<Rightarrow> row list" where
  "policy_rows data =
     or_empty [em_dash, ''Sin pol'' @ i_acute @ ''ticas'', [], [], []]
       (map pol_row (unmarshal_slice ''policies'' set_policy no_policy data))"

section \<open>Calls\<close>

text \<open>
  A request of the client; \<open>cp_Body\<close> of an answer is what reading the body gives, and then what
  the JSON decoder finds in it.
\<close>

record client_request =
  cr_Method :: string
  cr_URL :: string
  cr_Headers :: "(string \<times> string) list"
  cr_Body :: "json option"

record client_response =
  cp_Status :: nat
  cp_Body :: "goerror + (goerror + json)"

record 'x http_lib =
  hl_URL_ok :: "string \<Rightarrow> bool"
  hl_Do :: "client_request \<Rightarrow> 'x \<Rightarrow> (goerror + client_response) \<times> 'x"

definition baseURL :: "(string \<Rightarrow> string) \<Rightarrow> string" where
  "baseURL getenv = (let v = getenv ''SNAPAH_URL'' in if v \<noteq> [] then v else ''http://localhost:8082'')"

text \<open>What a decoder reads from a body, with an error of the reading as its own.\<close>

definition body_json :: "client_response \<Rightarrow> goerror + json" where
  "body_json r = (case cp_Body r of Inl e \<Rightarrow> Inl e | Inr d \<Rightarrow> d)"

definition doLogin :: "'x http_lib \<Rightarrow> string \<Rightarrow> string \<Rightarrow> string \<Rightarrow> 'x \<Rightarrow> msg \<times> 'x" where
  "doLogin H base user pass x =
     (case hl_Do H \<lparr>cr_Method = ''POST'', cr_URL = base @ ''/api/auth/login'',
              cr_Headers = [(''Content-Type'', ''application/json'')],
              cr_Body = Some (JObj [(''password'', JStr pass), (''username'', JStr user)])\<rparr> x of
        (Inl e, x') \<Rightarrow> (ErrMsg (''no se pudo conectar: '' @ e), x')
      | (Inr resp, x') \<Rightarrow>
          (let data = string_map (body_json resp)
           in (if cp_Status resp \<noteq> 200 then ErrMsg (data ''error'')
               else LoginDone (data ''token'') (data ''username'') (data ''role''), x')))"

text \<open>
  The error of \<open>http.NewRequest\<close> is dropped: with an address it cannot parse the request is nil, and
  setting a header on it stops the program (\<open>None\<close>).
\<close>

definition apiGet :: "'x http_lib \<Rightarrow> string \<Rightarrow> string \<Rightarrow> string \<Rightarrow> 'x
     \<Rightarrow> ((goerror + (goerror + json)) \<times> 'x) option" where
  "apiGet H base token path x =
     (if \<not> hl_URL_ok H (base @ path) then None
      else Some (case hl_Do H \<lparr>cr_Method = ''GET'', cr_URL = base @ path,
                  cr_Headers = [(''Authorization'', ''Bearer '' @ token)], cr_Body = None\<rparr> x of
          (Inl e, x') \<Rightarrow> (Inl e, x')
        | (Inr resp, x') \<Rightarrow> (cp_Body resp, x')))"

definition fetchNodes :: "'x http_lib \<Rightarrow> string \<Rightarrow> string \<Rightarrow> 'x \<Rightarrow> (msg \<times> 'x) option" where
  "fetchNodes H base token x =
     (case apiGet H base token ''/api/nodes'' x of
        None \<Rightarrow> None
      | Some (Inl e, x') \<Rightarrow> Some (ErrMsg e, x')
      | Some (Inr data, x') \<Rightarrow> Some (NodesDone (node_rows data), x'))"

definition fetchSnapshots :: "'x http_lib \<Rightarrow> string \<Rightarrow> string \<Rightarrow> 'x \<Rightarrow> (msg \<times> 'x) option" where
  "fetchSnapshots H base token x =
     (case apiGet H base token ''/api/snapshots'' x of
        None \<Rightarrow> None
      | Some (Inl e, x') \<Rightarrow> Some (ErrMsg e, x')
      | Some (Inr data, x') \<Rightarrow> Some (SnapsDone (snapshot_rows data), x'))"

definition fetchEvents :: "'x http_lib \<Rightarrow> string \<Rightarrow> string \<Rightarrow> 'x \<Rightarrow> (msg \<times> 'x) option" where
  "fetchEvents H base token x =
     (case apiGet H base token ''/api/events'' x of
        None \<Rightarrow> None
      | Some (Inl e, x') \<Rightarrow> Some (ErrMsg e, x')
      | Some (Inr data, x') \<Rightarrow> Some (EventsDone (event_rows data), x'))"

definition fetchPolicies :: "'x http_lib \<Rightarrow> string \<Rightarrow> string \<Rightarrow> 'x \<Rightarrow> (msg \<times> 'x) option" where
  "fetchPolicies H base token x =
     (case apiGet H base token ''/api/policies'' x of
        None \<Rightarrow> None
      | Some (Inl e, x') \<Rightarrow> Some (ErrMsg e, x')
      | Some (Inr data, x') \<Rightarrow> Some (PoliciesDone (policy_rows data), x'))"

section \<open>The plain command line\<close>

text \<open>The text printed and the exit code.\<close>

definition runCLI :: "'x http_lib \<Rightarrow> string \<Rightarrow> string list \<Rightarrow> 'x \<Rightarrow> (string \<times> nat) \<times> 'x" where
  "runCLI H base args x =
     (if hd args = ''status'' then
        (case hl_Do H \<lparr>cr_Method = ''GET'', cr_URL = base @ ''/health'', cr_Headers = [], cr_Body = None\<rparr> x of
           (Inl e, x') \<Rightarrow> ((line [''error: '', e], 1), x')
         | (Inr resp, x') \<Rightarrow>
             (let data = string_map (body_json resp)
              in ((line [''status: '', data ''status'', ''  version: '', data ''version''], 0), x')))
      else if hd args = ''version'' then ((line [''snapah pow CLI '' @ em_dash @ '' v0.6.0''], 0), x)
      else ((line [''Uso: snapah [status|version]''] @ line [''Sin argumentos: abre la TUI interactiva''], 0), x))"

text \<open>\<open>main\<close>: without an argument it runs the interactive client, here \<open>tui\<close>, which takes over the
  terminal; an error of it is printed.\<close>

definition cli_main :: "'x http_lib \<Rightarrow> ('x \<Rightarrow> goerror option \<times> 'x) \<Rightarrow> string \<Rightarrow> string list \<Rightarrow> 'x \<Rightarrow> (string \<times> nat) \<times> 'x" where
  "cli_main H tui base args x =
     (if length args > 1 then runCLI H base (tl args) x
      else (case tui x of
              (Some e, x') \<Rightarrow> ((line [''error: '', e], 1), x')
            | (None, x') \<Rightarrow> (([], 0), x')))"

text \<open>The exit code tells a script whether the server could be reached, and nothing else.\<close>

lemma cli_exit_code:
  "snd (fst (cli_main H tui base args x)) =
     (if length args > 1
      then (if args ! 1 = ''status'' \<and>
              (\<exists>e. fst (hl_Do H \<lparr>cr_Method = ''GET'', cr_URL = base @ ''/health'', cr_Headers = [], cr_Body = None\<rparr> x) = Inl e)
            then 1 else 0)
      else if fst (tui x) = None then 0 else 1)"
  by (cases args rule: list.exhaust; cases "tl args"; cases "tui x")
    (auto simp: cli_main_def runCLI_def Let_def split: prod.splits sum.splits option.splits)

end
