(* ===== verification/CliSession.thy ===== *)
theory CliSession
  imports CliApi
begin

text \<open>
  A session of the interactive client: the loop of the library hands every key and every finished
  command to \<open>Update\<close> and starts the command it returns. Commands run at the same time and finish in
  any order. \<open>ss_log\<close> keeps the messages of the finished commands.
\<close>

section \<open>Sessions\<close>

text \<open>Running a command gives its message; those of the widgets only concern the widgets.\<close>

definition exec :: "'x http_lib \<Rightarrow> string \<Rightarrow> 'w cmd \<Rightarrow> 'x \<Rightarrow> (msg \<times> 'x) option" where
  "exec H base c x =
     (case c of
        DoLogin u p \<Rightarrow> Some (doLogin H base u p x)
      | FetchNodes t \<Rightarrow> fetchNodes H base t x
      | FetchSnapshots t \<Rightarrow> fetchSnapshots H base t x
      | FetchEvents t \<Rightarrow> fetchEvents H base t x
      | FetchPolicies t \<Rightarrow> fetchPolicies H base t x
      | _ \<Rightarrow> Some (OtherMsg, x))"

record ('i, 't, 'w, 'x) session =
  ss_model :: "('i, 't) model"
  ss_pending :: "'w cmd list"
  ss_world :: 'x
  ss_log :: "msg list"

definition start_session :: "('i, 't, 'w) tui \<Rightarrow> 'x \<Rightarrow> ('i, 't, 'w, 'x) session" where
  "start_session L x =
     \<lparr>ss_model = initialModel L, ss_pending = [Init (initialModel L)], ss_world = x, ss_log = []\<rparr>"

inductive session_step ::
    "('i, 't, 'w) tui \<Rightarrow> 'x http_lib \<Rightarrow> string \<Rightarrow> ('i, 't, 'w, 'x) session \<Rightarrow> ('i, 't, 'w, 'x) session \<Rightarrow> bool"
  for L H base where
  key: "Update L (KeyMsg k) (ss_model s) = Some (m, c) \<Longrightarrow>
     session_step L H base s (s\<lparr>ss_model := m, ss_pending := ss_pending s @ [c]\<rparr>)"
| resize: "Update L (WindowSize a b) (ss_model s) = Some (m, c) \<Longrightarrow>
     session_step L H base s (s\<lparr>ss_model := m, ss_pending := ss_pending s @ [c]\<rparr>)"
| answer: "ss_pending s = cs @ d # ds \<Longrightarrow> exec H base d (ss_world s) = Some (msg, x) \<Longrightarrow>
     Update L msg (ss_model s) = Some (m, c) \<Longrightarrow>
     session_step L H base s
       (s\<lparr>ss_model := m, ss_pending := cs @ ds @ [c], ss_world := x, ss_log := ss_log s @ [msg]\<rparr>)"
| elsewhere: "session_step L H base s (s\<lparr>ss_world := x\<rparr>)"

inductive_cases session_stepE: "session_step L H base s s'"

inductive session_steps ::
    "('i, 't, 'w) tui \<Rightarrow> 'x http_lib \<Rightarrow> string \<Rightarrow> ('i, 't, 'w, 'x) session \<Rightarrow> ('i, 't, 'w, 'x) session \<Rightarrow> bool"
  for L H base s where
  no_step: "session_steps L H base s s"
| one_more: "session_steps L H base s t \<Longrightarrow> session_step L H base t u \<Longrightarrow> session_steps L H base s u"

section \<open>What every update keeps\<close>

definition fields_ok :: "('i, 't) model \<Rightarrow> bool" where
  "fields_ok m \<longleftrightarrow> length (m_inputs m) = 2 \<and> m_focused m < 2 \<and> m_cursor m < length menuItems"

lemma length_menuItems [simp]: "length menuItems = 5"
  by (simp add: menuItems_def)

lemma length_focus_only [simp]: "length (focus_only L f ws) = length ws"
  by (simp add: focus_only_def)

lemma at_two [simp]: "length ws = 2 \<Longrightarrow> i < 2 \<Longrightarrow> at ws i = Some (ws ! i)"
  by (simp add: at_def)

lemma updateLogin_fields:
  assumes "fields_ok m"
  obtains m' c where "updateLogin L k m = Some (m', c)" "fields_ok m'" "m_screen m' = m_screen m"
    "m_token m' = m_token m"
proof -
  obtain f ws where m: "m_focused m = f" "m_inputs m = ws" "length ws = 2" "f < 2" "m_cursor m < 5"
    using assms by (simp add: fields_ok_def)
  then have "\<exists>m' c. updateLogin L k m = Some (m', c) \<and> fields_ok m' \<and> m_screen m' = m_screen m
      \<and> m_token m' = m_token m"
    by (cases "ti_Update L k (ws ! f)") (auto simp: updateLogin_def fields_ok_def Let_def)
  then show ?thesis using that by blast
qed

lemma updateMenu_fields:
  "fields_ok m \<Longrightarrow> fields_ok (fst (updateMenu k m)) \<and> m_screen (fst (updateMenu k m)) = m_screen m
     \<and> m_token (fst (updateMenu k m)) = m_token m"
  by (auto simp: updateMenu_def fields_ok_def split: key_type.splits)

lemma updateTable_fields:
  "fields_ok m \<Longrightarrow> fields_ok (fst (updateTable L k m)) \<and> m_token (fst (updateTable L k m)) = m_token m
     \<and> m_screen (fst (updateTable L k m)) \<in> {ScreenMenu, m_screen m}"
  by (cases "m_screen m") (simp_all add: updateTable_def fields_ok_def case_prod_unfold Let_def)

lemma Update_fields:
  fixes L :: "('i, 't, 'w) tui"
  assumes "fields_ok m"
  obtains m' c where "Update L msg m = Some (m', c)" "fields_ok m'"
proof -
  have pair: "\<exists>m' c. Some p = Some (m', c) \<and> fields_ok m'"
    if "fields_ok (fst p)" for p :: "('i, 't) model \<times> 'w cmd"
    using that by (cases p) simp
  have "\<exists>m' c. Update L msg m = Some (m', c) \<and> fields_ok m'"
  proof (cases msg)
    case (KeyMsg k)
    show ?thesis
    proof (cases "m_screen m = ScreenLogin")
      case True
      then show ?thesis
        using updateLogin_fields [OF assms, of L k] by (simp add: Update_def KeyMsg) metis
    next
      case False
      then have "Update L msg m = Some (if m_screen m = ScreenMenu then updateMenu k m else updateTable L k m)"
        by (cases "m_screen m") (simp_all add: Update_def KeyMsg)
      show ?thesis
        unfolding \<open>Update L msg m = _\<close>
        by (rule pair) (simp add: updateMenu_fields [OF assms] updateTable_fields [OF assms])
    qed
  qed (use assms in \<open>simp_all add: Update_def fields_ok_def\<close>)
  then show ?thesis using that by blast
qed

definition fetch_token :: "'w cmd \<Rightarrow> string option" where
  "fetch_token c =
     (case c of FetchNodes t \<Rightarrow> Some t | FetchSnapshots t \<Rightarrow> Some t | FetchEvents t \<Rightarrow> Some t
        | FetchPolicies t \<Rightarrow> Some t | _ \<Rightarrow> None)"

text \<open>What an update does to the screen and the token, by the kind of message.\<close>

definition listing_msg :: "msg \<Rightarrow> bool" where
  "listing_msg msg = (case msg of NodesDone _ \<Rightarrow> True | SnapsDone _ \<Rightarrow> True | EventsDone _ \<Rightarrow> True
     | PoliciesDone _ \<Rightarrow> True | _ \<Rightarrow> False)"

definition login_msg :: "msg \<Rightarrow> bool" where
  "login_msg msg = (case msg of LoginDone _ _ _ \<Rightarrow> True | _ \<Rightarrow> False)"

lemma widget_cmd_token [simp]: "fetch_token (widget_cmd c) = None"
  by (cases c) (simp_all add: widget_cmd_def fetch_token_def)

lemma Update_screen:
  assumes "Update L msg m = Some (m', c)"
  shows "m_screen m' = ScreenLogin \<longleftrightarrow> m_screen m = ScreenLogin \<and> \<not> listing_msg msg \<and> \<not> login_msg msg"
    and "fetch_token c \<in> {None, Some (m_token m)}"
    and "fetch_token c \<noteq> None \<Longrightarrow> m_screen m = ScreenMenu"
    and "\<not> login_msg msg \<Longrightarrow> m_token m' = m_token m"
proof -
  have "(m_screen m' = ScreenLogin \<longleftrightarrow> m_screen m = ScreenLogin \<and> \<not> listing_msg msg \<and> \<not> login_msg msg)
    \<and> fetch_token c \<in> {None, Some (m_token m)} \<and> (fetch_token c \<noteq> None \<longrightarrow> m_screen m = ScreenMenu)
    \<and> (\<not> login_msg msg \<longrightarrow> m_token m' = m_token m)"
  proof (cases msg)
    case (KeyMsg k)
    show ?thesis
    proof (cases "m_screen m")
      case ScreenLogin
      then show ?thesis
        using assms
        by (auto simp: Update_def KeyMsg updateLogin_def Let_def listing_msg_def login_msg_def fetch_token_def [of NoCmd]
            fetch_token_def [of Quit] fetch_token_def [of "DoLogin _ _"] case_prod_unfold
            split: if_splits option.splits)
    next
      case ScreenMenu
      then show ?thesis
        using assms
        by (auto simp: Update_def KeyMsg updateMenu_def listing_msg_def login_msg_def fetch_token_def
            split: key_type.splits if_splits)
    qed (use assms in \<open>auto simp: Update_def KeyMsg updateTable_def listing_msg_def login_msg_def Let_def
          fetch_token_def [of NoCmd] fetch_token_def [of Quit] case_prod_unfold split: if_splits\<close>)
  qed (use assms in \<open>auto simp: Update_def listing_msg_def login_msg_def fetch_token_def\<close>)
  then show "m_screen m' = ScreenLogin \<longleftrightarrow> m_screen m = ScreenLogin \<and> \<not> listing_msg msg \<and> \<not> login_msg msg"
    and "fetch_token c \<in> {None, Some (m_token m)}"
    and "fetch_token c \<noteq> None \<Longrightarrow> m_screen m = ScreenMenu"
    and "\<not> login_msg msg \<Longrightarrow> m_token m' = m_token m"
    by blast+
qed

section \<open>What holds in every session\<close>

definition tokens_in :: "msg list \<Rightarrow> string set" where
  "tokens_in log = {t. \<exists>u r. LoginDone t u r \<in> set log}"

lemma tokens_in_snoc [simp]:
  "tokens_in [] = {}"
  "tokens_in (log @ [msg]) = (case msg of LoginDone t u r \<Rightarrow> {t} | _ \<Rightarrow> {}) \<union> tokens_in log"
  by (auto simp: tokens_in_def split: msg.splits)

definition session_inv :: "('i, 't, 'w, 'x) session \<Rightarrow> bool" where
  "session_inv s \<longleftrightarrow>
     fields_ok (ss_model s) \<and>
     (m_screen (ss_model s) = ScreenLogin \<longleftrightarrow> tokens_in (ss_log s) = {}) \<and>
     (m_screen (ss_model s) \<noteq> ScreenLogin \<longrightarrow> m_token (ss_model s) \<in> tokens_in (ss_log s)) \<and>
     (\<forall>c \<in> set (ss_pending s). \<forall>t. fetch_token c = Some t \<longrightarrow> t \<in> tokens_in (ss_log s))"

lemma session_invD:
  assumes "session_inv s"
  shows "fields_ok (ss_model s)" "m_screen (ss_model s) = ScreenLogin \<longleftrightarrow> tokens_in (ss_log s) = {}"
    "m_screen (ss_model s) \<noteq> ScreenLogin \<Longrightarrow> m_token (ss_model s) \<in> tokens_in (ss_log s)"
    "c \<in> set (ss_pending s) \<Longrightarrow> fetch_token c = Some t \<Longrightarrow> t \<in> tokens_in (ss_log s)"
  using assms by (auto simp: session_inv_def)

lemma start_session_inv: "session_inv (start_session L x)"
  by (simp add: start_session_def session_inv_def initialModel_def Init_def fields_ok_def fetch_token_def)

lemma exec_kind:
  assumes "exec H base d x = Some (msg, x')"
  shows "listing_msg msg \<Longrightarrow> fetch_token d \<noteq> None" "login_msg msg \<Longrightarrow> fetch_token d = None"
proof -
  have "(listing_msg msg \<longrightarrow> fetch_token d \<noteq> None) \<and> (login_msg msg \<longrightarrow> fetch_token d = None)"
    using assms
    by (cases d)
      (auto simp: exec_def doLogin_def fetchNodes_def fetchSnapshots_def fetchEvents_def fetchPolicies_def
        listing_msg_def login_msg_def fetch_token_def Let_def split: sum.splits option.splits prod.splits if_splits)
  then show "listing_msg msg \<Longrightarrow> fetch_token d \<noteq> None" "login_msg msg \<Longrightarrow> fetch_token d = None" by auto
qed

lemma Update_inv:
  assumes "session_inv s" "Update L msg (ss_model s) = Some (m, c)" "\<not> listing_msg msg \<or> tokens_in (ss_log s) \<noteq> {}"
    and "set pend \<subseteq> insert c (set (ss_pending s))"
    and "log = ss_log s \<and> \<not> login_msg msg \<or> log = ss_log s @ [msg]"
  shows "session_inv (s\<lparr>ss_model := m, ss_pending := pend, ss_world := x, ss_log := log\<rparr>)"
proof -
  note inv = session_invD [OF assms(1)] and upd = Update_screen [OF assms(2)]
  have ok: "fields_ok m"
    using Update_fields [OF inv(1), of L msg] assms(2) by (metis option.inject prod.inject)
  have log: "tokens_in log = (case msg of LoginDone t u r \<Rightarrow> {t} | _ \<Rightarrow> {}) \<union> tokens_in (ss_log s)"
    using assms(5) by (auto simp: login_msg_def split: msg.splits)
  have scr: "m_screen m = ScreenLogin \<longleftrightarrow> tokens_in log = {}"
  proof (cases "login_msg msg")
    case True
    then have "tokens_in log \<noteq> {}" using log by (auto simp: login_msg_def split: msg.splits)
    then show ?thesis using True upd(1) by simp
  next
    case False
    then have "tokens_in log = tokens_in (ss_log s)" using log by (auto simp: login_msg_def split: msg.splits)
    then show ?thesis using False upd(1) inv(2) assms(3) by metis
  qed
  have tok: "m_token m \<in> tokens_in log" if "m_screen m \<noteq> ScreenLogin"
  proof (cases "login_msg msg")
    case True
    then obtain t u r where msg: "msg = LoginDone t u r" by (cases msg) (auto simp: login_msg_def)
    then have "m_token m = t" using assms(2) by (auto simp: Update_def)
    then show ?thesis by (simp add: log msg)
  next
    case False
    then have "m_screen (ss_model s) \<noteq> ScreenLogin" using that upd(1) assms(3) inv(2) by auto
    then show ?thesis using inv(3) upd(4) False log by auto
  qed
  have "t \<in> tokens_in log" if "c' \<in> set pend" "fetch_token c' = Some t" for c' t
  proof (cases "c' = c")
    case True
    then have "m_screen (ss_model s) \<noteq> ScreenLogin" "t = m_token (ss_model s)" using upd(2,3) that(2) by auto
    then show ?thesis using inv(3) log by auto
  next
    case False
    then show ?thesis using inv(4) that assms(4) log by auto
  qed
  with ok scr tok show ?thesis by (simp add: session_inv_def)
qed

lemma session_step_inv:
  assumes "session_step L H base s s'" "session_inv s"
  shows "session_inv s'"
  using assms(1)
proof cases
  case (key k m c)
  then show ?thesis
    using Update_inv [OF assms(2) key(2), of "ss_pending s @ [c]" "ss_log s" "ss_world s"]
    by (simp add: listing_msg_def login_msg_def)
next
  case (resize a b m c)
  then show ?thesis
    using Update_inv [OF assms(2) resize(2), of "ss_pending s @ [c]" "ss_log s" "ss_world s"]
    by (simp add: listing_msg_def login_msg_def)
next
  case (answer cs d ds msg x m c)
  have "tokens_in (ss_log s) \<noteq> {}" if "listing_msg msg"
    using exec_kind(1) [OF answer(3) that] session_invD(4) [OF assms(2), of d] answer(2) by auto
  then show ?thesis
    using Update_inv [OF assms(2) answer(4), of "cs @ ds @ [c]" "ss_log s @ [msg]" x] answer(1,2) by auto
next
  case (elsewhere x)
  then show ?thesis using assms(2) by (simp add: session_inv_def)
qed

lemma session_steps_inv: "session_steps L H base s s' \<Longrightarrow> session_inv s \<Longrightarrow> session_inv s'"
  by (induction rule: session_steps.induct) (blast intro: session_step_inv)+

lemma viewLogin_total: "fields_ok m \<Longrightarrow> viewLogin L m \<noteq> None"
  by (simp add: viewLogin_def fields_ok_def)

text \<open>C38: The interface never stops on an index. In every session, whatever the keys, the answers of
  the server and their order, every message can be handled and the screen can be drawn; the
  cursor stays on an item of the menu and the focus on one of the two fields.\<close>

theorem interface_total:
  assumes "session_steps L H base (start_session L x) s"
  shows "Update L msg (ss_model s) \<noteq> None \<and> View L (ss_model s) \<noteq> None \<and>
    m_cursor (ss_model s) < length menuItems \<and> m_focused (ss_model s) < length (m_inputs (ss_model s))"
proof -
  have ok: "fields_ok (ss_model s)"
    using session_steps_inv [OF assms start_session_inv] by (rule session_invD)
  have "View L (ss_model s) \<noteq> None"
    using viewLogin_total [OF ok, of L] by (simp add: View_def view_body_def Let_def split: screen.split)
  moreover have "Update L msg (ss_model s) \<noteq> None"
    using Update_fields [OF ok, of L msg] by (metis option.distinct(1))
  ultimately show ?thesis using ok by (simp add: fields_ok_def)
qed

text \<open>C39: Data is only asked for in a session. Every request for a listing that is under way carries
  a token that a login of this session was answered with, and the client is past the login
  screen exactly when there was such a login.\<close>

theorem requests_carry_session:
  assumes "session_steps L H base (start_session L x) s"
  shows "(c \<in> set (ss_pending s) \<and> fetch_token c = Some t \<longrightarrow> (\<exists>u r. LoginDone t u r \<in> set (ss_log s))) \<and>
    (m_screen (ss_model s) \<noteq> ScreenLogin \<longleftrightarrow> (\<exists>t u r. LoginDone t u r \<in> set (ss_log s)))"
  using session_invD [OF session_steps_inv [OF assms start_session_inv]] by (auto simp: tokens_in_def)

section \<open>An error is shown for the rest of the session\<close>

definition quiet_msg :: "msg \<Rightarrow> bool" where
  "quiet_msg msg \<longleftrightarrow> \<not> login_msg msg \<and> (case msg of ErrMsg _ \<Rightarrow> False | _ \<Rightarrow> True)"

lemma updateMenu_err [simp]: "m_err (fst (updateMenu k m)) = m_err m"
  by (simp add: updateMenu_def split: key_type.split)

lemma updateTable_err [simp]: "m_err (fst (updateTable L k m)) = m_err m"
  by (simp add: updateTable_def case_prod_unfold Let_def split: screen.split)

lemma Update_err:
  assumes "Update L msg m = Some (m', c)" "m_screen m \<noteq> ScreenLogin" "quiet_msg msg"
  shows "m_err m' = m_err m" "m_screen m' \<noteq> ScreenLogin"
proof -
  show "m_screen m' \<noteq> ScreenLogin" using Update_screen(1) [OF assms(1)] assms(2) by blast
  show "m_err m' = m_err m"
  proof (cases msg)
    case (KeyMsg k)
    then have "m' = fst (if m_screen m = ScreenMenu then updateMenu k m else updateTable L k m)"
      using assms(1,2) by (cases "m_screen m") (simp_all add: Update_def fst_def)
    then show ?thesis by simp
  qed (use assms in \<open>auto simp: Update_def quiet_msg_def login_msg_def\<close>)
qed

lemma session_step_err:
  assumes "session_step L H base s s'"
  shows "\<exists>new. ss_log s' = ss_log s @ new \<and>
    (m_screen (ss_model s) \<noteq> ScreenLogin \<and> list_all quiet_msg new \<longrightarrow>
       m_screen (ss_model s') \<noteq> ScreenLogin \<and> m_err (ss_model s') = m_err (ss_model s))"
  using assms
proof cases
  case (key k m c)
  then show ?thesis using Update_err [OF key(2)] by (auto simp: quiet_msg_def login_msg_def)
next
  case (resize a b m c)
  then show ?thesis using Update_err [OF resize(2)] by (auto simp: quiet_msg_def login_msg_def)
next
  case (answer cs d ds msg x m c)
  then show ?thesis using Update_err [OF answer(4)] by auto
qed auto

text \<open>Errors outlive their cause. Past the login screen the error line shows the same text after
  any further keys, resizes and answers, as long as no new error and no new login arrives:
  listings that succeed do not clear it.\<close>

theorem error_stays:
  assumes "session_steps L H base s s'" "m_screen (ss_model s) \<noteq> ScreenLogin"
  shows "\<exists>new. ss_log s' = ss_log s @ new \<and>
    (list_all quiet_msg new \<longrightarrow> m_err (ss_model s') = m_err (ss_model s) \<and> m_screen (ss_model s') \<noteq> ScreenLogin)"
  using assms(1)
proof induction
  case no_step
  then show ?case using assms(2) by simp
next
  case (one_more t u)
  then obtain new new' where "ss_log t = ss_log s @ new" "ss_log u = ss_log t @ new'"
    "list_all quiet_msg new \<longrightarrow> m_err (ss_model t) = m_err (ss_model s) \<and> m_screen (ss_model t) \<noteq> ScreenLogin"
    "m_screen (ss_model t) \<noteq> ScreenLogin \<and> list_all quiet_msg new' \<longrightarrow>
       m_screen (ss_model u) \<noteq> ScreenLogin \<and> m_err (ss_model u) = m_err (ss_model t)"
    using session_step_err [OF one_more(2)] by blast
  then show ?case by (intro exI [of _ "new @ new'"]) simp
qed

section \<open>A concrete session\<close>

text \<open>Fields that hold their text, tables that hold their rows, a server that knows one account.\<close>

definition demo_tui :: "(string, row list, unit) tui" where
  "demo_tui = \<lparr>ti_New = [], ti_Placeholder = (\<lambda>_ w. w), ti_Width = (\<lambda>_ w. w), ti_EchoPassword = (\<lambda>w. w),
     ti_Focus = (\<lambda>w. w), ti_Blur = (\<lambda>w. w), ti_Value = (\<lambda>w. w),
     ti_Update = (\<lambda>k w. (w @ km_Runes k, None)), ti_View = (\<lambda>w. w), tb_Zero = [],
     tb_DefaultStyles = \<lparr>ts_Header = [], ts_Cell = [], ts_Selected = []\<rparr>,
     tb_New = (\<lambda>_ rows _ _. rows), tb_SetStyles = (\<lambda>_ t. t), tb_Update = (\<lambda>_ t. (t, None)),
     tb_View = (\<lambda>rows. concat (map concat rows)), tu_Render = (\<lambda>_ s. s)\<rparr>"

definition demo_http :: "unit http_lib" where
  "demo_http = \<lparr>hl_URL_ok = (\<lambda>_. True), hl_Do = (\<lambda>r x.
     (if cr_Method r = ''POST''
      then Inr \<lparr>cp_Status = 200, cp_Body = Inr (Inr (JObj [(''role'', JStr ''admin''), (''token'', JStr ''t0''),
             (''username'', JStr ''ada'')]))\<rparr>
      else Inl ''connection refused'', x))\<rparr>"

definition press :: "('i, 't, 'w) tui \<Rightarrow> key_type \<Rightarrow> ('i, 't, 'w, 'x) session \<Rightarrow> ('i, 't, 'w, 'x) session" where
  "press L k s =
     (case Update L (KeyMsg \<lparr>km_Type = k, km_Runes = []\<rparr>) (ss_model s) of
        None \<Rightarrow> s
      | Some (m, c) \<Rightarrow> s\<lparr>ss_model := m, ss_pending := ss_pending s @ [c]\<rparr>)"

lemma press_steps:
  assumes "session_steps L H base s0 s" shows "session_steps L H base s0 (press L k s)"
proof (cases "Update L (KeyMsg \<lparr>km_Type = k, km_Runes = []\<rparr>) (ss_model s)")
  case (Some mc)
  then show ?thesis
    using assms by (cases mc) (auto simp: press_def intro: one_more session_step.key)
qed (simp add: press_def assms)

definition session0 :: "(string, row list, unit, unit) session" where
  "session0 = start_session demo_tui ()"

definition session1 :: "(string, row list, unit, unit) session" where
  "session1 = \<lparr>ss_model = (initialModel demo_tui)\<lparr>m_screen := ScreenMenu, m_token := ''t0'', m_user := ''ada'',
       m_role := ''admin'', m_focused := 1\<rparr>,
     ss_pending = [Blink, NoCmd, NoCmd], ss_world = (), ss_log = [LoginDone ''t0'' ''ada'' ''admin'']\<rparr>"

definition session2 :: "(string, row list, unit, unit) session" where
  "session2 = (press demo_tui KeyEnter session1)\<lparr>ss_model := (ss_model session1)\<lparr>m_err := ''connection refused''\<rparr>,
     ss_pending := [Blink, NoCmd, NoCmd, NoCmd], ss_log := [LoginDone ''t0'' ''ada'' ''admin'', ErrMsg ''connection refused'']\<rparr>"

lemmas session_eval = demo_tui_def demo_http_def press_def session0_def session1_def session2_def start_session_def
  initialModel_def Init_def Update_def updateLogin_def updateMenu_def at_def Let_def exec_def doLogin_def
  string_map_def body_json_def fetchNodes_def apiGet_def

lemma demo_login: "session_steps demo_tui demo_http [] session0 session1"
proof -
  let ?s = "press demo_tui KeyEnter (press demo_tui KeyEnter session0)"
  have p: "ss_pending ?s = [Blink, NoCmd] @ DoLogin [] [] # []" by (simp add: session_eval)
  have e: "exec demo_http [] (DoLogin [] [] :: unit cmd) (ss_world ?s) = Some (LoginDone ''t0'' ''ada'' ''admin'', ())"
    by (simp add: session_eval)
  obtain m c where u: "Update demo_tui (LoginDone ''t0'' ''ada'' ''admin'') (ss_model ?s) = Some (m, c)"
    and s: "?s\<lparr>ss_model := m, ss_pending := [Blink, NoCmd] @ [] @ [c], ss_world := (),
       ss_log := ss_log ?s @ [LoginDone ''t0'' ''ada'' ''admin'']\<rparr> = session1"
    by (simp add: session_eval)
  have "session_steps demo_tui demo_http [] session0 ?s"
    by (intro press_steps no_step)
  then show ?thesis
    using session_step.answer [OF p e u] unfolding s by (rule one_more)
qed

theorem interface_total_witness:
  "Update demo_tui (KeyMsg \<lparr>km_Type = KeyEnter, km_Runes = []\<rparr>) (ss_model session1) \<noteq> None
     \<and> View demo_tui (ss_model session1) \<noteq> None"
  using interface_total [OF demo_login [unfolded session0_def]] by blast

theorem requests_carry_session_witness:
  "let s = press demo_tui KeyEnter session1
   in FetchNodes ''t0'' \<in> set (ss_pending s) \<and> (\<exists>u r. LoginDone ''t0'' u r \<in> set (ss_log s))"
proof -
  let ?s = "press demo_tui KeyEnter session1"
  have s: "session_steps demo_tui demo_http [] (start_session demo_tui ()) ?s"
    using press_steps [OF demo_login] by (simp add: session0_def)
  have "FetchNodes ''t0'' \<in> set (ss_pending ?s)" by (simp add: session_eval)
  with requests_carry_session [OF s, of "FetchNodes ''t0''" "''t0''"] show ?thesis
    by (simp add: fetch_token_def)
qed

theorem error_stays_witness:
  "let s = press demo_tui KeyDown (press demo_tui KeyDown session2)
   in m_cursor (ss_model s) = 2 \<and> m_err (ss_model s) = ''connection refused''"
proof -
  let ?s = "press demo_tui KeyDown (press demo_tui KeyDown session2)"
  have "session_steps demo_tui demo_http [] session2 ?s"
    by (intro press_steps no_step)
  moreover have "m_screen (ss_model session2) \<noteq> ScreenLogin" by (simp add: session_eval)
  ultimately obtain new where "ss_log ?s = ss_log session2 @ new"
    "list_all quiet_msg new \<longrightarrow> m_err (ss_model ?s) = m_err (ss_model session2)"
    using error_stays by blast
  moreover have "ss_log ?s = ss_log session2" "m_cursor (ss_model ?s) = 2"
    "m_err (ss_model session2) = ''connection refused''"
    by (simp_all add: session_eval)
  ultimately show ?thesis by simp
qed

end
