(* ===== verification/Console.thy ===== *)
theory Console
  imports CliSession Service
begin

text \<open>
  The client against the server: the HTTP client of \<open>CliApi\<close> is the dispatcher of \<open>Server\<close>. A request
  arrives with the headers the client set, the client sees the status and what the JSON decoder
  finds in the body; \<open>parse\<close> stands for the decoder on answers the server writes as text.
\<close>

section \<open>The wire\<close>

definition server_request :: "string \<Rightarrow> client_request \<Rightarrow> request" where
  "server_request remote r =
     \<lparr>rq_method = cr_Method r, rq_headers = fold (\<lambda>(k, v). header_set k v) (cr_Headers r) (\<lambda>_. []),
      rq_query = (\<lambda>_. []), rq_body = (case cr_Body r of None \<Rightarrow> Inl ''EOF'' | Some j \<Rightarrow> Inr j),
      rq_remote = remote\<rparr>"

definition client_answer :: "(string \<Rightarrow> goerror + json) \<Rightarrow> response \<Rightarrow> client_response" where
  "client_answer parse w =
     \<lparr>cp_Status = the (rs_status (finish w)),
      cp_Body = Inr (case rs_body w of [] \<Rightarrow> Inl ''EOF'' | BJson j # _ \<Rightarrow> Inr j | BText t # _ \<Rightarrow> parse t)\<rparr>"

definition connect ::
    "(string \<Rightarrow> ('x, 'c) server_handler) \<Rightarrow> string \<Rightarrow> string \<Rightarrow> (string \<Rightarrow> goerror + json)
     \<Rightarrow> ('x, 'c) server http_lib" where
  "connect route base remote parse =
     \<lparr>hl_URL_ok = (\<lambda>_. True),
      hl_Do = (\<lambda>r s. let (s', w) = route (drop (length base) (cr_URL r)) (server_request remote r) s fresh_response
                     in (Inr (client_answer parse w), s'))\<rparr>"

definition listing_request :: "string \<Rightarrow> string \<Rightarrow> string \<Rightarrow> string \<Rightarrow> request" where
  "listing_request base remote token path = server_request remote
     \<lparr>cr_Method = ''GET'', cr_URL = base @ path, cr_Headers = [(''Authorization'', ''Bearer '' @ token)],
      cr_Body = None\<rparr>"

lemma apiGet_connect:
  "apiGet (connect route base remote parse) base token path s =
     (let (s', w) = route path (listing_request base remote token path) s fresh_response
      in Some (Inr (case rs_body w of [] \<Rightarrow> Inl ''EOF'' | BJson j # _ \<Rightarrow> Inr j | BText t # _ \<Rightarrow> parse t), s'))"
  by (simp add: apiGet_def connect_def client_answer_def listing_request_def case_prod_unfold Let_def)

section \<open>Rows survive the wire\<close>

text \<open>A decoder that undoes an encoder; \<open>view\<close> is what the struct of the client keeps.\<close>

locale wire =
  fixes dec :: "'s setter" and zero :: 's and enc :: "'a \<Rightarrow> json" and view :: "'a \<Rightarrow> 's" and ok :: "'a \<Rightarrow> bool"
  assumes decode: "ok a \<Longrightarrow> dec (enc a) zero = (view a, True)"
begin

lemma elements: "list_all ok as \<Longrightarrow> set_elements dec zero (map enc as) [] = (map view as, True)"
  by (induction as) (simp_all add: decode)

lemma listing:
  assumes "list_all ok as" "\<not> names_field ''count'' name"
  shows "unmarshal_slice name dec zero (Inr (JObj [(''count'', n), (name, JArr (map enc as))])) = map view as"
proof -
  have "names_field name name" by (simp add: names_field_def)
  then show ?thesis
    using assms by (simp add: unmarshal_slice_def set_struct_def set_slice_def elements)
qed

end

text \<open>The times that have a form in JSON: a zone of whole minutes and a year of four digits.\<close>

definition time_ok :: "int \<Rightarrow> time \<Rightarrow> bool" where
  "time_ok off t \<longleftrightarrow> \<bar>off\<bar> < 86400 \<and> off mod 60 = 0 \<and> 0 \<le> t div second + 62135596800 + off \<and>
     c_year (civil_of off t) < 10000"

lemma set_time_json [simp]: "time_ok off t \<Longrightarrow> set_time (json_time off t) v = ((t, off), True)"
  by (simp add: set_time_def json_time_def time_ok_def parse_fmt_rfc3339)

lemma set_values [simp]:
  "set_string (JStr s) v = (s, True)" "set_bool (JBool b) v' = (b, True)"
  by (simp_all add: set_string_def set_bool_def)

lemmas field_names = names_field_def lower_def

definition node_view_of :: "int \<Rightarrow> node \<Rightarrow> node_view" where
  "node_view_of off n = \<lparr>nv_ID = n_ID n, nv_Hostname = n_Hostname n, nv_Address = n_Address n,
     nv_Status = n_Status n, nv_LastSeen = (n_LastSeen n, off)\<rparr>"

interpretation nodes: wire set_node no_node "node_json off" "node_view_of off" "\<lambda>n. time_ok off (n_LastSeen n)"
  for off
  by unfold_locales
    (simp add: set_node_def set_struct_def node_json_def no_node_def node_view_of_def field_names)

definition snapshot_view_of :: "int \<Rightarrow> snapshot \<Rightarrow> snapshot_view" where
  "snapshot_view_of off s = \<lparr>sn_ID = s_ID s, sn_SnapshotPath = s_SnapshotPath s, sn_IsReadOnly = s_IsReadOnly s,
     sn_Status = s_Status s, sn_CreatedAt = (s_CreatedAt s, off)\<rparr>"

lemma set_members_append:
  "set_members f (a @ b) s = (let (s', ok) = set_members f a s in if ok then set_members f b s' else (s', False))"
  by (induction a arbitrary: s) (auto simp: case_prod_unfold Let_def)

text \<open>Members the client does not know are skipped.\<close>

lemma set_members_skip:
  "\<forall>(k, j) \<in> set ms. \<forall>v. f k j v = (v, True) \<Longrightarrow> set_members f ms s = (s, True)"
  by (induction ms) auto

lemmas omit_defs = omit_str_def omit_bool_def omit_time_def

interpretation snapshots: wire set_snapshot no_snapshot "snapshot_json off" "snapshot_view_of off"
  "\<lambda>s. time_ok off (s_CreatedAt s)" for off
  by unfold_locales
    (simp add: set_snapshot_def set_struct_def snapshot_json_def no_snapshot_def snapshot_view_of_def
      field_names set_members_append omit_defs split: option.split)

definition event_view_of :: "int \<Rightarrow> event \<Rightarrow> event_view" where
  "event_view_of off e = \<lparr>ev_Type = e_Type e, ev_Message = e_Message e, ev_Severity = e_Severity e,
     ev_CreatedAt = (e_CreatedAt e, off)\<rparr>"

interpretation events: wire set_event no_event "event_json off" "event_view_of off"
  "\<lambda>e. time_ok off (e_CreatedAt e)" for off
  by unfold_locales
    (simp add: set_event_def set_struct_def event_json_def no_event_def event_view_of_def field_names
      set_members_append omit_defs)

definition policy_view_of :: "policy_row \<Rightarrow> policy_view" where
  "policy_view_of p = \<lparr>pv_Name = p_Name p, pv_Schedule = p_Schedule p, pv_SubvolumePath = p_SubvolumePath p,
     pv_RetentionDaily = p_RetentionDaily p, pv_RetentionWeekly = p_RetentionWeekly p, pv_Enabled = p_Enabled p\<rparr>"

definition int_ok :: "int \<Rightarrow> bool" where
  "int_ok i \<longleftrightarrow> min_duration \<le> i \<and> i \<le> max_duration"

lemma set_int_ok [simp]: "int_ok i \<Longrightarrow> set_int (JInt i) v = (i, True)"
  by (simp add: set_int_def int_ok_def)

interpretation policies: wire set_policy no_policy "policy_json off" policy_view_of
  "\<lambda>p. int_ok (p_RetentionDaily p) \<and> int_ok (p_RetentionWeekly p)" for off
  by unfold_locales
    (simp add: set_policy_def set_struct_def policy_json_def no_policy_def policy_view_of_def field_names)

section \<open>What the client shows\<close>

lemma api_listing:
  "map_of (api_handlers E clk order) ''/api/nodes'' = Some (handleNodes E)"
  "map_of (api_handlers E clk order) ''/api/snapshots'' = Some (handleSnapshots E (later 3 clk))"
  "map_of (api_handlers E clk order) ''/api/events'' = Some (handleEvents E)"
  "map_of (api_handlers E clk order) ''/api/policies'' = Some (handlePolicies E)"
  by (simp_all add: api_handlers_def)

lemma listing_request_simps [simp]:
  "rq_method (listing_request base remote token path) = ''GET''"
  "query_get (listing_request base remote token path) k = []"
  "query_get (identify_as c (listing_request base remote token path)) k = []"
  by (simp_all add: listing_request_def server_request_def query_get_def)

lemma count_request_db [simp]: "sv_db (count_request clk r s) = sv_db s"
  by (simp add: count_request_def)

text \<open>A protected route, called by a client with a valid token.\<close>

lemma dispatch_session:
  assumes "map_of (api_handlers E clk order) path = Some h" "session_of E clk r s = Inr c" "\<not> limited clk r s"
  shows "dispatch E files ws version clk order path r s w = h (identify_as c r) (count_request clk r s) w"
  using assms by (simp add: dispatch_api protected_outcome)

definition node_table :: "int \<Rightarrow> node list \<Rightarrow> row list" where
  "node_table off nodes =
     or_empty [em_dash, ''Sin nodos'', [], [], []]
       (map (\<lambda>n. [short_id (n_ID n), n_Hostname n, n_Address n, n_Status n,
                   fmt_short (civil_of off (n_LastSeen n))]) nodes)"

lemma nodes_shown:
  assumes "ListNodes (en_gorm E) (sv_db s) = Inr nodes" "list_all (\<lambda>n. time_ok (en_off E) (n_LastSeen n)) nodes"
    and "r = listing_request base remote tok ''/api/nodes''" "session_of E clk r s = Inr c" "\<not> limited clk r s"
  shows "fetchNodes (connect (dispatch E files ws version clk order) base remote parse) base tok s =
    Some (NodesDone (node_table (en_off E) nodes), count_request clk r s)"
proof -
  have "\<not> names_field ''count'' ''nodes''" by (simp add: field_names)
  note rows = nodes.listing [OF assms(2) this, of "JInt (int (length nodes))"]
  have "dispatch E files ws version clk order ''/api/nodes'' r s fresh_response =
      (count_request clk r s, jsonResp (JObj [(''count'', JInt (int (length nodes))),
         (''nodes'', JArr (map (node_json (en_off E)) nodes))]) fresh_response)"
    using assms(1) by (simp add: dispatch_session [OF api_listing(1) assms(4,5)] handleNodes_def)
  then show ?thesis
    using rows
    by (simp add: fetchNodes_def apiGet_connect assms(3) [symmetric] node_rows_def node_table_def node_row_def
        node_view_of_def show_time_def o_def)
qed

text \<open>C37: The client shows the nodes the server has. With a valid token and within the rate limit, the
  table of the client has exactly one row for each node the database lists, in that order: the
  shortened identifier, host, address, status, and the time last seen on the clock of the
  server; without nodes it has the row that says so. The listing changes nothing but the count
  of the rate limiter.\<close>

theorem console_shows_nodes:
  assumes "ListNodes (en_gorm E) (sv_db s) = Inr nodes" "list_all (\<lambda>n. time_ok (en_off E) (n_LastSeen n)) nodes"
    and "r = listing_request base remote tok ''/api/nodes''" "session_of E clk r s = Inr c" "\<not> limited clk r s"
  shows "fetchNodes (connect (dispatch E files ws version clk order) base remote parse) base tok s =
    Some (NodesDone (if nodes = [] then [[em_dash, ''Sin nodos'', [], [], []]]
      else map (\<lambda>n. [short_id (n_ID n), n_Hostname n, n_Address n, n_Status n,
                      fmt_short (civil_of (en_off E) (n_LastSeen n))]) nodes),
      count_request clk r s)"
  using nodes_shown [OF assms] by (simp add: node_table_def or_empty_def)

text \<open>The client shows the snapshots the server has, one row each in the order of the database,
  under the same conditions.\<close>

theorem console_shows_snapshots:
  assumes "ListSnapshotRows (en_gorm E) [] (sv_db s) = Inr snaps"
    and "list_all (\<lambda>x. time_ok (en_off E) (s_CreatedAt x)) snaps"
    and "r = listing_request base remote tok ''/api/snapshots''" "session_of E clk r s = Inr c" "\<not> limited clk r s"
  shows "fetchSnapshots (connect (dispatch E files ws version clk order) base remote parse) base tok s =
    Some (SnapsDone (if snaps = [] then [[em_dash, ''Sin snapshots'', [], [], []]]
      else map (\<lambda>x. [short_id (s_ID x), s_SnapshotPath x, if s_IsReadOnly x then ''RO'' else ''RW'', s_Status x,
                      fmt_short (civil_of (en_off E) (s_CreatedAt x))]) snaps),
      count_request clk r s)"
proof -
  have get: "rq_method r = ''GET''" "query_get (identify_as c r) k = []" for k by (simp_all add: assms(3))
  have "\<not> names_field ''count'' ''snapshots''" by (simp add: field_names)
  note rows = snapshots.listing [OF assms(2) this, of "JInt (int (length snaps))"]
  have "dispatch E files ws version clk order ''/api/snapshots'' r s fresh_response =
      (count_request clk r s, jsonResp (JObj [(''count'', JInt (int (length snaps))),
         (''snapshots'', JArr (map (snapshot_json (en_off E)) snaps))]) fresh_response)"
    using assms(1) get by (simp add: dispatch_session [OF api_listing(2) assms(4,5)] handleSnapshots_def)
  then show ?thesis
    using rows
    by (simp add: fetchSnapshots_def apiGet_connect assms(3) [symmetric] snapshot_rows_def or_empty_def
        snapshot_row_def snapshot_view_of_def show_time_def o_def)
qed

text \<open>The client shows the last events, newest first as the database lists them, each message cut.\<close>

theorem console_shows_events:
  assumes "ListEvents (en_gorm E) 50 (sv_db s) = Inr es"
    and "list_all (\<lambda>e. time_ok (en_off E) (e_CreatedAt e)) es"
    and "r = listing_request base remote tok ''/api/events''" "session_of E clk r s = Inr c" "\<not> limited clk r s"
  shows "fetchEvents (connect (dispatch E files ws version clk order) base remote parse) base tok s =
    Some (EventsDone (if es = [] then [[em_dash, ''Sin eventos'', [], []]]
      else map (\<lambda>e. [e_Type e, short_msg (e_Message e), e_Severity e,
                      fmt_short (civil_of (en_off E) (e_CreatedAt e))]) es),
      count_request clk r s)"
proof -
  have "\<not> names_field ''count'' ''events''" by (simp add: field_names)
  note rows = events.listing [OF assms(2) this, of "JInt (int (length es))"]
  have "dispatch E files ws version clk order ''/api/events'' r s fresh_response =
      (count_request clk r s, jsonResp (JObj [(''count'', JInt (int (length es))),
         (''events'', JArr (map (event_json (en_off E)) es))]) fresh_response)"
    using assms(1) by (simp add: dispatch_session [OF api_listing(3) assms(4,5)] handleEvents_def)
  then show ?thesis
    using rows
    by (simp add: fetchEvents_def apiGet_connect assms(3) [symmetric] event_rows_def or_empty_def
        event_row_def event_view_of_def show_time_def o_def)
qed

text \<open>The client shows the policies, with two of the four retention counts.\<close>

theorem console_shows_policies:
  assumes "ListPolicyRows (en_gorm E) [] (sv_db s) = Inr ps"
    and "list_all (\<lambda>p. int_ok (p_RetentionDaily p) \<and> int_ok (p_RetentionWeekly p)) ps"
    and "r = listing_request base remote tok ''/api/policies''" "session_of E clk r s = Inr c" "\<not> limited clk r s"
  shows "fetchPolicies (connect (dispatch E files ws version clk order) base remote parse) base tok s =
    Some (PoliciesDone (if ps = [] then [[em_dash, ''Sin pol'' @ i_acute @ ''ticas'', [], [], []]]
      else map (\<lambda>p. [p_Name p, p_Schedule p, p_SubvolumePath p,
                      dec_int (p_RetentionDaily p) @ ''d/'' @ dec_int (p_RetentionWeekly p) @ ''w'',
                      if p_Enabled p then ''s'' @ i_acute else ''no'']) ps),
      count_request clk r s)"
proof -
  have get: "rq_method r = ''GET''" "query_get (identify_as c r) k = []" for k by (simp_all add: assms(3))
  have "\<not> names_field ''count'' ''policies''" by (simp add: field_names)
  note rows = policies.listing [OF assms(2) this, of "JInt (int (length ps))"]
  have "dispatch E files ws version clk order ''/api/policies'' r s fresh_response =
      (count_request clk r s, jsonResp (JObj [(''count'', JInt (int (length ps))),
         (''policies'', JArr (map (policy_json (en_off E)) ps))]) fresh_response)"
    using assms(1) get by (simp add: dispatch_session [OF api_listing(4) assms(4,5)] handlePolicies_def)
  then show ?thesis
    using rows
    by (simp add: fetchPolicies_def apiGet_connect assms(3) [symmetric] policy_rows_def or_empty_def
        pol_row_def policy_view_of_def o_def)
qed

section \<open>From the login to the first screen\<close>

definition login_body :: "string \<Rightarrow> string \<Rightarrow> json" where
  "login_body user pass = JObj [(''password'', JStr pass), (''username'', JStr user)]"

text \<open>The request of \<open>doLogin\<close> as the server reads it.\<close>

lemma login_body_fields:
  "body_members (Inr (login_body user pass)) = Inr [(''password'', JStr pass), (''username'', JStr user)]"
  "str_field ''username'' [(''password'', JStr pass), (''username'', JStr user)] = Inr user"
  "str_field ''password'' [(''password'', JStr pass), (''username'', JStr user)] = Inr pass"
  by (simp_all add: login_body_def str_field_def field_names)

text \<open>What the client makes of the answer.\<close>

definition login_msg_of :: "(string \<Rightarrow> goerror + json) \<Rightarrow> response \<Rightarrow> msg" where
  "login_msg_of parse w =
     (let data = string_map (body_json (client_answer parse w))
      in if cp_Status (client_answer parse w) \<noteq> 200 then ErrMsg (data ''error'')
         else LoginDone (data ''token'') (data ''username'') (data ''role''))"

lemma doLogin_connect:
  "doLogin (connect route base remote parse) base user pass s =
     (let (s', w) = route ''/api/auth/login''
            (server_request remote \<lparr>cr_Method = ''POST'', cr_URL = base @ ''/api/auth/login'',
               cr_Headers = [(''Content-Type'', ''application/json'')], cr_Body = Some (login_body user pass)\<rparr>)
            s fresh_response
      in (login_msg_of parse w, s'))"
  by (simp add: doLogin_def connect_def login_body_def login_msg_of_def case_prod_unfold Let_def)

definition login_request_of :: "string \<Rightarrow> string \<Rightarrow> string \<Rightarrow> string \<Rightarrow> request" where
  "login_request_of base remote user pass = server_request remote
     \<lparr>cr_Method = ''POST'', cr_URL = base @ ''/api/auth/login'',
      cr_Headers = [(''Content-Type'', ''application/json'')], cr_Body = Some (login_body user pass)\<rparr>"

definition count_login :: "(nat \<Rightarrow> time) \<Rightarrow> request \<Rightarrow> ('x, 'c) server \<Rightarrow> ('x, 'c) server" where
  "count_login clk r s = s\<lparr>sv_login := snd (Allow (clk 0) (clk 1) (client_key r) (sv_login s))\<rparr>"

lemma login_msgs:
  "login_msg_of parse (httpErr e 401 fresh_response) = ErrMsg e"
  "login_msg_of parse (httpErr e 500 fresh_response) = ErrMsg e"
  "login_msg_of parse (jsonResp (JObj [(''role'', JStr role), (''token'', JStr tok), (''username'', JStr name)])
     fresh_response) = LoginDone tok name role"
  by (simp_all add: login_msg_of_def client_answer_def body_json_def string_map_def httpErr_def jsonResp_def
      error_json_def finish_def write_chunk_def write_header_def fresh_response_def resp_set_def Let_def)

text \<open>A login through the client, on every branch of the server.\<close>

lemma doLogin_server:
  assumes "r = login_request_of base remote user pass"
  shows "doLogin (connect (dispatch E files ws version clk order) base remote parse) base user pass s =
    (if \<not> fst (Allow (clk 0) (clk 1) (client_key r) (sv_login s))
     then login_msg_of parse (too_many fresh_response)
     else case Authenticate (en_bcrypt E) user pass (sv_users s) of
         Inl _ \<Rightarrow> ErrMsg ''credenciales invalidas''
       | Inr u \<Rightarrow>
           (case GenerateToken (en_jwt E) (clk 2) (clk 3) (u_ID u) (u_Username u) (u_Role u) (sv_auth s) of
              Inl e \<Rightarrow> ErrMsg e
            | Inr tok \<Rightarrow> LoginDone tok (u_Username u) (u_Role u)),
     count_login clk r s)"
proof -
  have r: "rq_method r = ''POST''" "rq_body r = Inr (login_body user pass)"
    by (simp_all add: assms login_request_of_def server_request_def)
  show ?thesis
    by (simp add: doLogin_connect login_request_of_def [symmetric] assms [symmetric] dispatch_def login_limit_def
        Middleware_def handleLogin_def r login_body_fields login_msgs count_login_def later_def case_prod_unfold
        Let_def numeral_3_eq_3 split: sum.split)
qed

definition enter :: key_msg where
  "enter = \<lparr>km_Type = KeyEnter, km_Runes = []\<rparr>"

definition node_columns :: "(string \<times> nat) list" where
  "node_columns = [(''ID'', 10), (''Hostname'', 20), (''Direcci'' @ o_acute @ ''n'', 22), (''Estado'', 10),
     (U_acute @ ''ltimo visto'', 20)]"

lemma listing_request_token:
  "get_header (listing_request base remote tok path) ''Authorization'' = ''Bearer '' @ tok"
  by (simp add: listing_request_def server_request_def)

lemma count_login_simps [simp]:
  "sv_db (count_login clk r s) = sv_db s" "sv_auth (count_login clk r s) = sv_auth s"
  "limited clk' r' (count_login clk r s) = limited clk' r' s"
  by (simp_all add: count_login_def limited_def)

text \<open>C6: From the login to the nodes. With the credentials of a stored user whose fields are ASCII,
  while the login is not limited and the token can be signed, the client receives the token and
  goes to its menu, and Enter there asks for the nodes with that token. If the token has not expired
  when this request is checked, the rate limiter does not refuse it, the database lists the nodes
  and the times of their last contact lie on the calendar, then the screen ends on a table with
  one row for every node of the database. The whole exchange leaves the database as it was.\<close>

theorem login_then_nodes:
  assumes "jwt_ok (en_jwt E)" "Authenticate (en_bcrypt E) user pass (sv_users s) = Inr u"
    and "ascii (u_ID u)" "ascii (u_Username u)" "ascii (u_Role u)"
    and "fst (Allow (clk 0) (clk 1) (client_key (login_request_of base remote user pass)) (sv_login s))"
    and "GenerateToken (en_jwt E) (clk 2) (clk 3) (u_ID u) (u_Username u) (u_Role u) (sv_auth s) = Inr tok"
    and "clk' 2 < jw_NumericDate (en_jwt E) (clk 2 + wrap64 (am_expiryHours (sv_auth s) * hour))"
    and "\<not> limited clk' (listing_request base remote tok ''/api/nodes'') s"
    and "ListNodes (en_gorm E) (sv_db s) = Inr nodes" "list_all (\<lambda>n. time_ok (en_off E) (n_LastSeen n)) nodes"
  shows "\<exists>m1 m2 m3 s1 s2.
    exec (connect (dispatch E files ws version clk order) base remote parse) base (DoLogin user pass :: 'w cmd) s =
      Some (LoginDone tok (u_Username u) (u_Role u), s1) \<and>
    Update L (LoginDone tok (u_Username u) (u_Role u)) m = Some (m1, NoCmd) \<and> m_screen m1 = ScreenMenu \<and>
    Update L (KeyMsg enter) m1 = Some (m2, FetchNodes tok) \<and>
    exec (connect (dispatch E files ws version clk' order) base remote parse) base (FetchNodes tok :: 'w cmd) s1 =
      Some (NodesDone (node_table (en_off E) nodes), s2) \<and>
    Update L (NodesDone (node_table (en_off E) nodes)) m2 = Some (m3, NoCmd) \<and>
    m_screen m3 = ScreenNodes \<and> m_nodesTable m3 = new_table L node_columns (node_table (en_off E) nodes) \<and>
    sv_db s2 = sv_db s"
proof -
  let ?r = "listing_request base remote tok ''/api/nodes''"
  let ?s1 = "count_login clk (login_request_of base remote user pass) s"
  have "session_of E clk' ?r ?s1 = Inr (token_claims (en_jwt E) (clk 2) (clk 3) (u_ID u) (u_Username u) (u_Role u) (sv_auth s))"
    using token_session [OF assms(1) _ assms(3,4,5) listing_request_token, of _ _ ?s1] assms(7,8) by simp
  then have "fetchNodes (connect (dispatch E files ws version clk' order) base remote parse) base tok ?s1 =
      Some (NodesDone (node_table (en_off E) nodes), count_request clk' ?r ?s1)"
    using nodes_shown [of E ?s1, OF _ assms(11) refl] assms(9,10) by simp
  then show ?thesis
    using doLogin_server [OF refl, of E files ws version clk order base remote parse user pass s] assms(2,6,7)
    by (simp add: exec_def Update_def updateMenu_def enter_def node_columns_def)
qed

text \<open>C40: An expired session looks like an empty installation. When the server turns the token away
  and answers with its error document, the client shows the row that says there are no nodes, on
  the screen of the nodes, and no error.\<close>

theorem expired_session_looks_empty:
  assumes "r = listing_request base remote tok ''/api/nodes''" "session_of E clk r s = Inl (401, text)"
    and "\<not> limited clk r s" "parse (text @ [newline]) = Inr (JObj [(''error'', JStr why)])"
  shows "\<exists>rows. rows = [[em_dash, ''Sin nodos'', [], [], []]] \<and>
    fetchNodes (connect (dispatch E files ws version clk order) base remote parse) base tok s =
      Some (NodesDone rows, count_request clk r s) \<and>
    (\<exists>m'. Update L (NodesDone rows) m = Some (m', NoCmd) \<and> m_screen m' = ScreenNodes \<and> m_err m' = m_err m)"
proof -
  have "dispatch E files ws version clk order ''/api/nodes'' r s fresh_response =
      (count_request clk r s, http_Error text 401 fresh_response)"
    using assms(2,3) by (simp add: dispatch_api [OF api_listing(1)] protected_outcome)
  moreover have "rs_body (http_Error text 401 fresh_response) = [BText (text @ [newline])]"
    by (simp add: http_Error_def newline_def)
  moreover have "\<not> names_field ''error'' ''nodes''" by (simp add: field_names)
  ultimately have "fetchNodes (connect (dispatch E files ws version clk order) base remote parse) base tok s =
      Some (NodesDone [[em_dash, ''Sin nodos'', [], [], []]], count_request clk r s)"
    using assms(4)
    by (simp add: fetchNodes_def apiGet_connect assms(1) [symmetric] node_rows_def unmarshal_slice_def
        set_struct_def or_empty_def)
  then show ?thesis by (simp add: Update_def)
qed

section \<open>Examples\<close>

definition fleet_db :: db where
  "fleet_db = empty_db\<lparr>db_nodes := [demo_node\<lparr>n_ID := ''0123456789'', n_LastSeen := 5 * minute\<rparr>]\<rparr>"

definition fleet_server :: "(unit, nat \<times> (nat \<rightharpoonup> policy)) server" where
  "fleet_server = S0\<lparr>sv_db := fleet_db\<rparr>"

lemma fleet_session:
  "session_of E0 (\<lambda>_. 0) (listing_request [] remote ''h.c.s'' path) fleet_server
     = Inr (admin_claims\<lparr>cl_UserID := ''uuid-0''\<rparr>)"
proof -
  have "session_of E0 (\<lambda>_. 0) (listing_request [] remote ''h.c.s'' path) S0
      = Inr (admin_claims\<lparr>cl_UserID := ''uuid-0''\<rparr>)"
    by (rule demo_session [where e = "24 * hour"])
      (simp_all add: listing_request_token admin_claims_def time_units)
  then show ?thesis by (simp add: session_of_def fleet_server_def)
qed

lemma fleet_not_limited: "\<not> limited clk r fleet_server"
  using demo_not_limited [of clk r] by (simp add: limited_def fleet_server_def)

lemma epoch_civil: "civil_of 0 (5 * minute) =
    \<lparr>c_year = 1970, c_month = 1, c_day = 1, c_hour = 0, c_min = 5, c_sec = 0\<rparr>"
  by (simp add: civil_of_def local_secs_def civil_of_secs_def civil_of_days_def time_units Let_def year_of.simps
      year_len_def leap_def month_lens_def)

abbreviation "fleet_node \<equiv> demo_node\<lparr>n_ID := ''0123456789'', n_LastSeen := 5 * minute\<rparr>"

lemma fleet_nodes: "ListNodes (en_gorm E0) (sv_db fleet_server) = Inr [fleet_node]"
  by (simp add: ListNodes_def fleet_server_def fleet_db_def ref_gorm_def ref_table_def demo_node_def empty_db_def)

lemma fleet_times: "list_all (\<lambda>n. time_ok (en_off E0) (n_LastSeen n)) [fleet_node]"
  by (simp add: time_ok_def epoch_civil) (simp add: time_units)

lemma fleet_shown: "fmt_short (civil_of 0 (5 * minute)) = ''01/01 00:05:00''"
  by (simp add: epoch_civil fmt_short_def fmt_clock_def pad_def fixed_digits_numeral digit_char_def char_of_eq_iff)

theorem console_shows_nodes_witness:
  "fst (the (fetchNodes (connect (dispatch E0 nowhere nowhere ''1'' (\<lambda>_. 0) []) [] ''10.0.0.9:1'' (\<lambda>_. Inl []))
     [] ''h.c.s'' fleet_server))
   = NodesDone [[''01234567...'', ''web'', ''10.0.0.1:9090'', ''online'', ''01/01 00:05:00'']]"
  using console_shows_nodes [OF fleet_nodes fleet_times refl fleet_session [of "''10.0.0.9:1''"] fleet_not_limited,
      where files = nowhere and ws = nowhere and version = "''1''" and order = "[]" and parse = "\<lambda>_. Inl []"]
  by (simp add: fleet_shown short_id_def demo_node_def)

lemma fleet_login: "Authenticate (en_bcrypt E0) ''admin'' ''admin123'' (sv_users fleet_server) =
    Inr \<lparr>u_ID = ''uuid-0'', u_Username = ''admin'', u_PasswordHash = ''$admin123'', u_Role = ''admin''\<rparr>"
  by (simp add: fleet_server_def Authenticate_def E0_users NewUserStore_def ref_bcrypt_def)

theorem login_then_nodes_witness:
  "let H = connect (dispatch E0 nowhere nowhere ''1'' (\<lambda>_. 0) []) [] ''10.0.0.9:1'' (\<lambda>_. Inl []) in
   \<exists>s1 s2. exec H [] (DoLogin ''admin'' ''admin123'' :: unit cmd) fleet_server =
       Some (LoginDone ''h.c.s'' ''admin'' ''admin'', s1) \<and>
     exec H [] (FetchNodes ''h.c.s'' :: unit cmd) s1 =
       Some (NodesDone [[''01234567...'', ''web'', ''10.0.0.1:9090'', ''online'', ''01/01 00:05:00'']], s2)"
proof -
  let ?u = "\<lparr>u_ID = ''uuid-0'', u_Username = ''admin'', u_PasswordHash = ''$admin123'', u_Role = ''admin''\<rparr>"
  have auth: "sv_auth fleet_server = NewAuthManager ''k'' 24" by (simp add: fleet_server_def)
  have j: "jwt_ok (en_jwt E0)" by (simp add: demo_env_def ref_jwt_ok)
  have a: "ascii (u_ID ?u)" "ascii (u_Username ?u)" "ascii (u_Role ?u)" by (simp_all add: ascii_def)
  have l: "fst (Allow 0 0 k (sv_login fleet_server))" for k
    by (simp add: fleet_server_def demo_server_def newServer_def RateLimit.New_def Allow_def)
  have g: "GenerateToken (en_jwt E0) 0 0 (u_ID ?u) (u_Username ?u) (u_Role ?u) (sv_auth fleet_server) = Inr ''h.c.s''"
    using E0_token by (simp add: auth)
  have e: "(0::time) < jw_NumericDate (en_jwt E0) (0 + wrap64 (am_expiryHours (sv_auth fleet_server) * hour))"
    by (simp add: auth NewAuthManager_def) (simp add: demo_env_def ref_jwt_def duration_bounds time_units)
  have t: "node_table (en_off E0) [fleet_node] =
      [[''01234567...'', ''web'', ''10.0.0.1:9090'', ''online'', ''01/01 00:05:00'']]"
    by (simp add: node_table_def or_empty_def fleet_shown short_id_def demo_node_def)
  from login_then_nodes [where 'w = unit and clk = "\<lambda>_. 0" and clk' = "\<lambda>_. 0", OF j fleet_login a l g e fleet_not_limited
      fleet_nodes fleet_times, where files = nowhere and ws = nowhere and version = "''1''" and order = "[]"
      and base = "[]" and remote = "''10.0.0.9:1''" and parse = "\<lambda>_. Inl []" and L = demo_tui
      and m = "initialModel demo_tui"]
  show ?thesis unfolding t Let_def user.simps by blast
qed

theorem expired_session_looks_empty_witness:
  "\<exists>s'. fetchNodes (connect (dispatch E0 nowhere nowhere ''1'' (\<lambda>_. 100 * hour) []) [] ''10.0.0.9:1''
      (\<lambda>_. Inr (JObj [(''error'', JStr ''token'')]))) [] ''h.c.s'' fleet_server
    = Some (NodesDone [[em_dash, ''Sin nodos'', [], [], []]], s')"
proof -
  let ?r = "listing_request [] ''10.0.0.9:1'' ''h.c.s'' ''/api/nodes''"
  have "extractToken ?r = ''h.c.s''" by (rule extract_bearer [OF listing_request_token])
  moreover have "sv_auth fleet_server = NewAuthManager ''k'' 24" by (simp add: fleet_server_def)
  moreover have "en_jwt E0 = ref_jwt (admin_claims\<lparr>cl_UserID := ''uuid-0''\<rparr>) ''k''" by (simp add: demo_env_def)
  ultimately obtain why where "session_of E0 (\<lambda>_. 100 * hour) ?r fleet_server = Inl (401, why)"
    by (auto simp: session_of_def authorize_def Validate_def ref_jwt_def admin_claims_def NewAuthManager_def
        duration_bounds time_units)
  from expired_session_looks_empty [OF refl this fleet_not_limited, where parse = "\<lambda>_. Inr (JObj [(''error'', JStr ''token'')])",
      OF refl, where files = nowhere and ws = nowhere and version = "''1''" and order = "[]"
      and L = demo_tui and m = "initialModel demo_tui"]
  show ?thesis by auto
qed

end
