(* ===== verification/Effects.thy ===== *)
theory Effects
  imports Service
begin

text \<open>
  What one request, call, tick, job or run of a policy does to the snapshots: to the rows of the
  database, the files of the file system and the two counters. \<open>effect\<close> is the contract of all of
  them; the theories \<open>Inventory\<close> and \<open>Calls\<close> rest on it and not on the handlers.
\<close>

section \<open>What is asked of the file system and of the database\<close>

text \<open>
  \<open>paths\<close> are the snapshots that exist. Taking a snapshot removes none and leaves the new one;
  deleting one removes no other, and nothing if it fails; sending one and listing remove none.
\<close>

definition fs_ok :: "'x btrfs_cmd \<Rightarrow> ('x \<Rightarrow> string set) \<Rightarrow> bool" where
  "fs_ok X paths \<longleftrightarrow>
     (\<forall>src dest ro x. paths x \<subseteq> paths (snd (X (snapshot_args src dest ro) [] x)) \<and>
        (cr_fail (fst (X (snapshot_args src dest ro) [] x)) = None
           \<longrightarrow> dest \<in> paths (snd (X (snapshot_args src dest ro) [] x)))) \<and>
     (\<forall>p x. paths x - {p} \<subseteq> paths (snd (X (delete_args p) [] x)) \<and>
        (cr_fail (fst (X (delete_args p) [] x)) \<noteq> None \<longrightarrow> paths x \<subseteq> paths (snd (X (delete_args p) [] x)))) \<and>
     (\<forall>p q x. paths x \<subseteq> paths (snd (X (send_args p q) [] x))) \<and>
     (\<forall>b x. paths x \<subseteq> paths (snd (X (list_args b) [] x)))"

text \<open>The unique index on the path of a snapshot.\<close>

definition unique_paths :: "gorm \<Rightarrow> bool" where
  "unique_paths g \<longleftrightarrow>
     (\<forall>r rows. fst (g_Create (g_snaps g) r rows) = None \<longrightarrow> s_SnapshotPath r \<notin> s_SnapshotPath ` set rows)"

text \<open>
  A row of a snapshot has a \<open>DeletedAt\<close> column, so deleting it marks it: the rows stay, with
  their identifiers and paths.
\<close>

definition key :: "snapshot \<Rightarrow> string \<times> string" where
  "key r = (s_ID r, s_SnapshotPath r)"

definition soft_deletes :: "gorm \<Rightarrow> bool" where
  "soft_deletes g \<longleftrightarrow>
     (\<forall>q rows. map key (snd (g_Delete (g_snaps g) q rows)) = map key rows)"

lemma command_results:
  "snd (CreateSnapshot X src dest ro x) = snd (X (snapshot_args src dest ro) [] x)"
  "fst (CreateSnapshot X src dest ro x) = None \<longleftrightarrow> cr_fail (fst (X (snapshot_args src dest ro) [] x)) = None"
  "snd (DeleteSnapshot X q x) = snd (X (delete_args q) [] x)"
  "fst (DeleteSnapshot X q x) = None \<longleftrightarrow> cr_fail (fst (X (delete_args q) [] x)) = None"
  "snd (SendSnapshot X q parent x) = snd (X (send_args q parent) [] x)"
  "snd (ListSnapshots X b x) = snd (X (list_args b) [] x)"
  by (simp_all add: CreateSnapshot_def DeleteSnapshot_def SendSnapshot_def ListSnapshots_def case_prod_unfold Let_def
      split: option.split)

lemma fs_okD:
  assumes "fs_ok X paths"
  shows "p \<in> paths x \<Longrightarrow> p \<in> paths (snd (CreateSnapshot X src dest ro x))"
    "fst (CreateSnapshot X src dest ro x) = None \<Longrightarrow> dest \<in> paths (snd (CreateSnapshot X src dest ro x))"
    "p \<in> paths x \<Longrightarrow> p \<noteq> q \<Longrightarrow> p \<in> paths (snd (DeleteSnapshot X q x))"
    "p \<in> paths x \<Longrightarrow> fst (DeleteSnapshot X q x) \<noteq> None \<Longrightarrow> p \<in> paths (snd (DeleteSnapshot X q x))"
    "p \<in> paths x \<Longrightarrow> p \<in> paths (snd (SendSnapshot X q parent x))"
    "p \<in> paths x \<Longrightarrow> p \<in> paths (snd (ListSnapshots X b x))"
proof -
  note a = assms [unfolded fs_ok_def]
  note snap = a [THEN conjunct1] and del = a [THEN conjunct2, THEN conjunct1]
    and send = a [THEN conjunct2, THEN conjunct2, THEN conjunct1] and ls = a [THEN conjunct2, THEN conjunct2, THEN conjunct2]
  show "p \<in> paths x \<Longrightarrow> p \<in> paths (snd (CreateSnapshot X src dest ro x))"
    "fst (CreateSnapshot X src dest ro x) = None \<Longrightarrow> dest \<in> paths (snd (CreateSnapshot X src dest ro x))"
    using snap unfolding command_results by blast+
  show "p \<in> paths x \<Longrightarrow> p \<noteq> q \<Longrightarrow> p \<in> paths (snd (DeleteSnapshot X q x))"
    "p \<in> paths x \<Longrightarrow> fst (DeleteSnapshot X q x) \<noteq> None \<Longrightarrow> p \<in> paths (snd (DeleteSnapshot X q x))"
    using del unfolding command_results by blast+
  show "p \<in> paths x \<Longrightarrow> p \<in> paths (snd (SendSnapshot X q parent x))"
    using send unfolding command_results by blast
  show "p \<in> paths x \<Longrightarrow> p \<in> paths (snd (ListSnapshots X b x))"
    using ls unfolding command_results by blast
qed

text \<open>A run of a policy takes away at most what its retention asks to delete.\<close>

lemma delete_all_keeps:
  assumes "fs_ok X paths"
  shows "paths x - si_Path ` set snaps \<subseteq> paths (delete_all X snaps x)"
proof (induction snaps arbitrary: x)
  case (Cons a snaps)
  have "paths x - {si_Path a} \<subseteq> paths (snd (DeleteSnapshot X (si_Path a) x))"
    using fs_okD(3) [OF assms] by blast
  then show ?case using Cons.IH [of "snd (DeleteSnapshot X (si_Path a) x)"] by (auto simp: delete_all_def)
qed (simp add: delete_all_def)

lemma execute_keeps:
  assumes "fs_ok X paths"
  shows "paths x - set (run_deletes X off now pol x) \<subseteq> paths (execute X off now pol x)"
proof -
  have list: "paths y \<subseteq> paths (snd (ListSnapshots X b y))" for b y
    using fs_okD(6) [OF assms] by blast
  have ret: "paths y - set (retention_paths X pol y) \<subseteq> paths (applyRetention X pol y)" for y
  proof (cases "fst (ListSnapshots X (sp_SubvolumePath pol) y)")
    case (Inl e)
    then show ?thesis using list [of y] by (auto simp: applyRetention_def retention_paths_def case_prod_unfold Let_def)
  next
    case (Inr snaps)
    then show ?thesis
      using list [of y "sp_SubvolumePath pol"]
        delete_all_keeps [OF assms, of "snd (ListSnapshots X (sp_SubvolumePath pol) y)" "drop (max_to_keep pol) snaps"]
      by (auto simp: applyRetention_def retention_paths_def case_prod_unfold Let_def)
  qed
  let ?r = "CreateSnapshot X (sp_SubvolumePath pol) (SnapshotPath off now (sp_SubvolumePath pol) (sp_Name pol)) (sp_ReadOnly pol) x"
  have "paths x \<subseteq> paths (snd ?r)" using fs_okD(1) [OF assms] by blast
  then show ?thesis
    using ret [of "snd ?r"] by (cases "fst ?r") (auto simp: execute_def run_deletes_def case_prod_unfold Let_def)
qed

definition store_ok :: "('x, 'c) env \<Rightarrow> ('x \<Rightarrow> string set) \<Rightarrow> bool" where
  "store_ok E paths \<longleftrightarrow>
     fs_ok (en_btrfs E) paths \<and> gorm_ok (en_gorm E) \<and>
     table_up (\<lambda>r. s_DeletedAt r = None) (g_snaps (en_gorm E)) \<and> unique_paths (en_gorm E) \<and>
     soft_deletes (en_gorm E)"

lemma store_okD:
  assumes "store_ok E paths"
  shows "fs_ok (en_btrfs E) paths" "gorm_ok (en_gorm E)"
    "table_up (\<lambda>r. s_DeletedAt r = None) (g_snaps (en_gorm E))" "unique_paths (en_gorm E)"
    "soft_deletes (en_gorm E)"
  using assms by (simp_all add: store_ok_def)

section \<open>The contract\<close>

text \<open>The part of the state that is about snapshots.\<close>

type_synonym 'x stock = "snapshot list \<times> 'x \<times> nat \<times> nat"

definition stock :: "('x, 'c) server \<Rightarrow> 'x stock" where
  "stock s = (db_snaps (sv_db s), sv_btrfs s, sv_created s, sv_deleted s)"

definition live :: "snapshot list \<Rightarrow> snapshot list" where
  "live rows = filter (\<lambda>r. s_DeletedAt r = None) rows"

lemma live_append [simp]: "live (rows @ [r]) = live rows @ (if s_DeletedAt r = None then [r] else [])"
  by (simp add: live_def)

lemma live_set: "r \<in> set (live rows) \<longleftrightarrow> r \<in> set rows \<and> s_DeletedAt r = None"
  by (auto simp: live_def)

text \<open>\<open>D\<close> are the paths that the retention of a policy asked to delete.\<close>

inductive effect :: "('x \<Rightarrow> string set) \<Rightarrow> string set \<Rightarrow> 'x stock \<Rightarrow> 'x stock \<Rightarrow> bool" for paths D where
  pruned: "paths x - D \<subseteq> paths x' \<Longrightarrow> effect paths D (rows, x, c, d) (rows, x', c, d)"
| added: "s_DeletedAt snap = None \<Longrightarrow> s_ID snap \<notin> s_ID ` set rows \<Longrightarrow>
    s_SnapshotPath snap \<notin> s_SnapshotPath ` set rows \<Longrightarrow>
    paths x \<subseteq> paths x' \<Longrightarrow> s_SnapshotPath snap \<in> paths x' \<Longrightarrow>
    effect paths D (rows, x, c, d) (rows @ [snap], x', Suc c, d)"
| removed: "snap \<in> set (live rows) \<Longrightarrow> live rows' = filter (\<lambda>r. s_ID r \<noteq> s_ID snap) (live rows) \<Longrightarrow>
    map key rows' = map key rows \<Longrightarrow> paths x - {s_SnapshotPath snap} \<subseteq> paths x' \<Longrightarrow>
    effect paths D (rows, x, c, d) (rows', x', c, Suc d)"

lemma effect_kept: "paths x \<subseteq> paths x' \<Longrightarrow> effect paths D (rows, x, c, d) (rows, x', c, d)"
  by (rule effect.pruned) blast

lemma effect_idle: "effect paths D k k"
  by (cases k) (simp add: effect_kept)

section \<open>The steps of the two methods\<close>

text \<open>Taking the file, and storing its row.\<close>

lemma store_row:
  assumes "store_ok E paths" "g_Create (g_snaps (en_gorm E)) row rows = (err, snap, rows')"
    and "s_DeletedAt row = None"
  shows "err \<noteq> None \<Longrightarrow> rows' = rows"
    "err = None \<Longrightarrow> rows' = rows @ [snap] \<and> s_DeletedAt snap = None \<and> s_ID snap = s_ID row \<and>
       s_SnapshotPath snap = s_SnapshotPath row \<and> s_ID snap \<notin> s_ID ` set rows \<and>
       s_SnapshotPath snap \<notin> s_SnapshotPath ` set rows"
proof -
  note t = gorm_okD(2) [OF store_okD(2) [OF assms(1)]]
  show "err \<noteq> None \<Longrightarrow> rows' = rows" using table_failed(1) [OF t] assms(2) by blast
  assume e: "err = None"
  have c: "rows' = rows @ [snap]" "snap_norm snap = snap_norm row" "s_ID row \<notin> s_ID ` set rows"
    using table_create [OF t] assms(2) e by blast+
  moreover have "s_SnapshotPath row \<notin> s_SnapshotPath ` set rows"
    using store_okD(4) [OF assms(1)] assms(2) e unfolding unique_paths_def by (metis fst_conv)
  ultimately show "rows' = rows @ [snap] \<and> s_DeletedAt snap = None \<and> s_ID snap = s_ID row \<and>
       s_SnapshotPath snap = s_SnapshotPath row \<and> s_ID snap \<notin> s_ID ` set rows \<and>
       s_SnapshotPath snap \<notin> s_SnapshotPath ` set rows"
    using snap_normD [OF c(2)] assms(3) by simp
qed

lemma found_row:
  assumes "store_ok E paths" "GetSnapshot (en_gorm E) i d = Inr snap"
  shows "snap \<in> set (live (db_snaps d))" "s_ID snap = i"
  using table_first [OF gorm_okD(2) [OF store_okD(2) [OF assms(1)]]] assms(2)
  by (auto simp: GetSnapshot_def live_set)

lemma erase_row:
  assumes "store_ok E paths" "rows' = snd (g_Delete (g_snaps (en_gorm E)) (\<lambda>r. s_ID r = i) rows)"
  shows "live rows' = filter (\<lambda>r. s_ID r \<noteq> i) (live rows)" "map key rows' = map key rows"
proof -
  have "g_Delete (g_snaps (en_gorm E)) (\<lambda>r. s_ID r = i) rows = (None, rows')"
    using table_up_calls(3) [OF store_okD(3) [OF assms(1)]] assms(2) by (metis prod.collapse)
  from table_delete [OF gorm_okD(2) [OF store_okD(2) [OF assms(1)]] this]
  show "live rows' = filter (\<lambda>r. s_ID r \<noteq> i) (live rows)" by (simp add: live_def)
  show "map key rows' = map key rows"
    using store_okD(5) [OF assms(1)] assms(2) by (simp add: soft_deletes_def)
qed

section \<open>Every handler and method\<close>

lemma create_effect:
  assumes "store_ok E paths"
  shows "effect paths D (stock s) (stock (snd (rpc_CreateSnapshot E clk req s)))" (is "effect _ _ _ (stock ?s')")
proof -
  define path where "path = SnapshotPath (en_off E) (clk 0) (cq_SubvolumePath req) (cq_SnapshotName req)"
  define row where "row = new_snapshot (en_uuid E (sv_draws s)) (cq_NodeId req) (cq_SubvolumePath req) path (cq_Readonly req)"
  obtain err x where c: "CreateSnapshot (en_btrfs E) (cq_SubvolumePath req) path (cq_Readonly req) (sv_btrfs s) = (err, x)"
    by (metis prod.collapse)
  have keep: "paths (sv_btrfs s) \<subseteq> paths x"
    using fs_okD(1) [OF store_okD(1) [OF assms(1)]] c by (metis snd_conv subsetI)
  obtain err' snap rows where g: "g_Create (g_snaps (en_gorm E)) row (db_snaps (sv_db s)) = (err', snap, rows)"
    by (metis prod_cases3)
  have s': "stock ?s' = (if err \<noteq> None then (db_snaps (sv_db s), x, sv_created s, sv_deleted s)
      else (rows, x, if err' = None then Suc (sv_created s) else sv_created s, sv_deleted s))"
    by (cases err; cases err')
      (simp_all add: stock_def rpc_CreateSnapshot_def path_def [symmetric] row_def [symmetric] c g generateID_def
        CreateSnapshotRow_def)
  have r: "s_DeletedAt row = None" "s_SnapshotPath row = path" by (simp_all add: row_def new_snapshot_def)
  note st = store_row [OF assms(1) g r(1)]
  show ?thesis
  proof (cases "err = None \<and> err' = None")
    case True
    then have "path \<in> paths x" using fs_okD(2) [OF store_okD(1) [OF assms(1)]] c by (metis fst_conv snd_conv)
    then have "effect paths D (stock s) (db_snaps (sv_db s) @ [snap], x, Suc (sv_created s), sv_deleted s)"
      unfolding stock_def by (intro effect.added; use st(2) True keep r(2) in metis)
    moreover have "stock ?s' = (db_snaps (sv_db s) @ [snap], x, Suc (sv_created s), sv_deleted s)"
      using st(2) True s' by simp
    ultimately show ?thesis by simp
  next
    case False
    then show ?thesis using st(1) keep s' by (auto simp: stock_def intro: effect_kept)
  qed
qed

lemma delete_effect:
  assumes "store_ok E paths"
  shows "effect paths D (stock s) (stock (snd (rpc_DeleteSnapshot E i s)))" (is "effect _ _ _ (stock ?s')")
proof (cases "GetSnapshot (en_gorm E) i (sv_db s)")
  case (Inl e)
  then show ?thesis by (simp add: rpc_DeleteSnapshot_def effect_idle)
next
  case (Inr snap)
  note snap = found_row [OF assms Inr]
  obtain err x where d: "DeleteSnapshot (en_btrfs E) (s_SnapshotPath snap) (sv_btrfs s) = (err, x)"
    by (metis prod.collapse)
  define rows where "rows = snd (g_Delete (g_snaps (en_gorm E)) (\<lambda>r. s_ID r = i) (db_snaps (sv_db s)))"
  have s': "stock ?s' = (if err = None then (rows, x, sv_created s, Suc (sv_deleted s))
      else (db_snaps (sv_db s), x, sv_created s, sv_deleted s))"
    by (cases err; simp add: stock_def rpc_DeleteSnapshot_def Inr d DeleteSnapshotRow_def rows_def case_prod_unfold Let_def)
  note fs = fs_okD(3,4) [OF store_okD(1) [OF assms(1)]]
  show ?thesis
  proof (cases "err = None")
    case True
    have "paths (sv_btrfs s) - {s_SnapshotPath snap} \<subseteq> paths x"
      using fs(1) d by (metis Diff_iff insertCI snd_conv subsetI)
    then show ?thesis
      using effect.removed [OF snap(1), where rows' = rows and paths = paths and D = D] erase_row [OF assms rows_def] snap(2) True s'
      by (simp add: stock_def)
  next
    case False
    then have "paths (sv_btrfs s) \<subseteq> paths x" using fs(2) d by (metis fst_conv snd_conv subsetI)
    then show ?thesis using s' False by (simp add: stock_def effect_kept)
  qed
qed

definition acts :: "('x \<Rightarrow> string set) \<Rightarrow> ('x, 'c) server_handler \<Rightarrow> bool" where
  "acts paths h \<longleftrightarrow> (\<forall>D r s w. effect paths D (stock s) (stock (fst (h r s w))))"

lemma acts_idle: "(\<And>r s w. stock (fst (h r s w)) = stock s) \<Longrightarrow> acts paths h"
  by (simp add: acts_def effect_idle)

lemma restore_acts:
  assumes "store_ok E paths"
  shows "acts paths (handleRestore E)"
  unfolding acts_def
proof (intro allI)
  fix D r s w
  have x: "stock (fst (handleRestore E r s w)) = (db_snaps (sv_db s), sv_btrfs (fst (handleRestore E r s w)), sv_created s, sv_deleted s)"
    by (simp add: stock_def handleRestore_def generateID_def CreateEvent_def case_prod_unfold Let_def split: sum.split option.split)
  have "p \<in> paths (sv_btrfs (fst (handleRestore E r s w)))" if "p \<in> paths (sv_btrfs s)" for p
    using that fs_okD(1) [OF store_okD(1) [OF assms(1)] that]
    by (simp add: handleRestore_def generateID_def case_prod_unfold Let_def split: sum.split option.split)
  then show "effect paths D (stock s) (stock (fst (handleRestore E r s w)))"
    unfolding x by (simp add: stock_def effect_kept subsetI)
qed

lemma api_keys_frame: "stock (fst (handleAPIKeys E clk r s w)) = stock s"
proof -
  have key: "db_snaps (snd (GenerateKey g H zone raw t1 t2 name role days d)) = db_snaps d" for g H zone raw t1 t2 name role days d
    by (simp add: GenerateKey_def SaveAPIKey_def case_prod_unfold Let_def split: sum.split option.split)
  have name: "db_snaps (sv_db (snd (if c then let (i, s') = generateID E s in (f i, s') else (n, s)))) = db_snaps (sv_db s)"
    "sv_btrfs (snd (if c then let (i, s') = generateID E s in (f i, s') else (n, s))) = sv_btrfs s"
    "sv_created (snd (if c then let (i, s') = generateID E s in (f i, s') else (n, s))) = sv_created s"
    "sv_deleted (snd (if c then let (i, s') = generateID E s in (f i, s') else (n, s))) = sv_deleted s"
    for c f and n :: string
    by (simp_all add: generateID_def)
  show ?thesis
    by (cases "rq_method r = ''GET''"; cases "rq_method r = ''POST''"; cases "get_header r ''X-User-Role'' = ''admin''")
      (simp_all add: stock_def handleAPIKeys_def key name case_prod_unfold Let_def split: sum.split split del: if_split)
qed

lemma acts_handlers:
  "acts paths (handleNodes E)" "acts paths (handleEvents E)" "acts paths (handlePolicies E)" "acts paths (handleAPIKeys E clk)"
  "acts paths (handleRevokeAPIKey E)" "acts paths (handleAlertTest E clk)" "acts paths (handleAlertConfig E)"
  "acts paths (handleReplicate E)" "acts paths (handleReplicationJobs E order)" "acts paths (handleLogin E clk)"
  subgoal by (rule acts_idle) (simp add: handleNodes_def split: sum.split)
  subgoal by (rule acts_idle) (simp add: handleEvents_def split: sum.split)
  subgoal by (rule acts_idle)
      (simp add: stock_def handlePolicies_def generateID_def CreatePolicy_def case_prod_unfold Let_def split: sum.split option.split)
  subgoal by (rule acts_idle) (rule api_keys_frame)
  subgoal by (rule acts_idle)
      (simp add: stock_def handleRevokeAPIKey_def RevokeKey_def RevokeAPIKey_def case_prod_unfold Let_def split: sum.split)
  subgoal by (rule acts_idle) (simp add: stock_def handleAlertTest_def case_prod_unfold Let_def split: sum.split)
  subgoal by (rule acts_idle) (simp add: stock_def handleAlertConfig_def Let_def)
  subgoal by (rule acts_idle) (simp add: stock_def handleReplicate_def generateID_def case_prod_unfold Let_def split: sum.split)
  subgoal by (rule acts_idle) (simp add: handleReplicationJobs_def Let_def)
  subgoal by (rule acts_idle) (simp add: handleLogin_def case_prod_unfold split: sum.split)
  done

lemma acts_snapshot_handlers:
  assumes "store_ok E paths"
  shows "acts paths (handleSnapshots E clk)" "acts paths (handleDeleteSnapshot E)"
  unfolding acts_def
  by (auto simp: handleSnapshots_def handleDeleteSnapshot_def case_prod_unfold Let_def effect_idle
      create_effect [OF assms] delete_effect [OF assms] split: sum.split)

lemma acts_api: "store_ok E paths \<Longrightarrow> map_of (api_handlers E clk order) path = Some h \<Longrightarrow> acts paths h"
  by (auto simp: api_handlers_def acts_handlers acts_snapshot_handlers restore_acts split: if_splits)

lemma http_effect:
  assumes "store_ok E paths"
  shows "effect paths D (stock s) (stock (fst (dispatch E nowhere nowhere version clk order path r s w)))"
proof (cases "map_of (api_handlers E clk order) path")
  case (Some h)
  have "stock (count_request clk r s) = stock s" by (simp add: stock_def count_request_def)
  then show ?thesis
    using acts_api [OF assms(1) Some] unfolding acts_def dispatch_api [OF Some] protected_outcome
    by (auto simp: Let_def effect_idle split: sum.split) metis+
next
  case None
  have "effect paths D (stock (s\<lparr>sv_login := l\<rparr>)) (stock (fst (handleLogin E k r (s\<lparr>sv_login := l\<rparr>) w)))" for l k
    using acts_handlers(10) [of paths E k] by (simp add: acts_def)
  then have "effect paths D (stock s) (stock (fst (handleLogin E k r (s\<lparr>sv_login := l\<rparr>) w)))" for l k
    by (simp add: stock_def)
  moreover have "stock (s\<lparr>sv_login := l\<rparr>) = stock s" for l by (simp add: stock_def)
  ultimately have "effect paths D (stock s) (stock (fst (login_limit clk (handleLogin E (later 2 clk)) r s w)))"
    by (simp add: login_limit_def rl.outcome effect_idle)
  then show ?thesis
    using None by (simp add: dispatch_def handleHealth_def effect_idle)
qed

lemma register_idle: "stock (snd (rpc_RegisterNode E clk req s)) = stock s"
  by (simp add: stock_def rpc_RegisterNode_def generateID_def case_prod_unfold Let_def CreateNode_def split: option.split)

lemma stream_beats_frame: "stock (snd (stream_beats E nodeID ts s)) = stock s"
  by (induction ts arbitrary: s) (simp_all add: stock_def stream_event_def generateID_def case_prod_unfold Let_def)

lemma stream_idle: "stock (snd (rpc_StreamEvents E clk nodeID beats s)) = stock s"
  by (simp add: rpc_StreamEvents_def stream_beats_frame case_prod_unfold Let_def)
    (simp add: stock_def stream_event_def generateID_def)

lemma check_nodes_snaps: "db_snaps (snd (snd (check_nodes g now ns q))) = db_snaps (snd q)"
  by (induction ns arbitrary: q) (simp_all add: check_node_def case_prod_unfold Let_def)

lemma watch_idle: "stock (watchdog_tick E now s) = stock s"
  by (simp add: stock_def watchdog_tick_def check_def check_nodes_snaps case_prod_unfold Let_def split: sum.split)

lemma replicate_effect:
  assumes "store_ok E paths"
  shows "effect paths D (stock s) (stock (fst (run_replication E G clk j (s, remote))))" (is "effect _ _ _ (stock ?s')")
proof -
  have "sv_btrfs ?s' = snd (SendSnapshot (en_btrfs E) (j_SnapshotPath j) (j_ParentPath j) (sv_btrfs s))"
    by (simp add: run_replication_def Replicate_def transfer_def start_job_def fail_def complete_def
        case_prod_unfold Let_def split: sum.split option.split)
  moreover have "db_snaps (sv_db ?s') = db_snaps (sv_db s)"
    by (simp add: run_replication_def Replicate_def fail_def complete_def CreateEvent_def transfer_frame
        case_prod_unfold Let_def split: sum.split)
  moreover have "sv_created ?s' = sv_created s" "sv_deleted ?s' = sv_deleted s"
    by (simp_all add: run_replication_def case_prod_unfold Let_def)
  ultimately show ?thesis
    using fs_okD(5) [OF store_okD(1) [OF assms(1)]] by (simp add: stock_def effect_kept subsetI)
qed

text \<open>An entry of the cron table comes due: the closure that \<open>AddPolicy\<close> registered runs.\<close>

definition run_entry :: "('x, 'c) env \<Rightarrow> time \<Rightarrow> nat \<Rightarrow> ('x, 'c) server \<Rightarrow> ('x, 'c) server" where
  "run_entry E now e s =
     (case cron_entries (en_cron E) (sc_cron (sv_scheduler s)) e of
        None \<Rightarrow> s
      | Some p \<Rightarrow> s\<lparr>sv_btrfs := execute (en_btrfs E) (en_off E) now p (sv_btrfs s)\<rparr>)"

section \<open>The running server\<close>

text \<open>
  What happens to a server: requests, calls, ticks of the watchdog, the jobs it launched, and the
  entries of the cron table that come due.
\<close>

datatype 'r server_event =
    Request "nat \<Rightarrow> time" "string list" string request
  | Register "nat \<Rightarrow> time" register_req
  | Create "nat \<Rightarrow> time" create_req
  | Delete string
  | Stream "nat \<Rightarrow> time" string "time list"
  | Watch time
  | Job "'r grpc" "nat \<Rightarrow> time" job 'r
  | Fire time nat

fun server_step ::
    "('x, 'c) env \<Rightarrow> string \<Rightarrow> 'r server_event \<Rightarrow> ('x, 'c) server \<Rightarrow> response option \<times> ('x, 'c) server" where
  "server_step E version (Request clk order path r) s =
     (let (s', w) = dispatch E nowhere nowhere version clk order path r s fresh_response in (Some (finish w), s'))"
| "server_step E version (Register clk req) s = (None, snd (rpc_RegisterNode E clk req s))"
| "server_step E version (Create clk req) s = (None, snd (rpc_CreateSnapshot E clk req s))"
| "server_step E version (Delete i) s = (None, snd (rpc_DeleteSnapshot E i s))"
| "server_step E version (Stream clk nodeID beats) s = (None, snd (rpc_StreamEvents E clk nodeID beats s))"
| "server_step E version (Watch now) s = (None, watchdog_tick E now s)"
| "server_step E version (Job G clk j remote) s = (None, fst (run_replication E G clk j (s, remote)))"
| "server_step E version (Fire now e) s = (None, run_entry E now e s)"

text \<open>The paths whose deletion an event asks for in the name of retention.\<close>

definition retired :: "('x, 'c) env \<Rightarrow> 'r server_event \<Rightarrow> ('x, 'c) server \<Rightarrow> string set" where
  "retired E e s =
     (case e of
        Fire now i \<Rightarrow>
          (case cron_entries (en_cron E) (sc_cron (sv_scheduler s)) i of
             None \<Rightarrow> {}
           | Some p \<Rightarrow> set (run_deletes (en_btrfs E) (en_off E) now p (sv_btrfs s)))
      | _ \<Rightarrow> {})"

text \<open>The server beside a note of all these paths.\<close>

fun noted_step ::
    "('x, 'c) env \<Rightarrow> string \<Rightarrow> 'r server_event \<Rightarrow> ('x, 'c) server \<times> string set
     \<Rightarrow> response option \<times> ('x, 'c) server \<times> string set" where
  "noted_step E version e (s, D) =
     (fst (server_step E version e s), snd (server_step E version e s), D \<union> retired E e s)"

definition lists_short :: "'x btrfs_cmd \<Rightarrow> bool" where
  "lists_short X \<longleftrightarrow> (\<forall>b x. short_lines (cr_combined (fst (X (list_args b) [] x))))"

lemma retention_idle: "lists_short X \<Longrightarrow> retention_paths X p x = []"
  by (rule retention_paths_short) (simp add: lists_short_def)

lemma retired_idle: "lists_short (en_btrfs E) \<Longrightarrow> retired E e s = {}"
  by (simp add: retired_def run_deletes_def retention_idle case_prod_unfold Let_def
      split: server_event.split option.split)

lemma run_entry_effect:
  "store_ok E paths \<Longrightarrow> effect paths (retired E (Fire now i) s) (stock s) (stock (run_entry E now i s))"
  by (simp add: run_entry_def retired_def stock_def effect_idle effect.pruned execute_keeps [OF store_okD(1)]
      split: option.split)

lemma server_step_effect:
  "store_ok E paths \<Longrightarrow> effect paths (retired E e s) (stock s) (stock (snd (server_step E version e s)))"
  by (cases e)
    (simp_all add: http_effect create_effect delete_effect register_idle stream_idle watch_idle effect_idle
      replicate_effect run_entry_effect case_prod_unfold Let_def)

end
