(* ===== verification/Inventory.thy ===== *)
theory Inventory
  imports Effects
begin

text \<open>
  The snapshots of the database and those of the file system, through everything the server does
  on requests and on its own: HTTP and gRPC calls, the watchdog, replication jobs and the runs of
  the policies. A run of a policy makes a file without a row, and its retention deletes files
  without looking at the rows; nothing else takes the file of a listed snapshot away.
\<close>

section \<open>Consistency\<close>

text \<open>\<open>D\<close> are the paths that retention has asked to delete so far.\<close>

definition consistent :: "('x \<Rightarrow> string set) \<Rightarrow> string set \<Rightarrow> 'x stock \<Rightarrow> bool" where
  "consistent paths D k \<longleftrightarrow> (case k of (rows, x, c, d) \<Rightarrow>
     (\<forall>r \<in> set (live rows). s_SnapshotPath r \<in> paths x \<union> D) \<and>
     (\<forall>r \<in> set (live rows). \<forall>r' \<in> set (live rows). s_SnapshotPath r = s_SnapshotPath r' \<longrightarrow> s_ID r = s_ID r'))"

lemma effect_consistent:
  "effect paths V k k' \<Longrightarrow> consistent paths D k \<Longrightarrow> consistent paths (D \<union> V) k'"
proof (induction rule: effect.induct)
  case (pruned x x' rows c d)
  then show ?case unfolding consistent_def prod.case by blast
next
  case (added snap rows x x' c d)
  have "s_SnapshotPath r \<noteq> s_SnapshotPath snap" if "r \<in> set (live rows)" for r
    using added(3) that by (metis image_eqI live_set)
  moreover have "\<forall>r \<in> set (live rows). s_SnapshotPath r \<in> paths x \<union> D"
    "\<forall>r \<in> set (live rows). \<forall>r' \<in> set (live rows). s_SnapshotPath r = s_SnapshotPath r' \<longrightarrow> s_ID r = s_ID r'"
    using added(6) unfolding consistent_def prod.case by blast+
  moreover have "paths x \<union> D \<subseteq> paths x' \<union> (D \<union> V)" "s_SnapshotPath snap \<in> paths x' \<union> (D \<union> V)"
    using added(4,5) by blast+
  moreover have "set (live (rows @ [snap])) = insert snap (set (live rows))" using added(1) by simp
  ultimately show ?case
    unfolding consistent_def prod.case by (metis insertE subsetD)
next
  case (removed snap rows rows' x x' c d)
  have "s_SnapshotPath r \<in> paths x' \<union> (D \<union> V)" if "r \<in> set (live rows)" "s_ID r \<noteq> s_ID snap" for r
    using removed(1,4,5) that unfolding consistent_def prod.case by blast
  moreover have "set (live rows') \<subseteq> set (live rows)" "r \<in> set (live rows') \<Longrightarrow> s_ID r \<noteq> s_ID snap" for r
    using removed(2) by auto
  ultimately show ?case using removed(5) unfolding consistent_def prod.case by (metis subsetD)
qed

lemma noted_step_consistent:
  assumes "consistent paths (snd p) (stock (fst p))" "store_ok E paths"
  shows "consistent paths (snd (snd (noted_step E version e p))) (stock (fst (snd (noted_step E version e p))))"
  using effect_consistent [OF server_step_effect [OF assms(2)] assms(1)] by (cases p) simp

interpretation running: machine "noted_step E version" "\<lambda>_ _. store_ok E paths" "\<lambda>p. consistent paths (snd p) (stock (fst p))"
  for E :: "('x, 'c) env" and version and paths :: "'x \<Rightarrow> string set"
  by unfold_locales (rule noted_step_consistent)

lemma noted_idle:
  assumes "lists_short (en_btrfs E)"
  shows "snd (snd (run (noted_step E version) evs p)) = snd p"
proof (induction evs arbitrary: p)
  case (Cons e evs)
  have "snd (snd (noted_step E version e p)) = snd p" by (cases p) (simp add: retired_idle [OF assms])
  then show ?case using Cons by simp
qed simp

text \<open>The note takes nothing away from the machine.\<close>

lemma noted_server: "fst (snd (run (noted_step E version) evs (s, D))) = snd (run (server_step E version) evs s)"
  by (induction evs arbitrary: s D) simp_all

lemma valid_run_constant: "P \<Longrightarrow> valid_run (\<lambda>_ _. P) step es s"
  by (induction es arbitrary: s) simp_all

text \<open>C10: Only retention parts a row from its file. Let the file system hold a snapshot that was made and
  lose none but the one deleted, and the database be up, keep the paths of snapshots unique, and delete a row by marking
  it. Start with a state in which every listed snapshot exists and no two share a path. After any
  sequence of HTTP requests, gRPC calls, ticks of the watchdog, replication jobs and runs of the
  policies that the requests have scheduled, every snapshot that the database lists exists in the
  file system or has a path that the retention of some run asked btrfs to delete, and no two share
  a path. If every line of every listing btrfs prints is one the parser skips, as with paths
  of at most four words, no such path exists and every listed snapshot has its file.\<close>

theorem rows_have_files:
  assumes "store_ok E paths" "consistent paths {} (stock s)"
    and "snd (run (noted_step E version) evs (s, {})) = (s', retired_paths)"
  shows "(\<forall>r \<in> set (db_snaps (sv_db s')). s_DeletedAt r = None \<longrightarrow>
      (s_SnapshotPath r \<in> paths (sv_btrfs s') \<or> s_SnapshotPath r \<in> retired_paths) \<and>
      (\<forall>r' \<in> set (db_snaps (sv_db s')). s_DeletedAt r' = None \<and> s_SnapshotPath r' = s_SnapshotPath r
         \<longrightarrow> s_ID r' = s_ID r)) \<and>
    (lists_short (en_btrfs E) \<longrightarrow> retired_paths = {})"
proof -
  have "consistent paths (snd (s, {})) (stock (fst (s, {})))" using assms(2) by simp
  from running.run_inv [OF this valid_run_constant [OF assms(1)], of version evs]
  have "consistent paths retired_paths (stock s')" unfolding assms(3) by simp
  then have "\<forall>r \<in> set (db_snaps (sv_db s')). s_DeletedAt r = None \<longrightarrow>
      (s_SnapshotPath r \<in> paths (sv_btrfs s') \<or> s_SnapshotPath r \<in> retired_paths) \<and>
      (\<forall>r' \<in> set (db_snaps (sv_db s')). s_DeletedAt r' = None \<and> s_SnapshotPath r' = s_SnapshotPath r
         \<longrightarrow> s_ID r' = s_ID r)"
    unfolding consistent_def stock_def prod.case Ball_def live_set Un_iff by metis
  moreover have "lists_short (en_btrfs E) \<longrightarrow> retired_paths = {}"
    using noted_idle [of E version evs "(s, {})"] assms(3) by auto
  ultimately show ?thesis by blast
qed

section \<open>The counters\<close>

text \<open>The balance of rows and counters; \<open>n\<close> is what was there before they started to count.\<close>

definition balanced :: "nat \<Rightarrow> 'x stock \<Rightarrow> bool" where
  "balanced n k \<longleftrightarrow> (case k of (rows, x, c, d) \<Rightarrow> distinct (map s_ID (live rows)) \<and> length (live rows) + d = n + c)"

lemma filter_one_out:
  "distinct (map f xs) \<Longrightarrow> x \<in> set xs \<Longrightarrow> Suc (length (filter (\<lambda>y. f y \<noteq> f x) xs)) = length xs"
proof (induction xs)
  case (Cons a xs)
  show ?case
  proof (cases "a = x")
    case True
    then have "filter (\<lambda>y. f y \<noteq> f x) xs = xs" using Cons.prems(1) by (simp add: filter_id_conv) (metis image_eqI)
    then show ?thesis using True by simp
  qed (use Cons in auto)
qed simp

lemma effect_balanced:
  "effect paths D k k' \<Longrightarrow> balanced n k \<Longrightarrow> balanced n k'"
proof (induction rule: effect.induct)
  case (added snap rows x x' c d)
  have "s_ID snap \<notin> s_ID ` set (live rows)" using added(2) by (auto simp: live_set)
  then show ?case using added by (simp add: balanced_def)
next
  case (removed snap rows rows' x x' c d)
  have "distinct (map s_ID (filter (\<lambda>r. s_ID r \<noteq> s_ID snap) (live rows)))"
    using removed(5) by (simp add: balanced_def distinct_map_filter)
  moreover have "Suc (length (filter (\<lambda>r. s_ID r \<noteq> s_ID snap) (live rows))) = length (live rows)"
    using removed(1,5) by (intro filter_one_out) (simp_all add: balanced_def)
  ultimately show ?case using removed(2,5) by (simp add: balanced_def)
qed (simp add: balanced_def)

interpretation counted: machine "server_step E version" "\<lambda>_ _. store_ok E paths" "\<lambda>s. balanced n (stock s)"
  for E :: "('x, 'c) env" and version and paths :: "'x \<Rightarrow> string set" and n
  by unfold_locales (rule effect_balanced [OF server_step_effect])

lemma gauge_counts_live:
  assumes "store_ok E paths"
  shows "ga_SnapshotsTotal (refresh_gauges E d ga) = length (live (db_snaps d))"
proof -
  obtain rs where l: "ListSnapshotRows (en_gorm E) [] d = Inr rs"
    using table_up_calls(4) [OF store_okD(3) [OF assms]] unfolding ListSnapshotRows_def by blast
  then have "mset rs = mset (live (db_snaps d))"
    using table_find(1) [OF gorm_okD(2) [OF store_okD(2) [OF assms]]]
    by (fastforce simp: ListSnapshotRows_def live_def)
  then have "length rs = length (live (db_snaps d))" by (rule mset_eq_length)
  then show ?thesis
    using l by (simp add: refresh_gauges_def Let_def split: sum.split)
qed

text \<open>C11: The metrics agree with each other. Over the same file system and database, after any run of a
  server that was started on a database whose listed snapshots have distinct identifiers, a
  refresh of the gauges sets the number of snapshots to what was listed at the start, plus the
  counter of created ones, minus the counter of deleted ones.\<close>

theorem metrics_balance:
  assumes "store_ok E paths" "distinct (map s_ID (live (db_snaps d)))"
    and "s' = snd (run (server_step E version) evs (newServer E cfg d x))"
  shows "ga_SnapshotsTotal (refresh_gauges E (sv_db s') ga) + sv_deleted s' =
    length (filter (\<lambda>r. s_DeletedAt r = None) (db_snaps d)) + sv_created s'"
proof -
  have "balanced (length (live (db_snaps d))) (stock (newServer E cfg d x))"
    using assms(2) by (simp add: balanced_def stock_def newServer_def)
  then have "balanced (length (live (db_snaps d))) (stock s')"
    unfolding assms(3) by (rule counted.run_inv [OF _ valid_run_constant [OF assms(1)]])
  then show ?thesis
    by (simp add: balanced_def stock_def gauge_counts_live [OF assms(1)] live_def)
qed

section \<open>A concrete file system\<close>

text \<open>A world of paths; a deletion fails if there is nothing to delete.\<close>

definition data_listing :: string where
  "data_listing = table_listing [(''257'', [([CHR 0x09], ''12''), ([CHR 0x09], ''5''),
     ([CHR 0x09, CHR 0x09], ''6ce2''), ([CHR 0x09], ''data'')])]"

definition set_world :: "string set btrfs_cmd" where
  "set_world args inp x =
     (if take 2 args = [''subvolume'', ''list''] then (fst (ok_world data_listing args inp ()), x)
      else if take 2 args = [''subvolume'', ''snapshot''] then (fst (ok_world [] args inp ()), insert (last args) x)
      else if take 2 args = [''subvolume'', ''delete''] \<and> last args \<in> x
      then (fst (ok_world [] args inp ()), x - {last args})
      else if take 2 args = [''subvolume'', ''delete'']
      then ((fst (ok_world [] args inp ()))\<lparr>cr_fail := Some ''exit status 1''\<rparr>, x)
      else (fst (ok_world [] args inp ()), x))"

definition unique_gorm :: gorm where
  "unique_gorm = ref_gorm\<lparr>g_snaps := (g_snaps ref_gorm)\<lparr>
     g_Create := (\<lambda>r rows.
       if s_SnapshotPath r \<in> s_SnapshotPath ` set rows then (Some ''UNIQUE constraint failed'', r, rows)
       else g_Create (g_snaps ref_gorm) r rows),
     g_Delete := (\<lambda>q rows. (None, map (\<lambda>r.
       if s_DeletedAt r = None \<and> q r then r\<lparr>s_DeletedAt := Some 0\<rparr> else r) rows))\<rparr>\<rparr>"

lemma unique_gorm_delete:
  "filter (\<lambda>r. s_DeletedAt r = None) (snd (g_Delete (g_snaps unique_gorm) q rows)) =
     filter (\<lambda>r. \<not> q r) (filter (\<lambda>r. s_DeletedAt r = None) rows)"
  by (induction rows) (auto simp: unique_gorm_def)

definition files_env :: "(string set, nat \<times> (nat \<rightharpoonup> policy)) env" where
  "files_env =
     \<lparr>en_gorm = unique_gorm, en_jwt = en_jwt E0, en_bcrypt = en_bcrypt E0, en_salt = en_salt E0,
      en_hash = en_hash E0, en_btrfs = set_world, en_cron = en_cron E0, en_uuid = en_uuid E0,
      en_rand = en_rand E0, en_getenv = en_getenv E0, en_off = 0\<rparr>"

lemma set_world_ok: "fs_ok set_world (\<lambda>x. x)"
  by (auto simp: fs_ok_def set_world_def ok_world_def snapshot_args_def delete_args_def send_args_def list_args_def)

lemma set_world_short: "lists_short set_world"
proof -
  have "short_lines data_listing"
    unfolding data_listing_def
    by (rule table_listing_short)
      (simp add: row_ok_def graphic_word_def gap_def newline_def ascii_spaces_def ascii_graphic_def)
  then show ?thesis by (simp add: lists_short_def set_world_def ok_world_def list_args_def)
qed

lemma unique_gorm_ok: "gorm_ok unique_gorm"
proof -
  have r: "table_ok s_ID (\<lambda>s. s_DeletedAt s = None) snap_norm (g_snaps ref_gorm)"
    by (rule gorm_okD(2) [OF ref_gorm_ok])
  have cl: "create_law s_ID snap_norm (g_snaps unique_gorm)"
    by (auto simp: create_law_def unique_gorm_def ref_gorm_def ref_table_def)
  have dl: "delete_law (\<lambda>s. s_DeletedAt s = None) (g_snaps unique_gorm)"
    unfolding delete_law_def
  proof (intro allI impI)
    fix q rows e rows'
    assume d: "g_Delete (g_snaps unique_gorm) q rows = (e, rows')"
    then have "e = None" "rows' = snd (g_Delete (g_snaps unique_gorm) q rows)" by (auto simp: unique_gorm_def)
    then show "case e of None \<Rightarrow> filter (\<lambda>s. s_DeletedAt s = None) rows' =
        filter (\<lambda>r. \<not> q r) (filter (\<lambda>s. s_DeletedAt s = None) rows) | Some x \<Rightarrow> rows' = rows"
      using unique_gorm_delete [of q rows] by simp
  qed
  have same: "g_Save (g_snaps unique_gorm) = g_Save (g_snaps ref_gorm)"
    "g_First (g_snaps unique_gorm) = g_First (g_snaps ref_gorm)" "g_Find (g_snaps unique_gorm) = g_Find (g_snaps ref_gorm)"
    "g_Update (g_snaps unique_gorm) = g_Update (g_snaps ref_gorm)"
    by (simp_all add: unique_gorm_def)
  have laws: "save_law s_ID snap_norm (g_snaps unique_gorm) = save_law s_ID snap_norm (g_snaps ref_gorm)"
    "first_law up (g_snaps unique_gorm) = first_law up (g_snaps ref_gorm)"
    "find_law up (g_snaps unique_gorm) = find_law up (g_snaps ref_gorm)"
    "update_law up snap_norm (g_snaps unique_gorm) = update_law up snap_norm (g_snaps ref_gorm)" for up
    by (simp_all only: save_law_def first_law_def find_law_def update_law_def same)
  have "table_ok s_ID (\<lambda>s. s_DeletedAt s = None) snap_norm (g_snaps unique_gorm)"
    using r cl dl unfolding table_ok_def laws by blast
  then show ?thesis
    using ref_gorm_ok by (simp add: gorm_ok_def unique_gorm_def)
qed

lemma files_env_ok: "store_ok files_env (\<lambda>x. x)"
proof -
  have "table_up (\<lambda>s. s_DeletedAt s = None) (g_snaps unique_gorm)"
    using ref_table_up [of "\<lambda>s. s_DeletedAt s = None" s_ID] unfolding table_up_def
    by (elim conjE, intro conjI) (simp_all add: unique_gorm_def ref_gorm_def)
  moreover have "unique_paths unique_gorm"
    by (auto simp: unique_paths_def unique_gorm_def split: if_splits)
  moreover have "soft_deletes unique_gorm"
    by (simp add: soft_deletes_def unique_gorm_def key_def)
  ultimately show ?thesis
    by (simp add: store_ok_def files_env_def set_world_ok unique_gorm_ok)
qed

lemma run_entry_db:
  "sv_db (run_entry E now e s) = sv_db s" "sv_created (run_entry E now e s) = sv_created s"
  "sv_deleted (run_entry E now e s) = sv_deleted s"
  by (simp_all add: run_entry_def split: option.split)

definition web_request :: create_req where
  "web_request = \<lparr>cq_NodeId = ''n1'', cq_SubvolumePath = ''/data'', cq_SnapshotName = ''web'', cq_Readonly = True\<rparr>"

definition files_server :: "(string set, nat \<times> (nat \<rightharpoonup> policy)) server" where
  "files_server = (newServer files_env demo_config empty_db {})\<lparr>sv_scheduler :=
     snd (AddPolicy ref_cron demo_policy (NewScheduler ref_cron))\<rparr>"

abbreviation web_events :: "unit server_event list" where
  "web_events \<equiv> [Create (\<lambda>_. 0) web_request, Watch (5 * minute), Fire (6 * minute) 1]"

lemmas web_run_defs =
  run_entry_db watchdog_tick_def check_def check_nodes_snaps rpc_CreateSnapshot_def CreateSnapshot_def
  set_world_def ok_world_def snapshot_args_def files_env_def generateID_def CreateSnapshotRow_def unique_gorm_def
  ref_gorm_def ref_table_def newServer_def empty_db_def new_snapshot_def web_request_def files_server_def

theorem rows_have_files_witness:
  "let (s', D) = snd (run (noted_step files_env ''1'') web_events (files_server, {}))
   in D = {} \<and> length (db_snaps (sv_db s')) = 1 \<and> (\<exists>r \<in> set (db_snaps (sv_db s')). s_SnapshotPath r \<in> sv_btrfs s')"
proof -
  obtain s' D where r: "snd (run (noted_step files_env ''1'') web_events (files_server, {})) = (s', D)"
    by (metis prod.collapse)
  have c: "consistent (\<lambda>x. x) {} (stock files_server)"
    by (simp add: consistent_def stock_def live_def files_server_def newServer_def empty_db_def)
  have "s' = snd (run (server_step files_env ''1'') web_events files_server)"
    using noted_server [of files_env "''1''" web_events files_server "{}"] r by simp
  then have n: "length (db_snaps (sv_db s')) = 1 \<and> (\<forall>r \<in> set (db_snaps (sv_db s')). s_DeletedAt r = None)"
    by (simp add: web_run_defs case_prod_unfold Let_def split: sum.split)
  then obtain q where q: "q \<in> set (db_snaps (sv_db s'))" "s_DeletedAt q = None"
    by (metis length_0_conv list.set_intros(1) neq_Nil_conv zero_neq_one)
  have "lists_short (en_btrfs files_env)" by (simp add: files_env_def set_world_short)
  with rows_have_files [OF files_env_ok c r] have "D = {}" "s_SnapshotPath q \<in> sv_btrfs s'" using q by blast+
  with n q r show ?thesis by auto
qed

theorem metrics_balance_witness:
  "let s' = snd (run (server_step files_env ''1'') [Create (\<lambda>_. 0) web_request :: unit server_event, Watch (5 * minute)]
              (newServer files_env demo_config empty_db {}))
   in sv_created s' = 1 \<and> ga_SnapshotsTotal (refresh_gauges files_env (sv_db s')
        \<lparr>ga_NodesOnline = 0, ga_SnapshotsTotal = 0, ga_PoliciesActive = 0\<rparr>) = 1"
proof -
  let ?evs = "[Create (\<lambda>_. 0) web_request :: unit server_event, Watch (5 * minute)]"
  let ?s' = "snd (run (server_step files_env ''1'') ?evs (newServer files_env demo_config empty_db {}))"
  let ?ga = "\<lparr>ga_NodesOnline = 0, ga_SnapshotsTotal = 0, ga_PoliciesActive = 0\<rparr>"
  have n: "sv_created ?s' = 1" "sv_deleted ?s' = 0"
    by (simp_all add: web_run_defs case_prod_unfold Let_def split: sum.split)
  have d: "distinct (map s_ID (live (db_snaps empty_db)))" by (simp add: live_def empty_db_def)
  have "ga_SnapshotsTotal (refresh_gauges files_env (sv_db ?s') ?ga) = 1"
    using metrics_balance [OF files_env_ok d refl, of "''1''" ?evs demo_config "{}" ?ga] n
    by (simp add: empty_db_def)
  then show ?thesis using n(1) by (simp only: Let_def)
qed

end
