(* ===== verification/Calls.thy ===== *)
theory Calls
  imports Inventory
begin

text \<open>
  Calls that overlap. The server runs every request in a goroutine of its own and holds no lock
  across the two methods that change snapshots, nor across a run of a policy; what is atomic is one
  command of btrfs and one statement of the database. Here these methods are cut at exactly those
  points, and any number of calls in flight take their steps in any order, between whole steps of
  the rest of the server.
\<close>

section \<open>The program points\<close>

datatype call =
    Creating "nat \<Rightarrow> time" create_req
  | Storing "nat \<Rightarrow> time" snapshot
  | Deleting string
  | Removing string snapshot
  | Erasing string
  | Running time policy
  | Listing policy
  | Pruning "string list"

datatype call_result =
    Created "goerror + pb_snapshot"
  | Deleted delete_resp
  | Ran

text \<open>One step of each: the call goes on, or it is done.\<close>

text \<open>\<open>CreateSnapshot\<close>: the command, the identifier, then the row.\<close>

definition step_Creating ::
    "('x, 'c) env \<Rightarrow> (nat \<Rightarrow> time) \<Rightarrow> create_req \<Rightarrow> ('x, 'c) server \<Rightarrow> (call + call_result) \<times> ('x, 'c) server" where
  "step_Creating E clk req s =
     (let snapPath = SnapshotPath (en_off E) (clk 0) (cq_SubvolumePath req) (cq_SnapshotName req);
          (err, x) = CreateSnapshot (en_btrfs E) (cq_SubvolumePath req) snapPath (cq_Readonly req) (sv_btrfs s);
          s1 = s\<lparr>sv_btrfs := x\<rparr>
      in case err of
           Some e \<Rightarrow> (Inr (Created (Inl e)), s1)
         | None \<Rightarrow>
             (let (i, s2) = generateID E s1
              in (Inl (Storing clk (new_snapshot i (cq_NodeId req) (cq_SubvolumePath req) snapPath (cq_Readonly req))), s2)))"

definition step_Storing ::
    "('x, 'c) env \<Rightarrow> (nat \<Rightarrow> time) \<Rightarrow> snapshot \<Rightarrow> ('x, 'c) server \<Rightarrow> (call + call_result) \<times> ('x, 'c) server" where
  "step_Storing E clk row s =
     (let (err, snap, d) = CreateSnapshotRow (en_gorm E) row (sv_db s);
          s1 = s\<lparr>sv_db := d\<rparr>
      in case err of
           Some e \<Rightarrow> (Inr (Created (Inl e)), s1)
         | None \<Rightarrow> (Inr (Created (Inr (snapshot_message (en_off E) (clk 1) snap))),
                    s1\<lparr>sv_created := Suc (sv_created s1)\<rparr>))"

text \<open>\<open>DeleteSnapshot\<close>: the lookup, the command, then the row.\<close>

definition step_Deleting ::
    "('x, 'c) env \<Rightarrow> string \<Rightarrow> ('x, 'c) server \<Rightarrow> (call + call_result) \<times> ('x, 'c) server" where
  "step_Deleting E i s =
     (case GetSnapshot (en_gorm E) i (sv_db s) of
        Inl _ \<Rightarrow> (Inr (Deleted \<lparr>dr_Success = False, dr_Message = ''snapshot not found''\<rparr>), s)
      | Inr snap \<Rightarrow> (Inl (Removing i snap), s))"

definition step_Removing ::
    "('x, 'c) env \<Rightarrow> string \<Rightarrow> snapshot \<Rightarrow> ('x, 'c) server \<Rightarrow> (call + call_result) \<times> ('x, 'c) server" where
  "step_Removing E i snap s =
     (let (err, x) = DeleteSnapshot (en_btrfs E) (s_SnapshotPath snap) (sv_btrfs s);
          s1 = s\<lparr>sv_btrfs := x\<rparr>
      in case err of
           Some e \<Rightarrow> (Inr (Deleted \<lparr>dr_Success = False, dr_Message = e\<rparr>), s1)
         | None \<Rightarrow> (Inl (Erasing i), s1))"

definition step_Erasing ::
    "('x, 'c) env \<Rightarrow> string \<Rightarrow> ('x, 'c) server \<Rightarrow> (call + call_result) \<times> ('x, 'c) server" where
  "step_Erasing E i s =
     (let s1 = s\<lparr>sv_db := snd (DeleteSnapshotRow (en_gorm E) i (sv_db s))\<rparr>
      in (Inr (Deleted \<lparr>dr_Success = True, dr_Message = ''deleted''\<rparr>), s1\<lparr>sv_deleted := Suc (sv_deleted s1)\<rparr>))"

text \<open>A run of a policy: the snapshot, the listing, then the deletions one by one.\<close>

definition step_Running ::
    "('x, 'c) env \<Rightarrow> time \<Rightarrow> policy \<Rightarrow> ('x, 'c) server \<Rightarrow> (call + call_result) \<times> ('x, 'c) server" where
  "step_Running E now p s =
     (let (err, x) = CreateSnapshot (en_btrfs E) (sp_SubvolumePath p)
            (SnapshotPath (en_off E) now (sp_SubvolumePath p) (sp_Name p)) (sp_ReadOnly p) (sv_btrfs s)
      in (case err of Some e \<Rightarrow> Inr Ran | None \<Rightarrow> Inl (Listing p), s\<lparr>sv_btrfs := x\<rparr>))"

definition step_Listing ::
    "('x, 'c) env \<Rightarrow> policy \<Rightarrow> ('x, 'c) server \<Rightarrow> (call + call_result) \<times> ('x, 'c) server" where
  "step_Listing E p s =
     (let (res, x) = ListSnapshots (en_btrfs E) (sp_SubvolumePath p) (sv_btrfs s)
      in (case res of
            Inl e \<Rightarrow> Inr Ran
          | Inr snaps \<Rightarrow> if length snaps \<le> max_to_keep p then Inr Ran
                         else Inl (Pruning (map si_Path (drop (max_to_keep p) snaps))),
          s\<lparr>sv_btrfs := x\<rparr>))"

fun step_Pruning ::
    "('x, 'c) env \<Rightarrow> string list \<Rightarrow> ('x, 'c) server \<Rightarrow> (call + call_result) \<times> ('x, 'c) server" where
  "step_Pruning E [] s = (Inr Ran, s)"
| "step_Pruning E (q # qs) s =
     (Inl (Pruning qs), s\<lparr>sv_btrfs := snd (DeleteSnapshot (en_btrfs E) q (sv_btrfs s))\<rparr>)"

fun call_step :: "('x, 'c) env \<Rightarrow> call \<Rightarrow> ('x, 'c) server \<Rightarrow> (call + call_result) \<times> ('x, 'c) server" where
  "call_step E (Creating clk req) s = step_Creating E clk req s"
| "call_step E (Storing clk row) s = step_Storing E clk row s"
| "call_step E (Deleting i) s = step_Deleting E i s"
| "call_step E (Removing i snap) s = step_Removing E i snap s"
| "call_step E (Erasing i) s = step_Erasing E i s"
| "call_step E (Running now p) s = step_Running E now p s"
| "call_step E (Listing p) s = step_Listing E p s"
| "call_step E (Pruning qs) s = step_Pruning E qs s"

lemmas step_defs [simp] = step_Creating_def step_Storing_def step_Deleting_def step_Removing_def
  step_Erasing_def step_Running_def step_Listing_def

section \<open>A call on its own\<close>

fun stage :: "call \<Rightarrow> nat" where
  "stage (Creating _ _) = 1"
| "stage (Storing _ _) = 0"
| "stage (Deleting _) = 2"
| "stage (Removing _ _) = 1"
| "stage (Erasing _) = 0"
| "stage (Running _ _) = 2"
| "stage (Listing _) = 1"
| "stage (Pruning _) = 0"

fun left :: "call \<Rightarrow> nat" where
  "left (Pruning qs) = length qs"
| "left _ = 0"

lemma call_step_smaller:
  assumes "call_step E c s = (Inl c', s')"
  shows "stage c' < stage c \<or> stage c' = stage c \<and> left c' < left c"
  using assms
  by (cases "(E, c, s)" rule: call_step.cases)
    (auto simp: Let_def case_prod_unfold split: option.splits sum.splits if_splits elim!: step_Pruning.elims)

text \<open>A call without others: it takes its steps until it is done.\<close>

function complete :: "('x, 'c) env \<Rightarrow> call \<Rightarrow> ('x, 'c) server \<Rightarrow> call_result \<times> ('x, 'c) server" where
  "complete E c s =
     (case call_step E c s of (Inl c', s') \<Rightarrow> complete E c' s' | (Inr r, s') \<Rightarrow> (r, s'))"
  by pat_completeness auto
termination
  by (relation "measures [\<lambda>(E, c, s). stage c, \<lambda>(E, c, s). left c]")
    (auto dest!: call_step_smaller [OF sym])

declare complete.simps [simp del]

lemma complete_pruning:
  "complete E (Pruning qs) s =
     (Ran, s\<lparr>sv_btrfs := fold (\<lambda>q x. snd (DeleteSnapshot (en_btrfs E) q x)) qs (sv_btrfs s)\<rparr>)"
  by (induction qs arbitrary: s) (simp_all add: complete.simps)

lemma complete_create:
  "complete E (Creating clk req) s = (let (r, s') = rpc_CreateSnapshot E clk req s in (Created r, s'))"
  by (simp add: complete.simps [of E "Creating _ _"] complete.simps [of E "Storing _ _"] rpc_CreateSnapshot_def
      generateID_def case_prod_unfold Let_def split: option.split)

lemma complete_delete:
  "complete E (Deleting i) s = (let (r, s') = rpc_DeleteSnapshot E i s in (Deleted r, s'))"
  by (simp add: complete.simps [of E "Deleting _"] complete.simps [of E "Removing _ _"]
      complete.simps [of E "Erasing _"] rpc_DeleteSnapshot_def case_prod_unfold Let_def split: option.split sum.split)

lemma complete_run:
  "complete E (Running now p) s =
     (Ran, s\<lparr>sv_btrfs := execute (en_btrfs E) (en_off E) now p (sv_btrfs s)\<rparr>)"
  by (simp add: complete.simps [of E "Running _ _"] complete.simps [of E "Listing _"] complete_pruning execute_def
      applyRetention_def delete_all_def fold_map o_def case_prod_unfold Let_def split: option.split sum.split)

text \<open>Cutting a method at its commands and statements loses nothing: a call that is not interrupted
  ends, with exactly the answer and the state of the method.\<close>

lemmas calls_alone = complete_create complete_delete complete_run

section \<open>Calls in flight\<close>

fun starts :: "call \<Rightarrow> bool" where
  "starts (Creating _ _) = True"
| "starts (Deleting _) = True"
| "starts (Running _ _) = True"
| "starts _ = False"

datatype 'r conc_event =
    Start call
  | Step nat
  | Whole "'r server_event"

fun conc_step :: "('x, 'c) env \<Rightarrow> string \<Rightarrow> 'r conc_event \<Rightarrow> ('x, 'c) server \<times> call list
     \<Rightarrow> call_result option \<times> ('x, 'c) server \<times> call list" where
  "conc_step E version (Start c) (s, cs) = (None, s, if starts c then cs @ [c] else cs)"
| "conc_step E version (Step k) (s, cs) =
     (if k < length cs
      then (case call_step E (cs ! k) s of
              (Inl c, s') \<Rightarrow> (None, s', cs[k := c])
            | (Inr r, s') \<Rightarrow> (Some r, s', take k cs @ drop (Suc k) cs))
      else (None, s, cs))"
| "conc_step E version (Whole e) (s, cs) = (None, snd (server_step E version e s), cs)"

text \<open>The paths whose deletion a step asks for in the name of retention, and a note of all of them.\<close>

definition conc_retired :: "('x, 'c) env \<Rightarrow> 'r conc_event \<Rightarrow> ('x, 'c) server \<times> call list \<Rightarrow> string set" where
  "conc_retired E e p =
     (case e of
        Start c \<Rightarrow> {}
      | Step k \<Rightarrow> if k < length (snd p) then (case snd p ! k of Pruning (q # qs) \<Rightarrow> {q} | _ \<Rightarrow> {}) else {}
      | Whole w \<Rightarrow> retired E w (fst p))"

definition conc_noted ::
    "('x, 'c) env \<Rightarrow> string \<Rightarrow> 'r conc_event \<Rightarrow> (('x, 'c) server \<times> call list) \<times> string set
     \<Rightarrow> call_result option \<times> (('x, 'c) server \<times> call list) \<times> string set" where
  "conc_noted E version e pD =
     (let (out, p') = conc_step E version e (fst pD) in (out, p', snd pD \<union> conc_retired E e (fst pD)))"

text \<open>
  What holds between any two steps: a listed row has its file, or a call is about to erase it, or
  retention (\<open>D\<close>) has asked to delete the file. The other clauses say what the calls in flight know:
  the row they found is, or was, a row with this identifier and path; the file they made is there,
  or its path is taken by a row, or is one of \<open>D\<close>.
\<close>

definition guarded :: "('x \<Rightarrow> string set) \<Rightarrow> string set \<Rightarrow> 'x stock \<Rightarrow> call set \<Rightarrow> bool" where
  "guarded paths D k C \<longleftrightarrow> (case k of (rows, x, c, d) \<Rightarrow>
     (\<forall>r \<in> set (live rows). s_SnapshotPath r \<in> paths x \<union> D \<or> Erasing (s_ID r) \<in> C) \<and>
     (\<forall>i j q. (i, q) \<in> key ` set rows \<and> (j, q) \<in> key ` set rows \<longrightarrow> i = j) \<and>
     (\<forall>i snap. Removing i snap \<in> C \<longrightarrow> (i, s_SnapshotPath snap) \<in> key ` set rows) \<and>
     (\<forall>clk row. Storing clk row \<in> C \<longrightarrow> s_DeletedAt row = None \<and>
        (s_SnapshotPath row \<in> paths x \<union> D \<or> s_SnapshotPath row \<in> s_SnapshotPath ` set rows)))"

lemma guardedI:
  assumes "\<And>r. r \<in> set (live rows) \<Longrightarrow> s_SnapshotPath r \<notin> paths x \<union> D \<Longrightarrow> Erasing (s_ID r) \<in> C"
    and "\<And>i j q. (i, q) \<in> key ` set rows \<Longrightarrow> (j, q) \<in> key ` set rows \<Longrightarrow> i = j"
    and "\<And>i snap. Removing i snap \<in> C \<Longrightarrow> (i, s_SnapshotPath snap) \<in> key ` set rows"
    and "\<And>clk row. Storing clk row \<in> C \<Longrightarrow> s_DeletedAt row = None \<and>
        (s_SnapshotPath row \<in> paths x \<union> D \<or> s_SnapshotPath row \<in> s_SnapshotPath ` set rows)"
  shows "guarded paths D (rows, x, c, d) C"
  unfolding guarded_def prod.case using assms by blast

lemma guardedD:
  assumes "guarded paths D (rows, x, c, d) C"
  shows "r \<in> set (live rows) \<Longrightarrow> s_SnapshotPath r \<in> paths x \<union> D \<or> Erasing (s_ID r) \<in> C"
    "(i, q) \<in> key ` set rows \<Longrightarrow> (j, q) \<in> key ` set rows \<Longrightarrow> i = j"
    "Removing i snap \<in> C \<Longrightarrow> (i, s_SnapshotPath snap) \<in> key ` set rows"
    "Storing clk row \<in> C \<Longrightarrow> s_DeletedAt row = None \<and>
        (s_SnapshotPath row \<in> paths x \<union> D \<or> s_SnapshotPath row \<in> s_SnapshotPath ` set rows)"
  using assms unfolding guarded_def prod.case by blast+

text \<open>The counters do not matter, files may come, those of \<open>D\<close> may go, and calls that hold nothing may
  come and go.\<close>

definition holds :: "call \<Rightarrow> bool" where
  "holds c \<longleftrightarrow> (case c of Storing _ _ \<Rightarrow> True | Removing _ _ \<Rightarrow> True | Erasing _ \<Rightarrow> True | _ \<Rightarrow> False)"

lemma guarded_mono:
  assumes g: "guarded paths D (rows, x, c, d) C" and x: "paths x \<subseteq> paths x' \<union> D'" "D \<subseteq> D'"
    and C: "\<And>e. e \<in> C' \<Longrightarrow> holds e \<Longrightarrow> e \<in> C" "\<And>i. Erasing i \<in> C \<Longrightarrow> Erasing i \<in> C'"
  shows "guarded paths D' (rows, x', c', d') C'"
proof (rule guardedI)
  have sub: "paths x \<union> D \<subseteq> paths x' \<union> D'" using x by blast
  show "Erasing (s_ID r) \<in> C'" if "r \<in> set (live rows)" "s_SnapshotPath r \<notin> paths x' \<union> D'" for r
    using guardedD(1) [OF g that(1)] that(2) sub C(2) by blast
  show "i = j" if "(i, q) \<in> key ` set rows" "(j, q) \<in> key ` set rows" for i j q
    using guardedD(2) [OF g that] .
  show "(i, s_SnapshotPath snap) \<in> key ` set rows" if "Removing i snap \<in> C'" for i snap
    using guardedD(3) [OF g] C(1) [OF that] by (simp add: holds_def)
  show "s_DeletedAt row = None \<and> (s_SnapshotPath row \<in> paths x' \<union> D' \<or> s_SnapshotPath row \<in> s_SnapshotPath ` set rows)"
    if "Storing clk row \<in> C'" for clk row
    using guardedD(4) [OF g C(1) [OF that]] sub by (auto simp: holds_def)
qed

lemma key_path: "(i, q) \<in> key ` set rows \<Longrightarrow> q \<in> s_SnapshotPath ` set rows"
  by (auto simp: key_def)

lemma live_key: "r \<in> set (live rows) \<Longrightarrow> (s_ID r, s_SnapshotPath r) \<in> key ` set rows"
  by (auto simp: key_def live_set)

lemma same_keys:
  assumes "map key rows' = map key rows"
  shows "key ` set rows' = key ` set rows" "s_SnapshotPath ` set rows' = s_SnapshotPath ` set rows"
proof -
  show k: "key ` set rows' = key ` set rows" using assms by (metis list.set_map)
  have "s_SnapshotPath ` A = snd ` key ` A" for A by (auto simp: key_def image_image)
  then show "s_SnapshotPath ` set rows' = s_SnapshotPath ` set rows" using k by metis
qed

text \<open>A new row, whose file is there or was given up, and any step that has the effect of a whole
  request.\<close>

lemma guarded_added:
  assumes g: "guarded paths D (rows, x, c, d) C" and x: "paths x \<subseteq> paths x'" "D \<subseteq> D'"
    and fresh: "s_SnapshotPath snap \<notin> s_SnapshotPath ` set rows" and there: "s_SnapshotPath snap \<in> paths x' \<union> D'"
  shows "guarded paths D' (rows @ [snap], x', c', d') C"
proof (rule guardedI)
  have keys: "key ` set (rows @ [snap]) = insert (s_ID snap, s_SnapshotPath snap) (key ` set rows)"
    by (simp add: key_def)
  have new: "(i, s_SnapshotPath snap) \<notin> key ` set rows" for i using fresh key_path by blast
  show "Erasing (s_ID r) \<in> C" if "r \<in> set (live (rows @ [snap]))" "s_SnapshotPath r \<notin> paths x' \<union> D'" for r
    using that guardedD(1) [OF g, of r] x there by (auto split: if_splits)
  show "i = j" if "(i, q) \<in> key ` set (rows @ [snap])" "(j, q) \<in> key ` set (rows @ [snap])" for i j q
    using that guardedD(2) [OF g, of i q j] new unfolding keys by auto
  show "(i, s_SnapshotPath sn) \<in> key ` set (rows @ [snap])" if "Removing i sn \<in> C" for i sn
    using guardedD(3) [OF g that] by auto
  show "s_DeletedAt row = None \<and>
      (s_SnapshotPath row \<in> paths x' \<union> D' \<or> s_SnapshotPath row \<in> s_SnapshotPath ` set (rows @ [snap]))"
    if "Storing clk row \<in> C" for clk row
    using guardedD(4) [OF g that] x by auto
qed

lemma guarded_effect:
  "effect paths V k k' \<Longrightarrow> guarded paths D k C \<Longrightarrow> guarded paths (D \<union> V) k' C"
proof (induction rule: effect.induct)
  case (pruned x x' rows c d)
  have "paths x \<subseteq> paths x' \<union> (D \<union> V)" using pruned(1) by blast
  then show ?case by (rule guarded_mono [OF pruned(2)]) simp_all
next
  case (added snap rows x x' c d)
  then show ?case by (intro guarded_added [OF added(6,4)]) auto
next
  case (removed snap rows rows' x x' c d)
  note g = removed(5) and keys = same_keys [OF removed(3)]
  show ?case
  proof (rule guardedI)
    fix r assume r: "r \<in> set (live rows')" "s_SnapshotPath r \<notin> paths x' \<union> (D \<union> V)"
    then have "r \<in> set (live rows)" "s_ID r \<noteq> s_ID snap" using removed(2) by simp_all
    moreover from this have "s_SnapshotPath r \<noteq> s_SnapshotPath snap"
      using guardedD(2) [OF g] live_key removed(1) by metis
    ultimately show "Erasing (s_ID r) \<in> C" using guardedD(1) [OF g, of r] r(2) removed(4) by blast
  next
    show "s_DeletedAt row = None \<and> (s_SnapshotPath row \<in> paths x' \<union> (D \<union> V) \<or> s_SnapshotPath row \<in> s_SnapshotPath ` set rows')"
      if "Storing clk row \<in> C" for clk row
      using guardedD(4) [OF g that] removed(4) key_path [OF live_key [OF removed(1)]] unfolding keys(2) by auto
    show "i = j" if "(i, q) \<in> key ` set rows'" "(j, q) \<in> key ` set rows'" for i j q
      using that guardedD(2) [OF g] unfolding keys(1) by blast
    show "(i, s_SnapshotPath sn) \<in> key ` set rows'" if "Removing i sn \<in> C" for i sn
      using that guardedD(3) [OF g] unfolding keys(1) by blast
  qed
qed

text \<open>The steps of the calls, one program point at a time.\<close>

lemma guarded_drop: "guarded paths D (rows, x, c, d) (insert e C) \<Longrightarrow> paths x \<subseteq> paths x' \<union> D' \<Longrightarrow> D \<subseteq> D' \<Longrightarrow>
    (\<And>i. e \<noteq> Erasing i) \<Longrightarrow> guarded paths D' (rows, x', c', d') C"
  by (erule guarded_mono) auto

lemma guarded_storing:
  "guarded paths D (rows, x, c, d) C \<Longrightarrow> s_DeletedAt row = None \<Longrightarrow> s_SnapshotPath row \<in> paths x \<Longrightarrow>
     guarded paths D (rows, x, c, d) (insert (Storing clk row) C)"
  unfolding guarded_def prod.case by auto

lemma guarded_removing:
  "guarded paths D (rows, x, c, d) C \<Longrightarrow> (i, s_SnapshotPath snap) \<in> key ` set rows \<Longrightarrow>
     guarded paths D (rows, x, c, d) (insert (Removing i snap) C)"
  unfolding guarded_def prod.case by auto

lemma guarded_passive:
  "guarded paths D (rows, x, c, d) C \<Longrightarrow> \<not> holds e \<Longrightarrow> guarded paths D (rows, x, c, d) (insert e C)"
  by (erule guarded_mono) auto

abbreviation guarded_after :: "('x \<Rightarrow> string set) \<Rightarrow> string set \<Rightarrow> call set \<Rightarrow> (call + call_result) \<times> ('x, 'c) server \<Rightarrow> bool" where
  "guarded_after paths D C o' \<equiv>
     guarded paths D (stock (snd o')) (case fst o' of Inl c \<Rightarrow> insert c C | Inr _ \<Rightarrow> C)"

lemma creating_guarded:
  assumes ok: "store_ok E paths" and g: "guarded paths D (stock s) (insert (Creating clk req) C)"
  shows "guarded_after paths D C (call_step E (Creating clk req) s)"
proof -
  let ?path = "SnapshotPath (en_off E) (clk 0) (cq_SubvolumePath req) (cq_SnapshotName req)"
  obtain err x where c: "CreateSnapshot (en_btrfs E) (cq_SubvolumePath req) ?path (cq_Readonly req) (sv_btrfs s) = (err, x)"
    by (metis prod.collapse)
  note fs = fs_okD(1,2) [OF store_okD(1) [OF ok]]
  have "paths (sv_btrfs s) \<subseteq> paths x \<union> D" using fs(1) c by (metis snd_conv subsetI UnI1)
  from guarded_drop [OF g [unfolded stock_def] this]
  have g': "guarded paths D (db_snaps (sv_db s), x, sv_created s, sv_deleted s) C" by simp
  show ?thesis
  proof (cases err)
    case None
    then have "?path \<in> paths x" using fs(2) c by (metis fst_conv snd_conv)
    then show ?thesis
      using guarded_storing [OF g'] c None by (simp add: stock_def generateID_def new_snapshot_def)
  next
    case (Some e)
    then show ?thesis using g' c by (simp add: stock_def)
  qed
qed

lemma storing_guarded:
  assumes ok: "store_ok E paths" and g: "guarded paths D (stock s) (insert (Storing clk row) C)"
  shows "guarded_after paths D C (call_step E (Storing clk row) s)"
proof -
  obtain err snap rows where c: "g_Create (g_snaps (en_gorm E)) row (db_snaps (sv_db s)) = (err, snap, rows)"
    by (metis prod_cases3)
  have g': "guarded paths D (db_snaps (sv_db s), sv_btrfs s, sv_created s, sv_deleted s) C"
    using guarded_drop [OF g [unfolded stock_def]] by simp
  note row = guardedD(4) [OF g [unfolded stock_def], of clk row]
  note st = store_row [OF ok c]
  show ?thesis
  proof (cases err)
    case None
    then have e: "rows = db_snaps (sv_db s) @ [snap]" "s_DeletedAt snap = None" "s_ID snap \<notin> s_ID ` set (db_snaps (sv_db s))"
      "s_SnapshotPath snap \<notin> s_SnapshotPath ` set (db_snaps (sv_db s))" "s_SnapshotPath snap = s_SnapshotPath row"
      using st(2) row [OF insertI1] by metis+
    have "s_SnapshotPath snap \<in> paths (sv_btrfs s) \<union> D" using row [OF insertI1] e(4,5) by simp
    from guarded_added [OF g' subset_refl subset_refl e(4) this] show ?thesis
      using None e(1) c by (simp add: stock_def CreateSnapshotRow_def)
  next
    case (Some e)
    then show ?thesis using st(1) row [OF insertI1] g' c by (simp add: stock_def CreateSnapshotRow_def)
  qed
qed

lemma deleting_guarded:
  assumes ok: "store_ok E paths" and g: "guarded paths D (stock s) (insert (Deleting i) C)"
  shows "guarded_after paths D C (call_step E (Deleting i) s)"
proof -
  have g': "guarded paths D (db_snaps (sv_db s), sv_btrfs s, sv_created s, sv_deleted s) C"
    using guarded_drop [OF g [unfolded stock_def]] by simp
  show ?thesis
  proof (cases "GetSnapshot (en_gorm E) i (sv_db s)")
    case (Inr snap)
    from live_key [OF found_row(1) [OF ok this]] found_row(2) [OF ok this]
    show ?thesis using guarded_removing [OF g', of i snap] Inr by (simp add: stock_def)
  qed (use g' in \<open>simp add: stock_def\<close>)
qed

lemma removing_guarded:
  assumes ok: "store_ok E paths" and g: "guarded paths D (stock s) (insert (Removing i snap) C)"
  shows "guarded_after paths D C (call_step E (Removing i snap) s)"
proof -
  let ?rows = "db_snaps (sv_db s)" and ?p = "s_SnapshotPath snap"
  obtain err x where d: "DeleteSnapshot (en_btrfs E) ?p (sv_btrfs s) = (err, x)" by (metis prod.collapse)
  note g0 = g [unfolded stock_def]
  note fs = fs_okD(3,4) [OF store_okD(1) [OF ok], of _ "sv_btrfs s" ?p, unfolded d fst_conv snd_conv]
  have found: "(i, ?p) \<in> key ` set ?rows" using guardedD(3) [OF g0] by simp
  have "guarded paths D (?rows, x, sv_created s, sv_deleted s) (insert (Erasing i) C)" if "err = None"
  proof (rule guardedI)
    fix r assume r: "r \<in> set (live ?rows)" "s_SnapshotPath r \<notin> paths x \<union> D"
    show "Erasing (s_ID r) \<in> insert (Erasing i) C"
    proof (cases "s_SnapshotPath r = ?p")
      case True
      then show ?thesis using guardedD(2) [OF g0 found, of "s_ID r"] live_key [OF r(1)] by simp
    next
      case False
      then show ?thesis using guardedD(1) [OF g0 r(1)] fs(1) r(2) by auto
    qed
  next
    show "s_DeletedAt row = None \<and> (s_SnapshotPath row \<in> paths x \<union> D \<or> s_SnapshotPath row \<in> s_SnapshotPath ` set ?rows)"
      if "Storing clk row \<in> insert (Erasing i) C" for clk row
      using guardedD(4) [OF g0, of clk row] that fs(1) [of "s_SnapshotPath row"] key_path [OF found]
      by (cases "s_SnapshotPath row = ?p") (simp, blast)
  qed (use guardedD(2,3) [OF g0] in auto)
  moreover have "guarded paths D (?rows, x, sv_created s, sv_deleted s) C" if "err \<noteq> None"
    using guarded_drop [OF g0, of x D] fs(2) that by auto
  ultimately show ?thesis using d by (cases err) (simp_all add: stock_def)
qed

lemma erasing_guarded:
  assumes ok: "store_ok E paths" and g: "guarded paths D (stock s) (insert (Erasing i) C)"
  shows "guarded_after paths D C (call_step E (Erasing i) s)"
proof -
  define rows where "rows = snd (g_Delete (g_snaps (en_gorm E)) (\<lambda>r. s_ID r = i) (db_snaps (sv_db s)))"
  note g0 = g [unfolded stock_def] and e = erase_row [OF ok rows_def] and keys = same_keys [OF erase_row(2) [OF ok rows_def]]
  have "guarded paths D (rows, sv_btrfs s, sv_created s, Suc (sv_deleted s)) C"
  proof (rule guardedI)
    show "Erasing (s_ID r) \<in> C" if "r \<in> set (live rows)" "s_SnapshotPath r \<notin> paths (sv_btrfs s) \<union> D" for r
      using guardedD(1) [OF g0, of r] that e(1) by simp
    show "s_DeletedAt row = None \<and>
        (s_SnapshotPath row \<in> paths (sv_btrfs s) \<union> D \<or> s_SnapshotPath row \<in> s_SnapshotPath ` set rows)"
      if "Storing clk row \<in> C" for clk row
      using guardedD(4) [OF g0, of clk row] that unfolding keys(2) by simp
  qed (use guardedD(2,3) [OF g0] in \<open>simp_all only: keys insert_iff call.distinct, blast+\<close>)
  then show ?thesis by (simp add: stock_def DeleteSnapshotRow_def rows_def case_prod_unfold Let_def)
qed

lemma running_guarded:
  assumes ok: "store_ok E paths"
  shows "guarded paths D (stock s) (insert (Running now p) C) \<Longrightarrow> guarded_after paths D C (call_step E (Running now p) s)"
    "guarded paths D (stock s) (insert (Listing p) C) \<Longrightarrow> guarded_after paths D C (call_step E (Listing p) s)"
proof -
  note fs = store_okD(1) [OF ok]
  assume g: "guarded paths D (stock s) (insert (Running now p) C)"
  let ?r = "CreateSnapshot (en_btrfs E) (sp_SubvolumePath p)
    (SnapshotPath (en_off E) now (sp_SubvolumePath p) (sp_Name p)) (sp_ReadOnly p) (sv_btrfs s)"
  have "paths (sv_btrfs s) \<subseteq> paths (snd ?r) \<union> D" using fs_okD(1) [OF fs] by blast
  from guarded_drop [OF g [unfolded stock_def] this]
  have "guarded paths D (db_snaps (sv_db s), snd ?r, sv_created s, sv_deleted s) C" by simp
  then show "guarded_after paths D C (call_step E (Running now p) s)"
    using guarded_passive [of paths D _ _ _ _ C "Listing p"]
    by (cases "fst ?r") (simp_all add: stock_def holds_def case_prod_unfold Let_def)
next
  note fs = store_okD(1) [OF ok]
  assume g: "guarded paths D (stock s) (insert (Listing p) C)"
  let ?r = "ListSnapshots (en_btrfs E) (sp_SubvolumePath p) (sv_btrfs s)"
  have "paths (sv_btrfs s) \<subseteq> paths (snd ?r) \<union> D" using fs_okD(6) [OF fs] by blast
  from guarded_drop [OF g [unfolded stock_def] this]
  have g': "guarded paths D (db_snaps (sv_db s), snd ?r, sv_created s, sv_deleted s) C" by simp
  have "guarded paths D (db_snaps (sv_db s), snd ?r, sv_created s, sv_deleted s) (insert (Pruning qs) C)" for qs
    by (rule guarded_passive [OF g']) (simp add: holds_def)
  with g' show "guarded_after paths D C (call_step E (Listing p) s)"
    by (cases "fst ?r") (simp_all add: stock_def case_prod_unfold Let_def)
qed

lemma pruning_guarded:
  assumes ok: "store_ok E paths" and g: "guarded paths D (stock s) (insert (Pruning qs) C)"
  shows "guarded_after paths (D \<union> set (take 1 qs)) C (call_step E (Pruning qs) s)"
proof (cases qs)
  case Nil
  have "guarded paths D (db_snaps (sv_db s), sv_btrfs s, sv_created s, sv_deleted s) C"
    using guarded_drop [OF g [unfolded stock_def]] by simp
  then show ?thesis using Nil by (simp add: stock_def)
next
  case (Cons q qs')
  let ?x = "snd (DeleteSnapshot (en_btrfs E) q (sv_btrfs s))"
  have "paths (sv_btrfs s) \<subseteq> paths ?x \<union> insert q D" using fs_okD(3) [OF store_okD(1) [OF ok]] by blast
  from guarded_drop [OF g [unfolded stock_def] this]
  have "guarded paths (insert q D) (db_snaps (sv_db s), ?x, sv_created s, sv_deleted s) C" by auto
  then have "guarded paths (insert q D) (db_snaps (sv_db s), ?x, sv_created s, sv_deleted s) (insert (Pruning qs') C)"
    by (rule guarded_passive) (simp add: holds_def)
  then show ?thesis using Cons by (simp add: stock_def)
qed

lemma call_step_guarded:
  assumes ok: "store_ok E paths" and g: "guarded paths D (stock s) (insert c C)"
  shows "guarded_after paths (D \<union> (case c of Pruning qs \<Rightarrow> set (take 1 qs) | _ \<Rightarrow> {})) C (call_step E c s)"
  using g creating_guarded [OF ok] storing_guarded [OF ok] deleting_guarded [OF ok] removing_guarded [OF ok]
    erasing_guarded [OF ok] running_guarded [OF ok] pruning_guarded [OF ok]
  by (cases c) (simp_all only: call.case Un_empty_right)

section \<open>Any interleaving\<close>

lemma prune_head: "(case qs of [] \<Rightarrow> {} | q # _ \<Rightarrow> {q}) = set (take 1 qs)"
  by (cases qs) simp_all

lemma conc_noted_guarded:
  assumes "store_ok E paths" "guarded paths D (stock s) (set cs)"
    and "snd (conc_noted E version e ((s, cs), D)) = ((s', cs'), D')"
  shows "guarded paths D' (stock s') (set cs')"
proof (cases e)
  case (Start c)
  have "\<not> holds c" if "starts c" using that by (cases c) (simp_all add: holds_def)
  then show ?thesis
    using assms(2,3) Start guarded_passive
    by (cases "stock s") (auto simp: conc_noted_def conc_retired_def split: if_splits)
next
  case (Whole w)
  then show ?thesis
    using guarded_effect [OF server_step_effect [OF assms(1)] assms(2)] assms(3)
    by (auto simp: conc_noted_def conc_retired_def)
next
  case (Step k)
  show ?thesis
  proof (cases "k < length cs")
    case True
    let ?rest = "set (take k cs @ drop (Suc k) cs)"
    have cs: "cs = take k cs @ cs ! k # drop (Suc k) cs" by (rule id_take_nth_drop [OF True])
    then have "set cs = insert (cs ! k) ?rest" by (metis Un_insert_right list.simps(15) set_append)
    with assms(2) have g: "guarded_after paths
        (D \<union> (case cs ! k of Pruning qs \<Rightarrow> set (take 1 qs) | _ \<Rightarrow> {})) ?rest (call_step E (cs ! k) s)"
      by (intro call_step_guarded [OF assms(1)]) simp
    have "D' = D \<union> (case cs ! k of Pruning qs \<Rightarrow> set (take 1 qs) | _ \<Rightarrow> {})"
      using True Step assms(3)
      by (cases "cs ! k") (auto simp: conc_noted_def conc_retired_def prune_head case_prod_unfold Let_def)
    with g have "guarded_after paths D' ?rest (call_step E (cs ! k) s)" by simp
    moreover have "set (cs[k := c]) = insert c ?rest" for c
      using True by (simp add: upd_conv_take_nth_drop)
    ultimately show ?thesis
      using True Step assms(3) by (auto simp: conc_noted_def case_prod_unfold Let_def split: sum.splits)
  qed (use assms(2,3) Step in \<open>simp add: conc_noted_def conc_retired_def\<close>)
qed

interpretation concurrent: machine "conc_noted E version" "\<lambda>_ _. store_ok E paths"
    "\<lambda>p. guarded paths (snd p) (stock (fst (fst p))) (set (snd (fst p)))"
  for E :: "('x, 'c) env" and version and paths :: "'x \<Rightarrow> string set"
  by unfold_locales (metis conc_noted_guarded prod.collapse)

text \<open>With listings that the parser skips retention has nothing to do.\<close>

definition unpruned :: "call list \<Rightarrow> bool" where
  "unpruned cs \<longleftrightarrow> (\<forall>q qs. Pruning (q # qs) \<notin> set cs)"

lemma call_step_unpruned:
  assumes "lists_short (en_btrfs E)" "call_step E c s = (Inl c', s')" "\<forall>q qs. c \<noteq> Pruning (q # qs)"
  shows "c' \<noteq> Pruning (q # qs)"
proof (cases c)
  case (Listing p)
  have "retention_paths (en_btrfs E) p (sv_btrfs s) = []" by (rule retention_idle [OF assms(1)])
  then show ?thesis
    using assms(2) Listing
    by (auto simp: retention_paths_def case_prod_unfold Let_def split: sum.splits if_splits)
next
  case (Pruning qs)
  then show ?thesis using assms(2,3) by (cases qs) auto
qed (use assms(2) in \<open>auto simp: case_prod_unfold Let_def split: option.splits sum.splits if_splits\<close>)

lemma conc_noted_unpruned:
  assumes "lists_short (en_btrfs E)" "unpruned (snd (fst pD))"
  shows "snd (snd (conc_noted E version e pD)) = snd pD \<and> unpruned (snd (fst (snd (conc_noted E version e pD))))"
proof -
  obtain s cs D where p: "pD = ((s, cs), D)" by (metis prod.collapse)
  have u: "unpruned cs" using assms(2) p by simp
  show ?thesis
  proof (cases e)
    case (Start c)
    have "\<forall>q qs. c \<noteq> Pruning (q # qs)" if "starts c" using that by (cases c) simp_all
    then show ?thesis using u Start p by (auto simp: conc_noted_def conc_retired_def unpruned_def)
  next
    case (Whole w)
    then show ?thesis using u p by (simp add: conc_noted_def conc_retired_def retired_idle [OF assms(1)])
  next
    case (Step k)
    show ?thesis
    proof (cases "k < length cs")
      case True
      have k: "\<forall>q qs. cs ! k \<noteq> Pruning (q # qs)" using u True nth_mem [OF True] by (metis unpruned_def)
      have "set (take k cs @ drop (Suc k) cs) \<subseteq> set cs"
        by (auto dest: in_set_takeD in_set_dropD)
      then have drop: "unpruned (take k cs @ drop (Suc k) cs)" using u by (auto simp: unpruned_def)
      have upd: "unpruned (cs[k := c])" if "call_step E (cs ! k) s = (Inl c, s')" for c s'
      proof -
        have "c \<noteq> Pruning (q # qs)" for q qs by (rule call_step_unpruned [OF assms(1) that k])
        then show ?thesis using u set_update_subset_insert [of cs k c] unfolding unpruned_def by blast
      qed
      have "conc_retired E (Step k) (s, cs) = {}"
        using k by (auto simp: conc_retired_def split: call.split list.split)
      then show ?thesis
        using True Step p drop upd
        by (cases "call_step E (cs ! k) s"; cases "fst (call_step E (cs ! k) s)") (auto simp: conc_noted_def)
    qed (use u Step p in \<open>simp add: conc_noted_def conc_retired_def\<close>)
  qed
qed

lemma run_unpruned:
  assumes "lists_short (en_btrfs E)" "unpruned (snd (fst pD))"
  shows "snd (snd (run (conc_noted E version) evs pD)) = snd pD"
  using assms(2)
proof (induction evs arbitrary: pD)
  case (Cons e evs)
  from conc_noted_unpruned [OF assms(1) Cons.prems, of version e] Cons.IH show ?case by simp
qed simp

text \<open>C12: Overlapping calls part no row from its file for longer than a step. Let the file system hold
  a snapshot that was made and lose none but the one deleted, and the database be up, keep the paths of snapshots unique, and
  delete a row by marking it; at the start every listed snapshot has its file and no path belongs to
  two rows, marked ones included. However the commands and statements of any number of creations,
  deletions and runs of policies with their retention interleave with each other and with the rest
  of the server, at every moment a listed snapshot has its file, or a call that has just removed the
  file is about to erase the row, or retention has asked btrfs to delete that path. If every line
  of every listing is one the parser skips, as with paths of at most four words, no such path
  exists.\<close>

theorem concurrent_rows_have_files:
  assumes "store_ok E paths"
    and "\<forall>r \<in> set (db_snaps (sv_db s)). s_DeletedAt r = None \<longrightarrow> s_SnapshotPath r \<in> paths (sv_btrfs s)"
    and "\<forall>r \<in> set (db_snaps (sv_db s)). \<forall>r' \<in> set (db_snaps (sv_db s)).
           s_SnapshotPath r = s_SnapshotPath r' \<longrightarrow> s_ID r = s_ID r'"
    and "snd (run (conc_noted E version) evs ((s, []), {})) = ((s', cs), retired_paths)"
  shows "(\<forall>r \<in> set (db_snaps (sv_db s')). s_DeletedAt r = None \<longrightarrow>
      s_SnapshotPath r \<in> paths (sv_btrfs s') \<or> Erasing (s_ID r) \<in> set cs \<or> s_SnapshotPath r \<in> retired_paths) \<and>
    (lists_short (en_btrfs E) \<longrightarrow> retired_paths = {})"
proof -
  have "guarded paths {} (stock s) (set [])"
    unfolding stock_def
  proof (rule guardedI)
    show "Erasing (s_ID r) \<in> set []" if "r \<in> set (live (db_snaps (sv_db s)))" "s_SnapshotPath r \<notin> paths (sv_btrfs s) \<union> {}" for r
      using that assms(2) by (simp add: live_set)
    show "i = j" if "(i, q) \<in> key ` set (db_snaps (sv_db s))" "(j, q) \<in> key ` set (db_snaps (sv_db s))" for i j q
      using that assms(3) unfolding key_def by blast
  qed simp_all
  then have "guarded paths (snd ((s, []), {})) (stock (fst (fst ((s, []), {})))) (set (snd (fst ((s, []), {}))))" by simp
  from concurrent.run_inv [OF this valid_run_constant [OF assms(1)], of version evs]
  have g: "guarded paths retired_paths (stock s') (set cs)" unfolding assms(4) by simp
  have "\<forall>r \<in> set (db_snaps (sv_db s')). s_DeletedAt r = None \<longrightarrow>
      s_SnapshotPath r \<in> paths (sv_btrfs s') \<or> Erasing (s_ID r) \<in> set cs \<or> s_SnapshotPath r \<in> retired_paths"
    using guardedD(1) [OF g [unfolded stock_def]] by (auto simp: live_set)
  moreover have "lists_short (en_btrfs E) \<longrightarrow> retired_paths = {}"
    using run_unpruned [of E "((s, []), {})" version evs] assms(4) by (auto simp: unpruned_def)
  ultimately show ?thesis by blast
qed

section \<open>A server that dies in between\<close>

text \<open>btrfs refuses to delete a subvolume that does not exist.\<close>

definition refuses_missing :: "'x btrfs_cmd \<Rightarrow> ('x \<Rightarrow> string set) \<Rightarrow> bool" where
  "refuses_missing X paths \<longleftrightarrow> (\<forall>p x. p \<notin> paths x \<longrightarrow> cr_fail (fst (X (delete_args p) [] x)) \<noteq> None)"

text \<open>C14: A row without its file cannot be deleted. If the server is killed while a call is between the
  removal of the file and that of its row, the server that is started on what is left still lists
  the snapshot; a request to delete it is refused by btrfs, and leaves the database as it is.\<close>

theorem orphan_row_stays:
  assumes "store_ok E paths" "refuses_missing (en_btrfs E) paths"
    and "r \<in> set (db_snaps (sv_db s'))" "s_DeletedAt r = None" "s_SnapshotPath r \<notin> paths (sv_btrfs s')"
    and "\<forall>q \<in> set (db_snaps (sv_db s')). s_ID q = s_ID r \<longrightarrow> s_SnapshotPath q = s_SnapshotPath r"
    and "s = newServer E cfg (sv_db s') (sv_btrfs s')"
  shows "\<not> dr_Success (fst (rpc_DeleteSnapshot E (s_ID r) s)) \<and>
    sv_db (snd (rpc_DeleteSnapshot E (s_ID r) s)) = sv_db s \<and>
    (\<exists>rows. ListSnapshotRows (en_gorm E) [] (sv_db s) = Inr rows \<and> r \<in> set rows)"
proof -
  have s: "sv_db s = sv_db s'" "sv_btrfs s = sv_btrfs s'" by (simp_all add: assms(7) newServer_def)
  have del: "\<not> dr_Success (fst (rpc_DeleteSnapshot E (s_ID r) s)) \<and>
      sv_db (snd (rpc_DeleteSnapshot E (s_ID r) s)) = sv_db s"
  proof (cases "GetSnapshot (en_gorm E) (s_ID r) (sv_db s)")
    case (Inr snap)
    have "s_SnapshotPath snap = s_SnapshotPath r"
      using found_row [OF assms(1) Inr] assms(6) s by (simp add: live_set)
    then have "fst (DeleteSnapshot (en_btrfs E) (s_SnapshotPath snap) (sv_btrfs s)) \<noteq> None"
      using assms(2,5) s unfolding refuses_missing_def command_results by simp
    then show ?thesis by (auto simp: rpc_DeleteSnapshot_def Inr case_prod_unfold Let_def split: option.split)
  qed (simp add: rpc_DeleteSnapshot_def)
  obtain rows where l: "ListSnapshotRows (en_gorm E) [] (sv_db s) = Inr rows"
    using table_up_calls(4) [OF store_okD(3) [OF assms(1)]] unfolding ListSnapshotRows_def by blast
  then have "r \<in> set rows"
    using table_find_set [OF gorm_okD(2) [OF store_okD(2) [OF assms(1)]]] assms(3,4) s
    by (fastforce simp: ListSnapshotRows_def)
  with del l show ?thesis by blast
qed

section \<open>Examples\<close>

text \<open>A creation, and a deletion that is interrupted after the removal of the file.\<close>

abbreviation cut_events :: "unit conc_event list" where
  "cut_events \<equiv> [Start (Creating (\<lambda>_. 0) web_request), Step 0, Step 0, Start (Deleting (en_uuid files_env 2)), Step 0, Step 0]"

definition web_row :: snapshot where
  "web_row = new_snapshot (en_uuid files_env 2) ''n1'' ''/data'' (SnapshotPath 0 0 ''/data'' ''web'') True"

lemma cut_run:
  "db_snaps (sv_db (fst (snd (run (conc_step files_env ''1'') cut_events (files_server, []))))) = [web_row]"
  "sv_btrfs (fst (snd (run (conc_step files_env ''1'') cut_events (files_server, [])))) = {}"
  "snd (snd (run (conc_step files_env ''1'') cut_events (files_server, []))) = [Erasing (en_uuid files_env 2)]"
proof -
  have d: "DeleteSnapshot set_world p {p} = (None, {})" for p
    by (simp add: DeleteSnapshot_def set_world_def ok_world_def delete_args_def)
  have c: "CreateSnapshot set_world src p ro {} = (None, {p})" for src p ro
    by (simp add: CreateSnapshot_def set_world_def ok_world_def snapshot_args_def)
  have g: "GetSnapshot unique_gorm (s_ID r) d = Inr r" if "db_snaps d = [r]" "s_DeletedAt r = None" for r d
    using that by (simp add: GetSnapshot_def unique_gorm_def ref_gorm_def ref_table_def)
  have r: "CreateSnapshotRow unique_gorm r d = (None, r, d\<lparr>db_snaps := [r]\<rparr>)" if "db_snaps d = []" for r d
    using that by (simp add: CreateSnapshotRow_def unique_gorm_def ref_gorm_def ref_table_def)
  have e: "en_gorm files_env = unique_gorm" "en_btrfs files_env = set_world" "en_off files_env = 0"
    "sv_btrfs files_server = {}" "db_snaps (sv_db files_server) = []" "sv_draws files_server = 2"
    by (simp_all add: files_env_def files_server_def newServer_def empty_db_def)
  have w: "web_row = new_snapshot (en_uuid files_env 2) (cq_NodeId web_request) (cq_SubvolumePath web_request)
      (SnapshotPath 0 0 (cq_SubvolumePath web_request) (cq_SnapshotName web_request)) (cq_Readonly web_request)"
    by (simp add: web_row_def web_request_def)
  have id: "en_uuid files_env 2 = s_ID web_row" "s_DeletedAt web_row = None"
      "s_SnapshotPath web_row = SnapshotPath 0 0 (cq_SubvolumePath web_request) (cq_SnapshotName web_request)"
    by (simp_all add: web_row_def new_snapshot_def web_request_def)
  show "db_snaps (sv_db (fst (snd (run (conc_step files_env ''1'') cut_events (files_server, []))))) = [web_row]"
    "sv_btrfs (fst (snd (run (conc_step files_env ''1'') cut_events (files_server, [])))) = {}"
    "snd (snd (run (conc_step files_env ''1'') cut_events (files_server, []))) = [Erasing (en_uuid files_env 2)]"
    by (simp_all add: generateID_def e c r w [symmetric]) (simp_all add: id(1) g id d e)
qed

lemma conc_noted_run:
  "fst (snd (run (conc_noted E version) evs (p, D))) = snd (run (conc_step E version) evs p)"
  by (induction evs arbitrary: p D) (simp_all add: conc_noted_def case_prod_unfold Let_def)

theorem concurrent_rows_have_files_witness:
  "let ((s', cs), D) = snd (run (conc_noted files_env ''1'') cut_events ((files_server, []), {}))
   in D = {} \<and> (\<exists>r \<in> set (db_snaps (sv_db s')). s_DeletedAt r = None \<and> s_SnapshotPath r \<notin> sv_btrfs s' \<and> Erasing (s_ID r) \<in> set cs)"
proof -
  obtain s' cs D where r: "snd (run (conc_noted files_env ''1'') cut_events ((files_server, []), {})) = ((s', cs), D)"
    by (metis prod.collapse)
  then have "snd (run (conc_step files_env ''1'') cut_events (files_server, [])) = (s', cs)"
    using conc_noted_run [of files_env "''1''" cut_events "(files_server, [])" "{}"] by simp
  then have s: "db_snaps (sv_db s') = [web_row]" "sv_btrfs s' = {}" using cut_run(1,2) by simp_all
  have e: "db_snaps (sv_db files_server) = []" by (simp add: files_server_def newServer_def empty_db_def)
  have "(\<forall>r \<in> set (db_snaps (sv_db s')). s_DeletedAt r = None \<longrightarrow>
      s_SnapshotPath r \<in> sv_btrfs s' \<or> Erasing (s_ID r) \<in> set cs \<or> s_SnapshotPath r \<in> D) \<and>
      (lists_short (en_btrfs files_env) \<longrightarrow> D = {})"
    by (rule concurrent_rows_have_files [OF files_env_ok _ _ r]) (simp_all add: e)
  then have c: "D = {}" "s_SnapshotPath web_row \<in> sv_btrfs s' \<or> Erasing (s_ID web_row) \<in> set cs \<or> s_SnapshotPath web_row \<in> D"
    using s(1) by (auto simp: files_env_def set_world_short web_row_def new_snapshot_def)
  then have "Erasing (s_ID web_row) \<in> set cs" using s(2) by simp
  moreover have "s_DeletedAt web_row = None" by (simp add: web_row_def new_snapshot_def)
  ultimately show ?thesis unfolding r Let_def prod.case s using c(1) by simp
qed

lemma set_world_refuses: "refuses_missing set_world (\<lambda>x. x)"
  by (simp add: refuses_missing_def set_world_def ok_world_def delete_args_def)

theorem orphan_row_stays_witness:
  "let s' = fst (snd (run (conc_step files_env ''1'') cut_events (files_server, [])));
       s = newServer files_env demo_config (sv_db s') (sv_btrfs s')
   in \<not> dr_Success (fst (rpc_DeleteSnapshot files_env (en_uuid files_env 2) s)) \<and>
      db_snaps (sv_db (snd (rpc_DeleteSnapshot files_env (en_uuid files_env 2) s))) = [web_row]"
proof -
  let ?s' = "fst (snd (run (conc_step files_env ''1'') cut_events (files_server, [])))"
  have w: "s_DeletedAt web_row = None" "s_ID web_row = en_uuid files_env 2"
    by (simp_all add: web_row_def new_snapshot_def)
  have e: "refuses_missing (en_btrfs files_env) (\<lambda>x. x)" by (simp add: files_env_def set_world_refuses)
  have "\<not> dr_Success (fst (rpc_DeleteSnapshot files_env (en_uuid files_env 2) (newServer files_env demo_config (sv_db t) (sv_btrfs t)))) \<and>
      db_snaps (sv_db (snd (rpc_DeleteSnapshot files_env (en_uuid files_env 2) (newServer files_env demo_config (sv_db t) (sv_btrfs t))))) = [web_row]"
    if "db_snaps (sv_db t) = [web_row]" "sv_btrfs t = {}" for t :: "(string set, nat \<times> (nat \<rightharpoonup> policy)) server"
  proof -
    have "web_row \<in> set (db_snaps (sv_db t))" "s_SnapshotPath web_row \<notin> sv_btrfs t"
      "\<forall>q \<in> set (db_snaps (sv_db t)). s_ID q = s_ID web_row \<longrightarrow> s_SnapshotPath q = s_SnapshotPath web_row"
      using that by simp_all
    from orphan_row_stays [OF files_env_ok e this(1) w(1) this(2,3) refl, of demo_config] that(1)
    show ?thesis unfolding w(2) by (simp add: newServer_def)
  qed
  from this [OF cut_run(1,2)] show ?thesis unfolding Let_def .
qed

end
