(* ===== verification/Restart.thy ===== *)
theory Restart
  imports Effects
begin

text \<open>
  What survives a restart. The policies are rows of the database and entries of the cron table;
  a server that starts reads the first but rebuilds the second from nothing.
\<close>

section \<open>Who writes the policies\<close>

text \<open>The part of the state that is about policies.\<close>

definition plan :: "('x, 'c) server \<Rightarrow> policy_row list \<times> 'c scheduler" where
  "plan s = (db_policies (sv_db s), sv_scheduler s)"

definition steady :: "('x, 'c) server_handler \<Rightarrow> bool" where
  "steady h \<longleftrightarrow> (\<forall>r s w. plan (fst (h r s w)) = plan s)"

lemma steadyI: "(\<And>r s w. plan (fst (h r s w)) = plan s) \<Longrightarrow> steady h"
  by (simp add: steady_def)

lemma plan_rpcs [simp]:
  "plan (snd (rpc_CreateSnapshot E clk req s)) = plan s" "plan (snd (rpc_DeleteSnapshot E i s)) = plan s"
  "plan (snd (rpc_RegisterNode E clk reg s)) = plan s"
  by (simp_all add: plan_def rpc_CreateSnapshot_def rpc_DeleteSnapshot_def rpc_RegisterNode_def generateID_def
      case_prod_unfold Let_def split: option.split sum.split)

lemma steady_keys: "steady (handleAPIKeys E clk)"
proof (rule steadyI)
  fix r w s
  have key: "db_policies (snd (GenerateKey g H zone raw t1 t2 name role days d)) = db_policies d" for g H zone raw t1 t2 name role days d
    by (simp add: GenerateKey_def SaveAPIKey_def case_prod_unfold Let_def split: sum.split option.split)
  have name: "db_policies (sv_db (snd (if c then let (i, s') = generateID E s in (f i, s') else (n, s)))) = db_policies (sv_db s)"
    "sv_scheduler (snd (if c then let (i, s') = generateID E s in (f i, s') else (n, s))) = sv_scheduler s"
    for c f and n :: string
    by (simp_all add: generateID_def)
  show "plan (fst (handleAPIKeys E clk r s w)) = plan s"
    by (cases "rq_method r = ''GET''"; cases "rq_method r = ''POST''"; cases "get_header r ''X-User-Role'' = ''admin''")
      (simp_all add: plan_def handleAPIKeys_def key name case_prod_unfold Let_def split: sum.split split del: if_split)
qed

lemma steady_handlers:
  "steady (handleNodes E)" "steady (handleEvents E)" "steady (handleRevokeAPIKey E)" "steady (handleAlertTest E clk)"
  "steady (handleAlertConfig E)" "steady (handleReplicate E)" "steady (handleReplicationJobs E order)"
  "steady (handleLogin E clk)" "steady (handleSnapshots E clk)" "steady (handleDeleteSnapshot E)" "steady (handleRestore E)"
  subgoal by (rule steadyI) (simp add: handleNodes_def split: sum.split)
  subgoal by (rule steadyI) (simp add: handleEvents_def split: sum.split)
  subgoal by (rule steadyI)
      (simp add: plan_def handleRevokeAPIKey_def RevokeKey_def RevokeAPIKey_def case_prod_unfold Let_def split: sum.split)
  subgoal by (rule steadyI) (simp add: plan_def handleAlertTest_def case_prod_unfold Let_def split: sum.split)
  subgoal by (rule steadyI) (simp add: plan_def handleAlertConfig_def Let_def)
  subgoal by (rule steadyI) (simp add: plan_def handleReplicate_def generateID_def case_prod_unfold Let_def split: sum.split)
  subgoal by (rule steadyI) (simp add: handleReplicationJobs_def Let_def)
  subgoal by (rule steadyI) (simp add: handleLogin_def case_prod_unfold split: sum.split)
  subgoal by (rule steadyI) (simp add: handleSnapshots_def case_prod_unfold Let_def split: sum.split)
  subgoal by (rule steadyI) (simp add: handleDeleteSnapshot_def case_prod_unfold Let_def split: sum.split)
  subgoal by (rule steadyI)
      (simp add: plan_def handleRestore_def generateID_def CreateEvent_def case_prod_unfold Let_def split: sum.split option.split)
  done

lemma steady_api:
  "map_of (api_handlers E clk order) path = Some h \<Longrightarrow> path \<noteq> ''/api/policies'' \<Longrightarrow> steady h"
  by (auto simp: api_handlers_def steady_handlers steady_keys split: if_splits)

lemma plan_http:
  assumes "path \<noteq> ''/api/policies''"
  shows "plan (fst (dispatch E nowhere nowhere version clk order path r s w)) = plan s"
proof (cases "map_of (api_handlers E clk order) path")
  case (Some h)
  have "plan (count_request clk r s) = plan s" by (simp add: plan_def count_request_def)
  then show ?thesis
    using steady_api [OF Some assms] by (simp add: dispatch_api [OF Some] protected_outcome steady_def Let_def split: sum.split)
next
  case None
  have "plan (s\<lparr>sv_login := l\<rparr>) = plan s" for l by (simp add: plan_def)
  then have "plan (fst (handleLogin E k r (s\<lparr>sv_login := l\<rparr>) w)) = plan s" for k l
    using steady_handlers(8) unfolding steady_def by metis
  then have "plan (fst (login_limit clk (handleLogin E (later 2 clk)) r s w)) = plan s"
    by (simp add: login_limit_def rl.outcome plan_def)
  then show ?thesis using None by (simp add: dispatch_def handleHealth_def)
qed

lemma plan_stream: "plan (snd (rpc_StreamEvents E clk nodeID beats s)) = plan s"
proof -
  have b: "plan (snd (stream_beats E nodeID ts s)) = plan s" for ts s
    by (induction ts arbitrary: s) (simp_all add: plan_def stream_event_def generateID_def case_prod_unfold Let_def)
  show ?thesis
    by (simp add: rpc_StreamEvents_def b case_prod_unfold Let_def) (simp add: plan_def stream_event_def generateID_def)
qed

lemma plan_watch: "plan (watchdog_tick E now s) = plan s"
proof -
  have "db_policies (snd (snd (check_nodes g now ns q))) = db_policies (snd q)" for g ns q
    by (induction ns arbitrary: q) (simp_all add: check_node_def case_prod_unfold Let_def)
  then show ?thesis
    by (simp add: plan_def watchdog_tick_def check_def case_prod_unfold Let_def split: sum.split)
qed

lemma plan_job: "plan (fst (run_replication E G clk j (s, remote))) = plan s"
  by (simp add: plan_def run_replication_def Replicate_def fail_def complete_def CreateEvent_def transfer_frame
      case_prod_unfold Let_def split: sum.split)

lemma plan_run: "plan (run_entry E now e s) = plan s"
  by (simp add: plan_def run_entry_def split: option.split)

definition about_policies :: "'r server_event \<Rightarrow> bool" where
  "about_policies e \<longleftrightarrow> (case e of Request _ _ path _ \<Rightarrow> path = ''/api/policies'' | _ \<Rightarrow> False)"

lemma server_step_plan: "\<not> about_policies e \<Longrightarrow> plan (snd (server_step E version e s)) = plan s"
  by (cases e) (simp_all add: about_policies_def plan_http plan_stream plan_watch plan_job plan_run case_prod_unfold Let_def)

interpretation steady: machine "server_step E version" "\<lambda>_ e. \<not> about_policies e" "\<lambda>s. plan s = p"
  for E :: "('x, 'c) env" and version and p
  by unfold_locales (simp add: server_step_plan)

lemma valid_run_all: "list_all P es \<Longrightarrow> valid_run (\<lambda>_. P) step es s"
  by (induction es arbitrary: s) simp_all

section \<open>A restart\<close>

text \<open>C17: Policies do not survive a restart. A server that is started on a database with policies
  lists them all, as before, but has none of them scheduled: whatever it serves after that, as long
  as no request goes to the route of the policies, the listing stays what it was and no entry of the
  cron table ever comes due.\<close>

theorem policies_lost_on_restart:
  assumes "cron_ok (en_cron E)" "list_all (\<lambda>e. \<not> about_policies e) evs"
    and "s' = snd (run (server_step E version) evs (newServer E cfg d x))"
  shows "ListPolicyRows (en_gorm E) node (sv_db s') = ListPolicyRows (en_gorm E) node d \<and>
    (\<forall>now e. run_entry E now e s' = s')"
proof -
  have "plan s' = (db_policies d, NewScheduler (en_cron E))"
    unfolding assms(3) by (rule steady.run_inv [OF _ valid_run_all [OF assms(2)]]) (simp add: plan_def newServer_def)
  then have "db_policies (sv_db s') = db_policies d" "sv_scheduler s' = NewScheduler (en_cron E)"
    by (simp_all add: plan_def)
  moreover have "cron_entries (en_cron E) (cron_new (en_cron E)) = Map.empty"
    using assms(1) by (simp add: cron_ok_def)
  ultimately show ?thesis
    by (simp add: ListPolicyRows_def run_entry_def NewScheduler_def)
qed

definition nightly :: policy_row where
  "nightly =
     \<lparr>p_ID = ''p1'', p_Name = ''web'', p_NodeID = ''n1'', p_SubvolumePath = ''/data'', p_Schedule = ''0 0 3 * * *'',
      p_RetentionHourly = 0, p_RetentionDaily = 7, p_RetentionWeekly = 0, p_RetentionMonthly = 0, p_ReadOnly = True,
      p_Replicate = False, p_ReplicateTarget = [], p_Enabled = True, p_CreatedAt = 0, p_UpdatedAt = 0, p_DeletedAt = None\<rparr>"

theorem policies_lost_on_restart_witness:
  "let s' = snd (run (server_step E0 ''1'') [Watch minute, Fire (2 * minute) 1 :: unit server_event]
              (newServer E0 demo_config (empty_db\<lparr>db_policies := [nightly]\<rparr>) ()))
   in ListPolicyRows (en_gorm E0) [] (sv_db s') = Inr [nightly] \<and> p_Enabled nightly \<and>
      (\<forall>now e. run_entry E0 now e s' = s')"
proof -
  let ?evs = "[Watch minute, Fire (2 * minute) 1 :: unit server_event]"
  have c: "cron_ok (en_cron E0)" by (simp add: ref_cron_ok)
  have e: "list_all (\<lambda>e. \<not> about_policies e) ?evs" by (simp add: about_policies_def)
  have l: "ListPolicyRows (en_gorm E0) [] (empty_db\<lparr>db_policies := [nightly]\<rparr>) = Inr [nightly]"
    by (simp add: ListPolicyRows_def ref_gorm_def ref_table_def nightly_def)
  have p: "p_Enabled nightly" by (simp add: nightly_def)
  note r = policies_lost_on_restart [OF c e refl, of "[]" "''1''" demo_config "empty_db\<lparr>db_policies := [nightly]\<rparr>" "()"]
  show ?thesis
    unfolding Let_def by (intro conjI r [THEN conjunct1, THEN trans, OF l] p r [THEN conjunct2])
qed

end
