(* ===== verification/Process.thy ===== *)
theory Process
  imports Effects
begin

text \<open>
  The two daemons as processes: how the server comes up (\<open>main\<close> of \<open>cmd/server\<close>), how it goes down
  again, and the whole run of an agent (\<open>main\<close> of \<open>cmd/agent\<close>). Listening, serving and dialling are
  calls of libraries and are arguments; the order of the calls, what stops the process and what
  does not is the code's.
\<close>

section \<open>The server comes up\<close>

text \<open>The calls of the outside world that \<open>main\<close> makes; \<open>so_Listen\<close> is \<open>net.Listen\<close> on an address.\<close>

record ('v, 'k) server_os =
  so_viper :: "'v viper"
  so_getenv :: "string \<Rightarrow> string"
  so_Open :: "dialect \<Rightarrow> goerror + db"
  so_Migrate :: "db \<Rightarrow> goerror + db"
  so_Listen :: "string \<Rightarrow> goerror option"
  so_tls :: "'k tls_lib"
  so_Stat :: "string \<Rightarrow> stat_result"

definition host_port :: "string \<Rightarrow> int \<Rightarrow> string" where
  "host_port host port = host @ '':'' @ dec_int port"

text \<open>\<open>log.Fatalf\<close> prints a message and stops the process; the messages start with a cross.\<close>

definition cross :: string where
  "cross = [CHR 0xE2, CHR 0x9D, CHR 0x8C, CHR '' '']"

text \<open>
  What is up when \<open>main\<close> waits for its signal. The listeners of HTTP and of the metrics are opened
  in goroutines, whose failure is only logged or not even that.
\<close>

record ('x, 'c, 'k) running_server =
  ru_server :: "('x, 'c) server"
  ru_grpc :: "'k transport"
  ru_http :: bool
  ru_metrics :: bool

definition http_listeners :: "(string \<Rightarrow> goerror option) \<Rightarrow> server_config \<Rightarrow> bool \<times> bool" where
  "http_listeners listen cs = (listen (host_port (cs_Host cs) (cs_Port cs)) = None, listen ''0.0.0.0:9093'' = None)"

text \<open>
  The directory \<open>data\<close> is created with its error ignored; that an unwritable place makes \<open>so_Open\<close>
  fail is that call's affair. The rate limiters are part of \<open>newServer\<close>'s record, the routes are
  \<open>dispatch\<close>.
\<close>

definition server_main :: "('v, 'k) server_os \<Rightarrow> ('x, 'c) env \<Rightarrow> 'x \<Rightarrow> goerror + ('x, 'c, 'k) running_server" where
  "server_main O' E x =
     (case Load (so_viper O') ''config.yaml'' of
        Inl e \<Rightarrow> Inl (cross @ ''Config error: '' @ e)
      | Inr cfg \<Rightarrow>
          (case NewDB (so_Open O') (so_Migrate O') (DBFromEnv (so_getenv O') ''data/snapah.db'') of
             Inl e \<Rightarrow> Inl (cross @ ''Database error: '' @ e)
           | Inr d \<Rightarrow>
               (let srv = newServer E cfg d x
                in case so_Listen O' (host_port (cs_Host (cf_Server cfg)) (cs_GRPCPort (cf_Server cfg))) of
                     Some e \<Rightarrow> Inl (cross @ ''gRPC listen: '' @ e)
                   | None \<Rightarrow>
                       (case grpc_transport (so_tls O') (so_Stat O') (cf_Server cfg) of
                          Inl e \<Rightarrow> Inl (cross @ ''mTLS: '' @ e)
                        | Inr t \<Rightarrow>
                            (let (http, metrics) = http_listeners (so_Listen O') (cf_Server cfg)
                             in Inr \<lparr>ru_server = srv, ru_grpc = t, ru_http = http, ru_metrics = metrics\<rparr>)))))"

text \<open>The goroutine of the gauges: one refresh on the database as it is at each tick.\<close>

definition gauge_loop :: "('x, 'c) env \<Rightarrow> db list \<Rightarrow> gauges \<Rightarrow> gauges" where
  "gauge_loop E ds ga = fold (refresh_gauges E) ds ga"

text \<open>The database section of the configuration plays no part, nor does anything else decide where
  the data are but the environment: two configurations that differ only there start the same
  server but for the copy it keeps.\<close>

lemma database_config_unused:
  assumes "Load (so_viper O') ''config.yaml'' = Inr cfg"
    and "Load (so_viper P) ''config.yaml'' = Inr (cfg\<lparr>cf_Database := dc\<rparr>)"
    and "so_getenv P = so_getenv O'" "so_Open P = so_Open O'" "so_Migrate P = so_Migrate O'"
    and "so_Listen P = so_Listen O'" "so_tls P = so_tls O'" "so_Stat P = so_Stat O'"
  shows "case (server_main O' E x, server_main P E x) of
      (Inr a, Inr b) \<Rightarrow> sv_db (ru_server a) = sv_db (ru_server b) \<and> ru_grpc a = ru_grpc b \<and> ru_http a = ru_http b
    | (Inl a, Inl b) \<Rightarrow> a = b
    | _ \<Rightarrow> False"
  using assms by (simp add: server_main_def http_listeners_def newServer_def Let_def split: sum.split option.split)

section \<open>The server goes down\<close>

text \<open>
  \<open>main\<close> waits for a signal, then for \<open>GracefulStop\<close> of the gRPC server, then for \<open>Shutdown\<close> of the
  HTTP server with a context of ten seconds. \<open>stops\<close> stands for \<open>GracefulStop\<close>: with these calls
  pending, may it return. A call of \<open>StreamEvents\<close> (\<open>Streaming\<close>) loops until the context of its
  stream is done, that is until its client is gone, and ignores the errors of its sends
  (\<open>rpc_StreamEvents\<close>); the other methods (\<open>Unary\<close>) return by themselves. \<open>stay\<close> are the clients that do not leave.
\<close>

datatype rpc = Unary nat | Streaming nat

datatype phase = Serving | Draining | Closing time | Stopped

record process =
  pr_phase :: phase
  pr_rpcs :: "rpc list"
  pr_http :: nat
  pr_now :: time

definition may_end :: "nat set \<Rightarrow> rpc \<Rightarrow> bool" where
  "may_end stay c \<longleftrightarrow> (case c of Unary _ \<Rightarrow> True | Streaming i \<Rightarrow> i \<notin> stay)"

text \<open>What brings the process nearer to its end, once the signal is there.\<close>

inductive drain_step :: "(rpc list \<Rightarrow> bool) \<Rightarrow> nat set \<Rightarrow> process \<Rightarrow> process \<Rightarrow> bool" for stops stay where
  rpc_ends: "pr_rpcs p = as @ c # bs \<Longrightarrow> may_end stay c \<Longrightarrow>
     drain_step stops stay p (p\<lparr>pr_rpcs := as @ bs\<rparr>)"
| http_ends: "pr_http p = Suc n \<Longrightarrow> drain_step stops stay p (p\<lparr>pr_http := n\<rparr>)"
| graceful: "pr_phase p = Draining \<Longrightarrow> stops (pr_rpcs p) \<Longrightarrow>
     drain_step stops stay p (p\<lparr>pr_phase := Closing (pr_now p + 10 * second)\<rparr>)"
| shutdown: "pr_phase p = Closing d \<Longrightarrow> pr_http p = 0 \<or> d \<le> pr_now p \<Longrightarrow>
     drain_step stops stay p (p\<lparr>pr_phase := Stopped\<rparr>)"

text \<open>Everything that can happen; the gRPC server takes no calls after the signal, the HTTP server until
  \<open>Shutdown\<close> is called.\<close>

inductive process_step :: "(rpc list \<Rightarrow> bool) \<Rightarrow> nat set \<Rightarrow> process \<Rightarrow> process \<Rightarrow> bool" for stops stay where
  drains: "drain_step stops stay p q \<Longrightarrow> pr_phase p \<noteq> Stopped \<Longrightarrow> process_step stops stay p q"
| rpc_arrives: "pr_phase p = Serving \<Longrightarrow> process_step stops stay p (p\<lparr>pr_rpcs := pr_rpcs p @ [c]\<rparr>)"
| http_arrives: "pr_phase p = Serving \<or> pr_phase p = Draining \<Longrightarrow>
     process_step stops stay p (p\<lparr>pr_http := Suc (pr_http p)\<rparr>)"
| signal: "pr_phase p = Serving \<Longrightarrow> process_step stops stay p (p\<lparr>pr_phase := Draining\<rparr>)"
| clock: "pr_phase p \<noteq> Stopped \<Longrightarrow> pr_now p \<le> t \<Longrightarrow> process_step stops stay p (p\<lparr>pr_now := t\<rparr>)"

text \<open>Documented of \<open>GracefulStop\<close>: it blocks until all the pending calls are finished, and then returns.\<close>

definition waits_for_all :: "(rpc list \<Rightarrow> bool) \<Rightarrow> bool" where
  "waits_for_all stops \<longleftrightarrow> (\<forall>cs. stops cs \<longleftrightarrow> cs = [])"

inductive_cases drain_stepE: "drain_step stops stay p q"
inductive_cases process_stepE: "process_step stops stay p q"

text \<open>
  Documented of \<open>Shutdown\<close>: it returns when its context expires. In a state that is on time the clock
  has not passed that moment while \<open>Shutdown\<close> is still waiting; the step that ends \<open>Shutdown\<close> is
  possible from the moment on, so no state is without a next one on time.
\<close>

definition on_time :: "process \<Rightarrow> bool" where
  "on_time p \<longleftrightarrow> (case pr_phase p of Closing d \<Rightarrow> pr_now p \<le> d | _ \<Rightarrow> True)"

text \<open>
  A run through states on time, with the number of its steps that change the pending calls or the
  phase. HTTP requests that come and end, and the clock, are not counted.
\<close>

inductive on_time_run :: "(rpc list \<Rightarrow> bool) \<Rightarrow> nat set \<Rightarrow> nat \<Rightarrow> process \<Rightarrow> process \<Rightarrow> bool" for stops stay where
  none: "on_time_run stops stay 0 p p"
| free: "on_time_run stops stay n p q \<Longrightarrow> process_step stops stay q r \<Longrightarrow> on_time r \<Longrightarrow>
     pr_rpcs r = pr_rpcs q \<Longrightarrow> pr_phase r = pr_phase q \<Longrightarrow> on_time_run stops stay n p r"
| counted: "on_time_run stops stay n p q \<Longrightarrow> process_step stops stay q r \<Longrightarrow> on_time r \<Longrightarrow>
     pr_rpcs r \<noteq> pr_rpcs q \<or> pr_phase r \<noteq> pr_phase q \<Longrightarrow> on_time_run stops stay (Suc n) p r"

lemma on_time_run_step:
  assumes "on_time_run stops stay n p q" "process_step stops stay q r" "on_time r"
  shows "\<exists>m. on_time_run stops stay m p r"
  using on_time_run.free [OF assms] on_time_run.counted [OF assms] by blast

fun rank :: "phase \<Rightarrow> nat" where
  "rank Serving = 3"
| "rank Draining = 2"
| "rank (Closing _) = 1"
| "rank Stopped = 0"

definition work :: "process \<Rightarrow> nat" where
  "work p = length (pr_rpcs p) + rank (pr_phase p)"

text \<open>What holds on the way down: the deadline is at most ten seconds ahead.\<close>

definition going_down :: "nat set \<Rightarrow> process \<Rightarrow> bool" where
  "going_down stay p \<longleftrightarrow> (\<forall>c \<in> set (pr_rpcs p). may_end stay c) \<and>
     (case pr_phase p of Serving \<Rightarrow> False | Closing d \<Rightarrow> pr_now p \<le> d \<and> d \<le> pr_now p + 10 * second | _ \<Rightarrow> True)"

lemma going_down_step:
  assumes "process_step stops stay p q" "on_time q" "going_down stay p"
  shows "going_down stay q" "work q \<le> work p"
    "pr_rpcs q \<noteq> pr_rpcs p \<or> pr_phase q \<noteq> pr_phase p \<Longrightarrow> work q < work p"
  using assms
  by (auto simp: going_down_def on_time_def work_def time_units elim!: process_step.cases drain_step.cases
      split: phase.splits)

lemma going_down_run:
  assumes "on_time_run stops stay n p q" "going_down stay p"
  shows "going_down stay q" "n + work q \<le> work p"
  using assms
proof (induction rule: on_time_run.induct)
  case (free n p q r)
  { case 1 with free show ?case using going_down_step(1) by blast }
  { case 2 with free show ?case using going_down_step(2) [of stops stay q r] by fastforce }
next
  case (counted n p q r)
  { case 1 with counted show ?case using going_down_step(1) by blast }
  { case 2 with counted show ?case using going_down_step(3) [of stops stay q r] by fastforce }
qed simp_all

lemma closing_run:
  assumes "on_time_run stops stay n p q" "pr_phase p = Closing d" "pr_now p \<le> d"
  shows "(pr_phase q = Stopped \<or> pr_phase q = Closing d) \<and> pr_now q \<le> d"
  using assms
  by (induction rule: on_time_run.induct) (auto simp: on_time_def elim!: process_step.cases drain_step.cases)

text \<open>The pending calls may end one after the other, without the clock.\<close>

lemma calls_may_end:
  assumes "\<forall>c \<in> set (pr_rpcs q). may_end stay c" "pr_phase q = Draining" "on_time_run stops stay n p q"
  shows "\<exists>m. on_time_run stops stay m p (q\<lparr>pr_rpcs := []\<rparr>)"
  using assms
proof (induction "pr_rpcs q" arbitrary: q n)
  case Nil
  then have "q\<lparr>pr_rpcs := []\<rparr> = q" by simp
  with Nil show ?case by metis
next
  case (Cons c cs)
  let ?q = "q\<lparr>pr_rpcs := cs\<rparr>"
  have "drain_step stops stay q (q\<lparr>pr_rpcs := [] @ cs\<rparr>)"
    by (rule drain_step.rpc_ends [of _ _ c]) (use Cons(3) in \<open>simp_all flip: Cons(2)\<close>)
  then have "process_step stops stay q ?q" using Cons(4) by (auto intro: process_step.drains)
  then obtain m where "on_time_run stops stay m p ?q"
    using on_time_run_step [OF Cons(5), of ?q] Cons(4) by (auto simp: on_time_def)
  moreover have "\<forall>c \<in> set cs. may_end stay c" using Cons(3) by (simp flip: Cons(2))
  ultimately show ?case using Cons(1) [of ?q m] Cons(4) by simp
qed

lemma closing_may_stop:
  assumes "pr_phase q = Closing d" "pr_now q \<le> d" "on_time_run stops stay n p q"
  shows "\<exists>m. on_time_run stops stay m p (q\<lparr>pr_now := d, pr_phase := Stopped\<rparr>)"
proof -
  let ?r = "q\<lparr>pr_now := d\<rparr>"
  have "process_step stops stay q ?r" using assms(1,2) by (auto intro: process_step.clock)
  then obtain m where m: "on_time_run stops stay m p ?r"
    using on_time_run_step [OF assms(3), of ?r] assms(1) by (auto simp: on_time_def)
  have "process_step stops stay ?r (?r\<lparr>pr_phase := Stopped\<rparr>)"
    using assms(1) by (auto intro!: process_step.drains drain_step.shutdown)
  then show ?thesis using on_time_run_step [OF m, of "?r\<lparr>pr_phase := Stopped\<rparr>"] by (auto simp: on_time_def)
qed

lemma may_stop:
  assumes "waits_for_all stops" "going_down stay p" "pr_phase p \<noteq> Stopped"
  shows "\<exists>m r. on_time_run stops stay m p r \<and> pr_phase r = Stopped \<and> pr_http r = pr_http p \<and>
    pr_now r \<le> pr_now p + 10 * second"
proof (cases "pr_phase p")
  case Draining
  then obtain m where m: "on_time_run stops stay m p (p\<lparr>pr_rpcs := []\<rparr>)"
    using calls_may_end [OF _ Draining on_time_run.none [of stops stay]] assms(2) by (auto simp: going_down_def)
  let ?q = "p\<lparr>pr_rpcs := [], pr_phase := Closing (pr_now p + 10 * second)\<rparr>"
  have "drain_step stops stay (p\<lparr>pr_rpcs := []\<rparr>) ?q"
    using drain_step.graceful [of "p\<lparr>pr_rpcs := []\<rparr>" stops stay] Draining assms(1) by (simp add: waits_for_all_def)
  then have "process_step stops stay (p\<lparr>pr_rpcs := []\<rparr>) ?q" using Draining by (auto intro: process_step.drains)
  then obtain m' where "on_time_run stops stay m' p ?q"
    using on_time_run_step [OF m, of ?q] by (auto simp: on_time_def time_units)
  from closing_may_stop [OF _ _ this, of "pr_now p + 10 * second"] show ?thesis by (force simp: time_units)
next
  case (Closing d)
  then show ?thesis
    using closing_may_stop [OF Closing _ on_time_run.none] assms(2) by (force simp: going_down_def)
qed (use assms(2,3) in \<open>simp_all add: going_down_def\<close>)

text \<open>C22: The server goes down when nobody streams. Suppose the signal is there and no pending call is
  a stream whose client stays, and take any later state that is reached on time: while \<open>Shutdown\<close> waits, the
  clock does not pass the moment its context expires. On the way the pending calls and the phase have changed no
  more often than the number of pending calls plus two, whatever HTTP requests came and ended and
  whatever the clock did. If the process has not stopped there, it can still stop within ten
  seconds without any HTTP request ending. And once \<open>Shutdown\<close> is called, its deadline is not more
  than ten seconds ahead, and the process is never seen after it: at every later moment it waits for that
  deadline or has stopped.\<close>

theorem shutdown_terminates:
  assumes "waits_for_all stops" "pr_phase p = Draining" "\<forall>i \<in> stay. Streaming i \<notin> set (pr_rpcs p)"
    and "on_time_run stops stay n p q"
  shows "n \<le> length (pr_rpcs p) + 2 \<and>
    (pr_phase q \<noteq> Stopped \<longrightarrow> (\<exists>m r. on_time_run stops stay m q r \<and> pr_phase r = Stopped \<and>
       pr_http r = pr_http q \<and> pr_now r \<le> pr_now q + 10 * second)) \<and>
    (\<forall>d. pr_phase q = Closing d \<longrightarrow> d \<le> pr_now q + 10 * second \<and>
       (\<forall>m r. on_time_run stops stay m q r \<longrightarrow> pr_now r \<le> d \<and> (pr_phase r = Stopped \<or> pr_phase r = Closing d)))"
proof (intro conjI impI allI)
  have p: "going_down stay p" using assms(2,3) by (auto simp: going_down_def may_end_def split: rpc.split)
  note q = going_down_run [OF assms(4) p]
  show "n \<le> length (pr_rpcs p) + 2" using q(2) assms(2) by (simp add: work_def)
  show "\<exists>m r. on_time_run stops stay m q r \<and> pr_phase r = Stopped \<and> pr_http r = pr_http q \<and>
      pr_now r \<le> pr_now q + 10 * second" if "pr_phase q \<noteq> Stopped"
    by (rule may_stop [OF assms(1) q(1) that])
  fix d assume d: "pr_phase q = Closing d"
  show "d \<le> pr_now q + 10 * second" using q(1) d by (simp add: going_down_def)
  fix m r assume r: "on_time_run stops stay m q r"
  show "pr_now r \<le> d" "pr_phase r = Stopped \<or> pr_phase r = Closing d"
    using closing_run [OF r d] q(1) d by (simp_all add: going_down_def)
qed

definition streams :: "nat \<Rightarrow> process \<Rightarrow> bool" where
  "streams i p \<longleftrightarrow> Streaming i \<in> set (pr_rpcs p) \<and> (pr_phase p = Serving \<or> pr_phase p = Draining)"

lemma drain_streams:
  assumes "waits_for_all stops" "i \<in> stay" "drain_step stops stay p q" "streams i p"
  shows "streams i q"
  using assms(3)
proof (cases rule: drain_step.cases)
  case (rpc_ends as c bs)
  then have "c \<noteq> Streaming i" using assms(2) by (auto simp: may_end_def)
  then show ?thesis using rpc_ends assms(4) by (simp add: streams_def)
next
  case (http_ends n)
  then show ?thesis using assms(4) by (simp add: streams_def)
next
  case graceful
  then have "pr_rpcs p = []" using assms(1) by (simp add: waits_for_all_def)
  then show ?thesis using assms(4) by (simp add: streams_def)
next
  case (shutdown d)
  then show ?thesis using assms(4) by (simp add: streams_def)
qed

lemma stream_stays:
  assumes "waits_for_all stops" "i \<in> stay" "process_step stops stay p q" "streams i p"
  shows "streams i q"
  using assms(3)
proof (cases rule: process_step.cases)
  case drains
  then show ?thesis using drain_streams [OF assms(1,2) _ assms(4)] by simp
qed (use assms(4) in \<open>simp_all add: streams_def\<close>)

text \<open>C23: One open event stream keeps the server from going down. As long as a client of
  \<open>StreamEvents\<close> stays, then through whatever happens after that, also after the signal, and
  however much time passes, \<open>GracefulStop\<close> does not return: the HTTP server is never told to shut
  down and the process never ends.\<close>

theorem open_stream_blocks_shutdown:
  assumes "waits_for_all stops" "i \<in> stay" "Streaming i \<in> set (pr_rpcs p)" "pr_phase p = Serving"
    and "(process_step stops stay)\<^sup>*\<^sup>* p q"
  shows "pr_phase q = Serving \<or> pr_phase q = Draining"
proof -
  from assms(5) have "streams i q"
    by (induction rule: rtranclp_induct) (use assms(3,4) stream_stays [OF assms(1,2)] in \<open>auto simp: streams_def\<close>)
  then show ?thesis by (simp add: streams_def)
qed

section \<open>The agent\<close>

text \<open>The calls of the agent; a client for an address, and the registration over it.\<close>

record ('v, 'k) agent_os =
  ao_viper :: "'v viper"
  ao_getenv :: "string \<Rightarrow> string"
  ao_tls :: "'k tls_lib"
  ao_Stat :: "string \<Rightarrow> stat_result"
  ao_Hostname :: string
  ao_NewClient :: "string \<Rightarrow> 'k transport \<Rightarrow> goerror option"

text \<open>
  How the agent ends: a fatal error, the panic of a ticker without a positive interval, or the loop
  with the node it was given, the seconds between two heartbeats, the calls made and whether a
  signal ended it. \<open>enrol\<close> is the call of
  \<open>RegisterNode\<close> on the state of the server.
\<close>

datatype agent_end =
    AgentFatal string
  | AgentPanic
  | AgentRan string int "string list" bool

definition agent_main ::
    "('v, 'k) agent_os \<Rightarrow> (register_req \<Rightarrow> 's \<Rightarrow> (goerror + pb_node) \<times> 's) \<Rightarrow> agent_event list \<Rightarrow> 's \<Rightarrow> agent_end \<times> 's" where
  "agent_main O' enrol evs s =
     (let cfg = (case Load (ao_viper O') (agent_config_path (ao_getenv O')) of Inl _ \<Rightarrow> None | Inr c \<Rightarrow> Some c)
      in case ao_NewClient O' (agent_server (ao_getenv O') cfg) (agent_transport (ao_tls O') (ao_Stat O') cfg) of
           Some e \<Rightarrow> (AgentFatal (cross @ ''No pudo conectar: '' @ e), s)
         | None \<Rightarrow>
             (case enrol (agent_registration (ao_getenv O') (ao_Hostname O') cfg) s of
                (Inl e, s') \<Rightarrow> (AgentFatal (cross @ ''Fallo registro: '' @ e), s')
              | (Inr n, s') \<Rightarrow>
                  if wrap64 (heartbeat_sec cfg * second) \<le> 0 then (AgentPanic, s')
                  else (let (calls, stopped) = agent_loop (pn_Id n) evs
                   in (AgentRan (pn_Id n) (heartbeat_sec cfg) calls stopped, s'))))"

lemma agent_main_ran:
  assumes "agent_main O' enrol evs s = (AgentRan i hb calls stopped, s')"
  obtains req n where "enrol req s = (Inr n, s')" "pn_Id n = i" "rr_Hostname req = ao_Hostname O'" "0 < wrap64 (hb * second)"
proof -
  show ?thesis
    using assms that
    by (auto simp: agent_main_def Let_def agent_registration_def split: option.splits sum.splits prod.splits if_splits)
qed

text \<open>C28: Every start of an agent makes a new node. When an agent runs twice on the same host, each
  time until its signal, the second run is given another identifier than the first, and both rows
  are in the database of the server under the same host name; the row of the first run is never
  heard of again.\<close>

theorem agent_restart_duplicates:
  assumes "gorm_ok (en_gorm E)"
    and "agent_main O' (rpc_RegisterNode E clk) evs s = (AgentRan i hb calls b, s1)"
    and "agent_main O' (rpc_RegisterNode E clk') evs' s1 = (AgentRan j hb' calls' b', s2)"
  shows "i \<noteq> j \<and> (\<exists>m \<in> set (db_nodes (sv_db s2)). \<exists>n \<in> set (db_nodes (sv_db s2)).
      n_ID m = i \<and> n_ID n = j \<and> n_Hostname m = ao_Hostname O' \<and> n_Hostname n = ao_Hostname O' \<and>
      n_DeletedAt m = None \<and> n_DeletedAt n = None \<and> i \<notin> set calls')"
proof -
  have reg: "\<exists>m. db_nodes (sv_db s') = db_nodes (sv_db s) @ [m] \<and> n_ID m = pn_Id p \<and> n_Hostname m = rr_Hostname req \<and>
      n_DeletedAt m = None \<and> pn_Id p \<notin> n_ID ` set (db_nodes (sv_db s))"
    if r: "rpc_RegisterNode E clk req s = (Inr p, s')" for clk req s p s'
  proof -
    let ?n = "\<lparr>n_ID = en_uuid E (sv_draws s), n_Hostname = rr_Hostname req, n_Address = rr_Address req,
      n_Status = ''online'', n_LastSeen = clk 0, n_CreatedAt = zero_time, n_UpdatedAt = zero_time, n_DeletedAt = None\<rparr>"
    obtain n' rows where c: "g_Create (g_nodes (en_gorm E)) ?n (db_nodes (sv_db s)) = (None, n', rows)"
      and p: "p = node_message (en_off E) n'" and s': "db_nodes (sv_db s') = rows"
      using r by (auto simp: rpc_RegisterNode_def CreateNode_def generateID_def case_prod_unfold Let_def
          prod_eq_iff split: option.splits)
    note t = table_create [OF gorm_okD(1) [OF assms(1)] c]
    then have "n_ID n' = n_ID ?n" "n_Hostname n' = rr_Hostname req" "n_DeletedAt n' = None"
      by (cases n', simp add: node_norm_def)+
    then show ?thesis using t p s' by (simp add: node_message_def)
  qed
  from agent_main_ran [OF assms(2)] obtain q p where 1: "rpc_RegisterNode E clk q s = (Inr p, s1)" "pn_Id p = i"
    "rr_Hostname q = ao_Hostname O'" by metis
  from agent_main_ran [OF assms(3)] obtain q' p' where 2: "rpc_RegisterNode E clk' q' s1 = (Inr p', s2)" "pn_Id p' = j"
    "rr_Hostname q' = ao_Hostname O'" by metis
  obtain m where m: "db_nodes (sv_db s1) = db_nodes (sv_db s) @ [m]" "n_ID m = i" "n_Hostname m = ao_Hostname O'"
    "n_DeletedAt m = None" using reg [OF 1(1)] 1(2,3) by auto
  obtain n where n: "db_nodes (sv_db s2) = db_nodes (sv_db s1) @ [n]" "n_ID n = j" "n_Hostname n = ao_Hostname O'"
    "n_DeletedAt n = None" "j \<notin> n_ID ` set (db_nodes (sv_db s1))" using reg [OF 2(1)] 2(2,3) by auto
  have ij: "i \<noteq> j" using n(5) m(1,2) by auto
  have "calls' = fst (agent_loop j evs')"
    using assms(3) by (auto simp: agent_main_def Let_def split: option.splits sum.splits prod.splits if_splits)
  then have "set calls' \<subseteq> {j}" by (auto simp: agent_loop_calls)
  then have "i \<notin> set calls'" using ij by blast
  with ij m n show ?thesis by (metis in_set_conv_decomp list.set_intros(1) append_Cons append_Nil Un_iff set_append)
qed

section \<open>Examples\<close>

abbreviation waits :: "rpc list \<Rightarrow> bool" where
  "waits \<equiv> \<lambda>cs. cs = []"

definition busy :: process where
  "busy = \<lparr>pr_phase = Draining, pr_rpcs = [Unary 1], pr_http = 1, pr_now = 0\<rparr>"

lemma waits_law: "waits_for_all waits"
  by (simp add: waits_for_all_def)

lemma busy_run:
  "on_time_run waits {7} 2 busy (busy\<lparr>pr_rpcs := [], pr_phase := Closing (10 * second), pr_now := 5 * second\<rparr>)"
proof -
  let ?a = "busy\<lparr>pr_rpcs := []\<rparr>" and ?b = "busy\<lparr>pr_rpcs := [], pr_phase := Closing (10 * second)\<rparr>"
  have a: "process_step waits {7} busy ?a"
    using drain_step.rpc_ends [of busy "[]" "Unary 1" "[]" "{7}" waits]
    by (auto simp: busy_def may_end_def intro: process_step.drains)
  have b: "process_step waits {7} ?a ?b"
    using drain_step.graceful [of ?a waits "{7}"] by (auto simp: busy_def intro: process_step.drains)
  have c: "process_step waits {7} ?b (?b\<lparr>pr_now := 5 * second\<rparr>)"
    by (rule process_step.clock) (simp_all add: busy_def time_units)
  have "on_time_run waits {7} (Suc 0) busy ?a"
    by (rule on_time_run.counted [OF on_time_run.none a]) (simp_all add: busy_def on_time_def)
  then have "on_time_run waits {7} (Suc (Suc 0)) busy ?b"
    by (rule on_time_run.counted [OF _ b]) (simp_all add: busy_def on_time_def time_units)
  then have "on_time_run waits {7} (Suc (Suc 0)) busy (?b\<lparr>pr_now := 5 * second\<rparr>)"
    by (rule on_time_run.free [OF _ c]) (simp_all add: busy_def on_time_def time_units)
  then show ?thesis by (simp add: numeral_2_eq_2)
qed

theorem shutdown_terminates_witness:
  "\<exists>q m r. on_time_run waits {7} 2 busy q \<and> pr_phase q = Closing (10 * second) \<and> pr_now q = 5 * second \<and>
     on_time_run waits {7} m q r \<and> pr_phase r = Stopped \<and> pr_http r = 1 \<and> pr_now r \<le> 10 * second"
proof -
  let ?q = "busy\<lparr>pr_rpcs := [], pr_phase := Closing (10 * second), pr_now := 5 * second\<rparr>"
  have "pr_phase busy = Draining" "\<forall>i \<in> {7}. Streaming i \<notin> set (pr_rpcs busy)" by (simp_all add: busy_def)
  note t = shutdown_terminates [OF waits_law this busy_run]
  obtain m r where r: "on_time_run waits {7} m ?q r" "pr_phase r = Stopped" "pr_http r = pr_http ?q"
    using t by auto
  moreover have "pr_now r \<le> 10 * second" using t r(1) by simp
  moreover have "pr_http ?q = 1" "pr_phase ?q = Closing (10 * second)" "pr_now ?q = 5 * second"
    by (simp_all add: busy_def)
  ultimately show ?thesis using busy_run by metis
qed

definition watched :: process where
  "watched = \<lparr>pr_phase = Serving, pr_rpcs = [Streaming 7], pr_http = 0, pr_now = 0\<rparr>"

theorem open_stream_blocks_shutdown_witness:
  "(process_step waits {7})\<^sup>*\<^sup>* watched (watched\<lparr>pr_phase := Draining, pr_now := hour\<rparr>) \<and>
   (\<nexists>q. (process_step waits {7})\<^sup>*\<^sup>* watched q \<and> pr_phase q = Stopped)"
proof -
  let ?p = "watched\<lparr>pr_phase := Draining\<rparr>"
  have "process_step waits {7} watched ?p"
    by (rule process_step.signal) (simp add: watched_def)
  moreover have "process_step waits {7} ?p (?p\<lparr>pr_now := hour\<rparr>)"
    by (rule process_step.clock) (simp_all add: watched_def time_units)
  ultimately have "(process_step waits {7})\<^sup>*\<^sup>* watched (?p\<lparr>pr_now := hour\<rparr>)"
    by (meson rtranclp.rtrancl_into_rtrancl rtranclp.rtrancl_refl)
  moreover have "pr_phase q \<noteq> Stopped" if "(process_step waits {7})\<^sup>*\<^sup>* watched q" for q
    using open_stream_blocks_shutdown [OF waits_law _ _ _ that, of 7] by (auto simp: watched_def)
  ultimately show ?thesis by (auto simp: watched_def)
qed

definition demo_agent :: "(unit, string) agent_os" where
  "demo_agent = \<lparr>ao_viper = \<lparr>vp_empty = (), vp_ReadInConfig = (\<lambda>_. Inl (ReadError ''no such file'')),
       vp_Unmarshal = (\<lambda>_ _ _. Inl [])\<rparr>,
     ao_getenv = (\<lambda>_. []), ao_tls = demo_tls, ao_Stat = (\<lambda>_. StatNotExist), ao_Hostname = ''web'',
     ao_NewClient = (\<lambda>_ _. None)\<rparr>"

lemma demo_agent_runs:
  assumes "en_uuid E0 (sv_draws s) \<notin> n_ID ` set (db_nodes (sv_db s))"
  shows "\<exists>calls s'. agent_main demo_agent (rpc_RegisterNode E0 (\<lambda>_. 0)) [ATick, ASignal] s =
      (AgentRan (en_uuid E0 (sv_draws s)) 30 calls True, s') \<and> sv_draws s' = Suc (sv_draws s) \<and>
      n_ID ` set (db_nodes (sv_db s')) = insert (en_uuid E0 (sv_draws s)) (n_ID ` set (db_nodes (sv_db s)))"
  using assms
  by (simp add: agent_main_def demo_agent_def Load_def heartbeat_sec_def rpc_RegisterNode_def generateID_def
      CreateNode_def ref_gorm_def ref_table_def node_message_def time_units duration_bounds)

theorem agent_restart_duplicates_witness:
  "\<exists>i j hb hb' calls calls' b b' s1 s2.
     agent_main demo_agent (rpc_RegisterNode E0 (\<lambda>_. 0)) [ATick, ASignal] S0 = (AgentRan i hb calls b, s1) \<and>
     agent_main demo_agent (rpc_RegisterNode E0 (\<lambda>_. 0)) [ATick, ASignal] s1 = (AgentRan j hb' calls' b', s2) \<and>
     i \<noteq> j \<and> {i, j} \<subseteq> n_ID ` set (db_nodes (sv_db s2))"
proof -
  have d: "sv_draws S0 = 2" "db_nodes (sv_db S0) = []" by (simp_all add: two_snapshots_def empty_db_def)
  have u: "en_uuid E0 3 \<noteq> en_uuid E0 2"
    by (simp add: demo_env_def dec_nat.simps digit_char_def char_of_eq_iff)
  obtain c s1 where 1: "agent_main demo_agent (rpc_RegisterNode E0 (\<lambda>_. 0)) [ATick, ASignal] S0 =
      (AgentRan (en_uuid E0 2) 30 c True, s1)" "sv_draws s1 = 3" "n_ID ` set (db_nodes (sv_db s1)) = {en_uuid E0 2}"
    using demo_agent_runs [of S0] d by auto
  obtain c' s2 where 2: "agent_main demo_agent (rpc_RegisterNode E0 (\<lambda>_. 0)) [ATick, ASignal] s1 =
      (AgentRan (en_uuid E0 3) 30 c' True, s2)"
    using demo_agent_runs [of s1] 1(2,3) u by auto
  have "gorm_ok (en_gorm E0)" by (simp add: ref_gorm_ok)
  from agent_restart_duplicates [OF this 1(1) 2]
  have "en_uuid E0 2 \<noteq> en_uuid E0 3" "{en_uuid E0 2, en_uuid E0 3} \<subseteq> n_ID ` set (db_nodes (sv_db s2))"
    by (auto intro: rev_image_eqI)
  with 1(1) 2 show ?thesis by metis
qed

end
