(* ===== verification/Metrics.thy ===== *)
theory Metrics
  imports Inventory
begin

text \<open>
  \<open>internal/metrics\<close>: the eight metrics, registered when the package is initialised, and what the
  server ever writes to them. The Prometheus client is not part of the repository: registering is
  an argument, with the conditions under which its documentation says that it panics.
\<close>

section \<open>The declarations\<close>

datatype metric_kind =
    Gauge
  | Counter
  | CounterVec "string list"
  | HistogramVec "string list"
  | CounterFunc

record metric =
  mt_Name :: string
  mt_Kind :: metric_kind

definition metrics :: "metric list" where
  "metrics =
     [\<lparr>mt_Name = ''snapah_snapshots_total'', mt_Kind = Gauge\<rparr>,
      \<lparr>mt_Name = ''snapah_nodes_online'', mt_Kind = Gauge\<rparr>,
      \<lparr>mt_Name = ''snapah_policies_active'', mt_Kind = Gauge\<rparr>,
      \<lparr>mt_Name = ''snapah_snapshot_created_total'', mt_Kind = Counter\<rparr>,
      \<lparr>mt_Name = ''snapah_snapshot_deleted_total'', mt_Kind = Counter\<rparr>,
      \<lparr>mt_Name = ''snapah_replication_jobs_total'', mt_Kind = CounterVec [''status'']\<rparr>,
      \<lparr>mt_Name = ''snapah_api_request_duration_seconds'', mt_Kind = HistogramVec [''method'', ''path'', ''status'']\<rparr>,
      \<lparr>mt_Name = ''snapah_uptime_seconds_total'', mt_Kind = CounterFunc\<rparr>]"

text \<open>The package is initialised metric by metric; \<open>None\<close> is the panic of \<open>promauto\<close>.\<close>

fun register_all :: "(metric \<Rightarrow> 'r \<Rightarrow> 'r option) \<Rightarrow> metric list \<Rightarrow> 'r \<Rightarrow> 'r option" where
  "register_all reg [] r = Some r"
| "register_all reg (m # ms) r = (case reg m r of None \<Rightarrow> None | Some r' \<Rightarrow> register_all reg ms r')"

text \<open>Documented: a name matches \<open>[a-zA-Z_:][a-zA-Z0-9_:]*\<close>, and is registered once.\<close>

definition word_start :: "char \<Rightarrow> bool" where
  "word_start c \<longleftrightarrow> (let n = of_char c :: nat in 97 \<le> n \<and> n \<le> 122 \<or> 65 \<le> n \<and> n \<le> 90 \<or> n = 95 \<or> n = 58)"

definition word_char :: "char \<Rightarrow> bool" where
  "word_char c \<longleftrightarrow> word_start c \<or> (let n = of_char c :: nat in 48 \<le> n \<and> n \<le> 57)"

definition metric_name :: "string \<Rightarrow> bool" where
  "metric_name s \<longleftrightarrow> (case s of [] \<Rightarrow> False | c # cs \<Rightarrow> word_start c \<and> list_all word_char cs)"

definition registry_ok :: "(metric \<Rightarrow> 'r \<Rightarrow> 'r option) \<Rightarrow> ('r \<Rightarrow> string set) \<Rightarrow> bool" where
  "registry_ok reg names \<longleftrightarrow>
     (\<forall>m r. metric_name (mt_Name m) \<and> mt_Name m \<notin> names r \<longrightarrow>
        (\<exists>r'. reg m r = Some r' \<and> names r' = insert (mt_Name m) (names r)))"

section \<open>What is exposed\<close>

text \<open>
  The values a scrape finds. The gauges are the ones last set, the two counters those of the server.
  A vector has a value only for labels that were used, and no code uses any; the function behind
  the uptime returns a constant.
\<close>

definition uptime :: "('x, 'c) server \<Rightarrow> nat" where
  "uptime s = 0"

definition scrape :: "('x, 'c) server \<Rightarrow> gauges \<Rightarrow> (string \<times> nat) list" where
  "scrape s ga =
     [(''snapah_snapshots_total'', ga_SnapshotsTotal ga), (''snapah_nodes_online'', ga_NodesOnline ga),
      (''snapah_policies_active'', ga_PoliciesActive ga), (''snapah_snapshot_created_total'', sv_created s),
      (''snapah_snapshot_deleted_total'', sv_deleted s), (''snapah_uptime_seconds_total'', uptime s)]"

lemma register_all_ok:
  assumes "registry_ok reg names" "list_all (metric_name \<circ> mt_Name) ms" "distinct (map mt_Name ms)"
    and "names r \<inter> mt_Name ` set ms = {}"
  shows "\<exists>r'. register_all reg ms r = Some r' \<and> names r' = names r \<union> mt_Name ` set ms"
  using assms(2-4)
proof (induction ms arbitrary: r)
  case (Cons m ms)
  have "metric_name (mt_Name m) \<and> mt_Name m \<notin> names r" using Cons.prems(1,3) by simp
  then obtain r1 where r1: "reg m r = Some r1" "names r1 = insert (mt_Name m) (names r)"
    using assms(1) [unfolded registry_ok_def, rule_format, of m r] by blast
  have "list_all (metric_name \<circ> mt_Name) ms" "distinct (map mt_Name ms)"
    "names r1 \<inter> mt_Name ` set ms = {}"
    using Cons.prems unfolding r1(2) by (simp_all add: o_def)
  from Cons.IH [OF this] obtain r2
    where "register_all reg ms r1 = Some r2" "names r2 = names r1 \<union> mt_Name ` set ms" by blast
  then show ?case unfolding r1(2) by (simp add: r1(1) insert_commute)
qed simp

lemma metrics_names: "list_all (metric_name \<circ> mt_Name) metrics" "distinct (map mt_Name metrics)"
  by (simp_all add: metrics_def metric_name_def word_char_def word_start_def Let_def)

text \<open>The package comes up: with an empty registry no registration panics, and every name that a
  scrape reports is a registered one.\<close>

theorem metrics_register:
  assumes "registry_ok reg names" "names r = {}"
  shows "\<exists>r'. register_all reg metrics r = Some r' \<and> fst ` set (scrape s ga) \<subseteq> names r'"
proof -
  obtain r' where "register_all reg metrics r = Some r'" "names r' = mt_Name ` set metrics"
    using register_all_ok [OF assms(1) metrics_names, of r] assms(2) by auto
  then show ?thesis by (auto simp: scrape_def metrics_def)
qed

end
