(* ===== verification/Spec2Isabelle.thy ===== *)
theory Spec2Isabelle
  imports Fleet Console Calls Restart Process Metrics
begin

text \<open>
  Verification development of snapah-pow, a manager of btrfs snapshots: a server with an HTTP and
  a gRPC interface, an agent on every node, and a command line client.

  \<^bold>\<open>The program.\<close> The server (\<open>cmd/server/main.go\<close>) keeps nodes, snapshots, policies, events and
  API keys in a database (\<open>internal/storage\<close>), runs the btrfs command (\<open>internal/btrfs\<close>), runs
  policies on a cron schedule (\<open>internal/scheduler\<close>), copies snapshots to other nodes
  (\<open>internal/replication\<close>), watches the nodes and sends alerts (\<open>internal/alerts\<close>) and pushes
  events to browsers (\<open>internal/hub\<close>). Its HTTP routes stand behind a rate limiter
  (\<open>internal/ratelimit\<close>) and a check of JSON web tokens (\<open>internal/auth\<close>); \<open>internal/apikeys\<close> is a
  second kind of credential. The agent (\<open>cmd/agent/main.go\<close>) registers its node and sends
  heartbeats; both read \<open>internal/config\<close> and \<open>internal/tlsconfig\<close>. The client (\<open>cmd/cli/main.go\<close>) logs in
  and shows the listings of the server in a terminal.

  \<^bold>\<open>Theories.\<close>
  \<^item> \<open>Prelude\<close>: the collection of simplification facts of the development, lemmas on lists, maps and
    options, the run of a deterministic step function and its invariant rule.
  \<^item> \<open>GoStd\<close>, \<open>GoTime\<close>, \<open>Http\<close>: what the sources use of Go's standard library, written from its
    documentation: \<open>strings\<close>, \<open>strconv\<close>, \<open>path/filepath\<close>, \<open>encoding/hex\<close>, the formats of \<open>time\<close>,
    headers, responses, \<open>encoding/json\<close> into tagged structs, and the locale \<open>guard\<close> of a middleware.
  \<^item> \<open>RateLimit\<close>: \<open>Allow\<close>, the sweep, the middleware; refined by a specification in terms of bursts.
  \<^item> \<open>Storage\<close>: rows and operations, over a record of functions that stands for gorm.
  \<^item> \<open>Auth\<close>: accounts (\<open>users.go\<close>), tokens and the middleware (\<open>auth.go\<close>).
  \<^item> \<open>ApiKeys\<close>: creation, validation, revocation, and the combined middleware.
  \<^item> \<open>Btrfs\<close>: argument vectors, the parser of listings, snapshot paths.
  \<^item> \<open>Scheduler\<close>: policies and cron entries, one run of a policy, retention.
  \<^item> \<open>Alerts\<close>: configuration, mail, webhook (\<open>alerts.go\<close>), the watchdog (\<open>watchdog.go\<close>).
  \<^item> \<open>Hub\<close>: the goroutines of the websocket hub as steps on a shared state.
  \<^item> \<open>Replication\<close>: one job as a function, and the goroutines of many jobs as steps on shared state.
  \<^item> \<open>Deploy\<close>: configuration, TLS set-up, the start and the loop of the agent.
  \<^item> \<open>Api\<close>, \<open>Server\<close>: the messages and JSON of the server, its state, its gRPC methods, its handlers
    and its routes with the middleware in front of each.
  \<^item> \<open>Access\<close>, \<open>Service\<close>, \<open>Fleet\<close>: properties of the whole server: who may do what, what the
    handlers do to the database and the file system, agents and the watchdog.
  \<^item> \<open>Effects\<close>: the running server as a machine of events (requests, calls, jobs, runs of policies, the
    watchdog), and what each event does to the rows and files of snapshots.
  \<^item> \<open>Inventory\<close>: over all runs, the rows and the files agree, and so do the gauges and the counters.
  \<^item> \<open>Calls\<close>: calls that overlap: creation, deletion and runs of policies cut at their commands and
    statements, interleaved in any order; a server that dies in between.
  \<^item> \<open>Restart\<close>: what a started server knows of the policies in its database.
  \<^item> \<open>Process\<close>: \<open>main\<close> of the server, from the configuration to its two shutdowns, and \<open>main\<close> of the
    agent against the server.
  \<^item> \<open>Metrics\<close>: the metrics (\<open>metrics.go\<close>), their registration, what a scrape finds.
  \<^item> \<open>Cli\<close>, \<open>CliApi\<close>, \<open>CliSession\<close>: the interactive client (\<open>cmd/cli/main.go\<close>): screens, messages and
    views; calls, decoding and rows; sessions with commands that finish in any order.
  \<^item> \<open>Console\<close>: the client against the server.

  \<^bold>\<open>How state corresponds.\<close> A struct is a record with the same fields; the record \<open>server\<close> has one
  field per field of the Go struct, plus the world the server acts on: the database, the btrfs
  world, the deliveries started, the two counters it increments. An operation takes the state and
  returns it changed. A map of Go is a map; where the order of a traversal is not fixed by Go, the
  order is an argument. A critical section under a mutex is one step. The clock is a function
  \<open>clk\<close>, whose k-th value is the k-th reading; a check of the watchdog is
  the exception: all its readings are one \<open>now\<close>. Times are nanoseconds since 1970, durations wrap at
  64 bits. Strings are the bytes of the UTF-8 text.

  \<^bold>\<open>Parameters.\<close> What is not in the repository is an argument: gorm and the database, bcrypt, the
  JWT library, SHA-256, random bytes and identifiers, the cron library, the btrfs command, the mail,
  HTTP and gRPC clients, the websocket library, viper, the TLS files, the widgets of the terminal.
  What the code relies on is stated as named predicates (\<open>gorm_ok\<close>, \<open>bcrypt_ok\<close>, \<open>jwt_ok\<close>,
  \<open>sha_ok\<close>, \<open>cron_ok\<close>, \<open>seconds_law\<close>, \<open>fs_ok\<close>, \<open>unique_paths\<close>, \<open>soft_deletes\<close>, \<open>refuses_missing\<close>,
  \<open>waits_for_all\<close>), each proved of a concrete reference instance that the witnesses run on, and for
  \<open>Shutdown\<close>, which returns when its context expires, as the runs that are \<open>on_time\<close>.

  \<^bold>\<open>What the theorems show.\<close> Access: the roles each protected route demands are enforced
  (\<open>roles_enforced\<close>), without a valid token nothing is reached, identity headers of the client are
  overwritten, the right role is served, a login opens a session. Limiter: it implements bursts, and
  clients do not affect each other. Storage and snapshots: over any sequence of
  requests, jobs and runs of policies, also when calls overlap, the only rows without a file are
  those a call is about to erase and those whose path retention asked btrfs to delete; the theorems
  run the server beside a note of these paths, which stays empty as long as the listings have only
  lines the parser skips (\<open>lists_short\<close>); the cut methods, run alone, are the whole ones (\<open>calls_alone\<close>); the gauge is what
  the created and deleted counters make it; created snapshots are listed, deleted ones gone.
  Process: after the signal, if nobody streams, the server stops after a bounded number of changes
  and within ten seconds of the call of \<open>Shutdown\<close>, over all runs that are \<open>on_time\<close>; while somebody
  streams it never stops. Scheduler: a removed policy never runs again; retention deletes by the
  position in the listing, deletes nothing when every line is short, and aims at the subvolume itself
  when the paths have five words. Alerts: offline and recovery alternate, one check judges each node on its
  own. Hub: every client gets a prefix of what was sent to it in order. Replication: how one
  replication ends; over a pool of goroutines a job is running exactly while its goroutine
  is, and never changes once it has ended. Keys: a new key validates up to the date of \<open>AddDate\<close>
  (\<open>add_days\<close>: days of the calendar in the local zone, seconds in 64 bits), a revoked one never
  again. Client: it never stops on an index, asks for data only in a session, and shows
  exactly the rows the server has; from the login through the menu to a listing, client and server
  are one composition. Some theorems show where the code falls short of what it intends: the
  manifest's findings list them.

  \<^bold>\<open>Recursion and bounds.\<close> Loops over lists and bytes are structural or have a measure; no definition
  uses fuel; a call in flight ends by a lexicographic measure (\<open>complete\<close>). The calendar is proved for all times from year 1 on; formats with a four digit year
  are proved injective for years below 10000.

  \<^bold>\<open>Not modelled.\<close> The generated code of \<open>api/proto\<close>, whose messages are records here; the insides of
  the libraries, among them the listening, serving and scraping that \<open>Process\<close> and \<open>Metrics\<close> take
  as arguments; log lines; help texts and histogram buckets; a race inside one operation of an
  unlocked map (the scheduler's), which Go leaves undefined; the smoke test, which calls a running
  server; the web page, the container and deployment files, which are not Go.
\<close>

end
